(* ===== verification/PM_Prelude.thy ===== *)
theory PM_Prelude
  imports Complex_Main "HOL-Library.Multiset" "HOL-Library.Product_Lexorder"
begin

text \<open>
  The vocabulary every component shares: the exceptions the program raises, the
  exception-carrying result type and its sequencing operators, Python's list slicing and
  sorting, and the generic facts about them. A call that raises is a value \<open>Inl e\<close>;
  the messages keep their literal text, and the values a message interpolates are left out.
\<close>

named_theorems bindE_simps \<open>evaluation rules of the result operators\<close>
named_theorems slot_bounds \<open>bounds on values the components store\<close>

subsection \<open>Exceptions and results\<close>

datatype exn =
    RateEvaluationError string
  | ValueError string
  | AuthenticationError string
  | PermissionDenied string
  | IntegrityConflict string
  | ReplayDetected string
  | NotFound string
  | UnsafeSource string
  | BillRateImportError string
  | RateWorkflowConflict string
  | RateSyncBusy string
  | OTAWorkflowError string
  | InvalidRequest string
  | InvalidOperation
  | ZeroDivisionError
  | AssertionError
  | KeyError
  | TypeError
  | IntegrityError
  | InvalidTag

type_synonym 'a result = "exn + 'a"

fun bindE :: "'a result \<Rightarrow> ('a \<Rightarrow> 'b result) \<Rightarrow> 'b result" where
  "bindE (Inl e) f = Inl e"
| "bindE (Inr a) f = f a"

text \<open>\<open>if not ok: raise e\<close>.\<close>

definition require :: "bool \<Rightarrow> exn \<Rightarrow> unit result" where
  "require ok e = (if ok then Inr () else Inl e)"

text \<open>\<open>if len(matches) != 1: raise e\<close>, then \<open>matches[0]\<close>.\<close>

definition exactly_one :: "exn \<Rightarrow> 'a list \<Rightarrow> 'a result" where
  "exactly_one e xs = (case xs of [x] \<Rightarrow> Inr x | _ \<Rightarrow> Inl e)"

text \<open>A \<open>for\<close> loop that builds a list and stops at the first exception.\<close>

fun mapE :: "('a \<Rightarrow> 'b result) \<Rightarrow> 'a list \<Rightarrow> 'b list result" where
  "mapE f [] = Inr []"
| "mapE f (x # xs) = bindE (f x) (\<lambda>y. bindE (mapE f xs) (\<lambda>ys. Inr (y # ys)))"

text \<open>A \<open>for\<close> loop that threads a state and stops at the first exception.\<close>

fun foldE :: "('a \<Rightarrow> 's \<Rightarrow> 's result) \<Rightarrow> 'a list \<Rightarrow> 's \<Rightarrow> 's result" where
  "foldE f [] s = Inr s"
| "foldE f (x # xs) s = bindE (f x s) (foldE f xs)"

text \<open>A comprehension whose condition, or whose element, may raise.\<close>

fun filterE :: "('a \<Rightarrow> bool result) \<Rightarrow> 'a list \<Rightarrow> 'a list result" where
  "filterE p [] = Inr []"
| "filterE p (x # xs) =
     bindE (p x) (\<lambda>b. bindE (filterE p xs) (\<lambda>ys. Inr (if b then x # ys else ys)))"

fun collectE :: "('a \<Rightarrow> 'b option result) \<Rightarrow> 'a list \<Rightarrow> 'b list result" where
  "collectE f [] = Inr []"
| "collectE f (x # xs) =
     bindE (f x) (\<lambda>r. bindE (collectE f xs)
       (\<lambda>ys. Inr (case r of None \<Rightarrow> ys | Some y \<Rightarrow> y # ys)))"

subsection \<open>Python's slices and sorting\<close>

text \<open>\<open>xs[:k]\<close>: a negative bound counts from the end.\<close>

definition py_take :: "int \<Rightarrow> 'a list \<Rightarrow> 'a list" where
  "py_take k xs = (if 0 \<le> k then take (nat k) xs else take (nat (int (length xs) + k)) xs)"

text \<open>\<open>sorted(xs, key=key, reverse=True)\<close>, which keeps equal elements in their order.\<close>

definition py_sorted_reverse :: "('a \<Rightarrow> 'k::linorder) \<Rightarrow> 'a list \<Rightarrow> 'a list" where
  "py_sorted_reverse key xs = rev (sort_key key (rev xs))"

text \<open>\<open>xs.index(x)\<close>, for an \<open>x\<close> that occurs in \<open>xs\<close>.\<close>

definition list_index :: "'a list \<Rightarrow> 'a \<Rightarrow> nat" where
  "list_index xs x = length (takeWhile (\<lambda>y. y \<noteq> x) xs)"

text \<open>\<open>itertools.pairwise\<close>.\<close>

fun pairwise :: "'a list \<Rightarrow> ('a \<times> 'a) list" where
  "pairwise (x # y # zs) = (x, y) # pairwise (y # zs)"
| "pairwise _ = []"

text \<open>\<open>int(b)\<close> of a truth value.\<close>

definition py_bool_int :: "bool \<Rightarrow> int" where
  "py_bool_int b = (if b then 1 else 0)"

subsection \<open>Facts about results\<close>

lemma bindE_Inr_iff [bindE_simps]:
  "bindE m f = Inr b \<longleftrightarrow> (\<exists>a. m = Inr a \<and> f a = Inr b)"
  by (cases m) auto

lemma bindE_Inl_iff [bindE_simps]:
  "bindE m f = Inl e \<longleftrightarrow> m = Inl e \<or> (\<exists>a. m = Inr a \<and> f a = Inl e)"
  by (cases m) auto

lemma bindE_cong [fundef_cong]:
  "m = m' \<Longrightarrow> (\<And>a. m' = Inr a \<Longrightarrow> f a = g a) \<Longrightarrow> bindE m f = bindE m' g"
  by (cases m') auto

lemma map_sum_Inr_iff [bindE_simps]: "map_sum f g m = Inr b \<longleftrightarrow> (\<exists>a. m = Inr a \<and> b = g a)"
  by (cases m) auto

lemma require_Inr_iff [bindE_simps]: "require ok e = Inr u \<longleftrightarrow> ok"
  by (simp add: require_def)

lemma require_Inl_iff [bindE_simps]: "require ok e = Inl e' \<longleftrightarrow> \<not> ok \<and> e' = e"
  by (auto simp: require_def)

lemma require_True [simp]: "require True e = Inr ()"
  and require_False [simp]: "require False e = Inl e"
  by (simp_all add: require_def)

lemma exactly_one_Inr_iff [bindE_simps]: "exactly_one e xs = Inr x \<longleftrightarrow> xs = [x]"
  by (auto simp: exactly_one_def split: list.splits)

lemma mapE_Inr_list_all2:
  "mapE f xs = Inr ys \<longleftrightarrow> list_all2 (\<lambda>x y. f x = Inr y) xs ys"
  by (induction xs arbitrary: ys) (auto simp: bindE_simps list_all2_Cons1)

lemma mapE_length: "mapE f xs = Inr ys \<Longrightarrow> length ys = length xs"
  by (auto simp: mapE_Inr_list_all2 list_all2_lengthD)

lemma mapE_Inr_setD:
  "mapE f xs = Inr ys \<Longrightarrow> y \<in> set ys \<Longrightarrow> \<exists>x\<in>set xs. f x = Inr y"
  by (induction xs arbitrary: ys) (auto simp: bindE_simps)

lemma mapE_Inr_ballD: "mapE f xs = Inr ys \<Longrightarrow> \<forall>x\<in>set xs. \<exists>y. f x = Inr y"
  by (induction xs arbitrary: ys) (auto simp: bindE_simps)

lemma mapE_Inl_D:
  "mapE f xs = Inl e \<Longrightarrow> \<exists>x\<in>set xs. f x = Inl e"
  by (induction xs) (auto simp: bindE_simps)

lemma filterE_Inr_setD:
  "filterE p xs = Inr ys \<Longrightarrow> y \<in> set ys \<Longrightarrow> y \<in> set xs \<and> p y = Inr True"
  by (induction xs arbitrary: ys) (auto simp: bindE_simps split: if_splits)

lemma filterE_Inr_filter:
  "filterE p xs = Inr ys \<Longrightarrow> ys = filter (\<lambda>x. p x = Inr True) xs"
  by (induction xs arbitrary: ys) (auto simp: bindE_simps)

lemma collectE_Inr_setD:
  "collectE f xs = Inr ys \<Longrightarrow> y \<in> set ys \<Longrightarrow> \<exists>x\<in>set xs. f x = Inr (Some y)"
  by (induction xs arbitrary: ys) (auto simp: bindE_simps split: option.splits)

lemma foldE_invariant:
  assumes "foldE f xs s = Inr t" and "I s"
    and "\<And>x s t. x \<in> set xs \<Longrightarrow> I s \<Longrightarrow> f x s = Inr t \<Longrightarrow> I t"
  shows "I t"
  using assms
proof (induction xs arbitrary: s)
  case (Cons x xs)
  then obtain u where u: "f x s = Inr u" "foldE f xs u = Inr t"
    by (auto simp: bindE_simps)
  have "I u" using Cons.prems(2) u(1) by (rule Cons.prems(3) [rotated]) simp
  moreover have "\<And>y s t. y \<in> set xs \<Longrightarrow> I s \<Longrightarrow> f y s = Inr t \<Longrightarrow> I t"
    by (rule Cons.prems(3)) auto
  ultimately show ?case using Cons.IH [OF u(2)] by blast
qed simp

text \<open>A fact each turn of a loop establishes and later turns keep holds at the end.\<close>

lemma foldE_established:
  assumes "foldE f xs s = Inr t" and "I s"
    and "\<And>x s t. x \<in> set xs \<Longrightarrow> I s \<Longrightarrow> f x s = Inr t \<Longrightarrow> I t \<and> Q x t"
    and "\<And>x y s t. y \<in> set xs \<Longrightarrow> I s \<Longrightarrow> Q x s \<Longrightarrow> f y s = Inr t \<Longrightarrow> Q x t"
  shows "\<forall>x\<in>set xs. Q x t"
  using assms
proof (induction xs arbitrary: s)
  case Nil
  show ?case by simp
next
  case (Cons x xs)
  obtain u where u: "f x s = Inr u" "foldE f xs u = Inr t" using Cons.prems(1) by (auto simp: bindE_simps)
  have x: "I u" "Q x u" using Cons.prems(3) [OF _ Cons.prems(2) u(1)] by simp_all
  have "I t \<and> Q x t"
  proof (rule foldE_invariant [OF u(2)])
    fix y v w assume y: "y \<in> set xs" "I v \<and> Q x v" "f y v = Inr w"
    then have "y \<in> set (x # xs)" by simp
    then show "I w \<and> Q x w" using Cons.prems(3) [of y v w] Cons.prems(4) [of y v x w] y by simp
  qed (simp add: x)
  moreover have "\<forall>y\<in>set xs. Q y t"
    by (rule Cons.IH [OF u(2) x(1)]) (rule Cons.prems(3), simp+, rule Cons.prems(4), auto)
  ultimately show ?case by simp
qed

lemma foldE_append:
  "foldE f (xs @ ys) s = bindE (foldE f xs s) (foldE f ys)"
proof (induction xs arbitrary: s)
  case (Cons x xs)
  then show ?case by (cases "f x s") auto
qed simp

lemma find_SomeD: "find P xs = Some x \<Longrightarrow> x \<in> set xs \<and> P x"
  by (induction xs) (auto split: if_splits)

lemma find_NoneD: "find P xs = None \<Longrightarrow> \<forall>x\<in>set xs. \<not> P x"
  by (induction xs) (auto split: if_splits)

subsection \<open>Facts about slices and sorting\<close>

lemma mset_py_sorted_reverse [simp]: "mset (py_sorted_reverse key xs) = mset xs"
  by (simp add: py_sorted_reverse_def)

lemma set_py_sorted_reverse [simp]: "set (py_sorted_reverse key xs) = set xs"
  by (simp add: py_sorted_reverse_def)

lemma distinct_py_sorted_reverse [simp]:
  "distinct (py_sorted_reverse key xs) = distinct xs"
  by (simp add: py_sorted_reverse_def)

lemma length_py_sorted_reverse [simp]:
  "length (py_sorted_reverse key xs) = length xs"
  by (simp add: py_sorted_reverse_def)

lemma set_py_take_subset: "set (py_take k xs) \<subseteq> set xs"
  by (auto simp: py_take_def dest: in_set_takeD)

lemma length_py_take:
  "0 \<le> k \<Longrightarrow> k \<le> int (length xs) \<Longrightarrow> length (py_take k xs) = nat k"
  by (auto simp: py_take_def)

lemma distinct_py_take: "distinct xs \<Longrightarrow> distinct (py_take k xs)"
  by (auto simp: py_take_def)

lemma length_pairwise: "length (pairwise xs) = length xs - 1"
  by (induction xs rule: pairwise.induct) auto

lemma sum_list_pairwise_diff:
  fixes xs :: "int list"
  assumes "xs \<noteq> []"
  shows "sum_list (map (\<lambda>(l, r). r - l) (pairwise xs)) = last xs - hd xs"
  using assms by (induction xs rule: pairwise.induct) auto

lemma pairwise_sorted_wrt_less:
  fixes xs :: "'a::linorder list"
  assumes "sorted_wrt (<) xs" and "(l, r) \<in> set (pairwise xs)"
  shows "l < r \<and> l \<in> set xs \<and> r \<in> set xs"
  using assms by (induction xs rule: pairwise.induct) auto

lemma sum_list_update_int:
  "i < length xs \<Longrightarrow> sum_list (xs[i := v]) = sum_list xs + v - (xs ! i :: int)"
  by (induction xs arbitrary: i) (auto split: nat.splits)

lemma int_div_times_le: "0 < D \<Longrightarrow> x div D * D \<le> (x::int)"
  using div_mult_mod_eq [of x D] pos_mod_sign [of D x] by linarith

subsection \<open>Systems of atomic operations\<close>

text \<open>
  The program runs each request in one database transaction. A run is a sequence of
  operations; one that raises leaves the committed state as it was.
\<close>

inductive reachable :: "('s \<Rightarrow> bool) \<Rightarrow> ('s \<Rightarrow> 's \<Rightarrow> bool) \<Rightarrow> 's \<Rightarrow> bool"
  for initial :: "'s \<Rightarrow> bool" and step :: "'s \<Rightarrow> 's \<Rightarrow> bool" where
  reachable_init: "initial s \<Longrightarrow> reachable initial step s"
| reachable_step: "reachable initial step s \<Longrightarrow> step s t \<Longrightarrow> reachable initial step t"

text \<open>
  The contract of a stateful component: an invariant its initial states have and its steps
  keep, and a reading of the state that no step lets go back.
\<close>

locale guarded_system =
  fixes initial :: "'s \<Rightarrow> bool"
    and step :: "'s \<Rightarrow> 's \<Rightarrow> bool"
    and inv :: "'s \<Rightarrow> bool"
  assumes initial_inv: "initial s \<Longrightarrow> inv s"
    and step_inv: "inv s \<Longrightarrow> step s t \<Longrightarrow> inv t"
begin

lemma reachable_inv: "reachable initial step s \<Longrightarrow> inv s"
  by (induction rule: reachable.induct) (auto intro: initial_inv step_inv)

lemma steps_inv: "step\<^sup>*\<^sup>* s t \<Longrightarrow> inv s \<Longrightarrow> inv t"
  by (induction rule: rtranclp_induct) (auto intro: step_inv)

end

locale monotone_system = guarded_system initial step inv
  for initial :: "'s \<Rightarrow> bool" and step :: "'s \<Rightarrow> 's \<Rightarrow> bool" and inv :: "'s \<Rightarrow> bool" +
  fixes level :: "'s \<Rightarrow> int"
  assumes step_level: "inv s \<Longrightarrow> step s t \<Longrightarrow> level s \<le> level t"
begin

lemma steps_level: "step\<^sup>*\<^sup>* s t \<Longrightarrow> inv s \<Longrightarrow> level s \<le> level t"
proof (induction rule: rtranclp_induct)
  case (step y z)
  then have "inv y" using steps_inv by blast
  with step show ?case using step_level by fastforce
qed simp

end

end
