(* ===== verification/PM_Decimal.thy ===== *)
theory PM_Decimal
  imports PM_Prelude
begin

text \<open>
  Python's \<open>decimal.Decimal\<close> under its default context: a finite value is the rational it
  denotes, and every arithmetic operation rounds its exact result to 28 significant digits,
  half to even. Comparisons, \<open>min\<close>, \<open>max\<close> and truncation are exact, and
  \<open>quantize\<close> raises \<open>InvalidOperation\<close> when its result needs more than 28 digits.
  The exponent range of the context (beyond ten to the 999999) is not modelled.
\<close>

type_synonym decimal = rat

datatype dec_value = Finite decimal | NonFinite

subsection \<open>Rounding\<close>

definition round_half_even :: "rat \<Rightarrow> int" where
  "round_half_even x =
     (let f = \<lfloor>x\<rfloor>; r = x - of_int f
      in if r < 1 / 2 then f else if 1 / 2 < r then f + 1 else if even f then f else f + 1)"

fun dec_digits :: "nat \<Rightarrow> nat" where
  "dec_digits n = (if n < 10 then 1 else Suc (dec_digits (n div 10)))"

declare dec_digits.simps [simp del]

text \<open>The exponent of the leading digit (\<open>Decimal.adjusted\<close>).\<close>

definition dec_adjusted :: "rat \<Rightarrow> int" where
  "dec_adjusted x =
     (let (p, q) = quotient_of x;
          k = int (dec_digits (nat \<bar>p\<bar>)) - int (dec_digits (nat q))
      in if 10 powi k \<le> \<bar>x\<bar> then k else k - 1)"

definition dec_round :: "rat \<Rightarrow> decimal" where
  "dec_round x =
     (if x = 0 then 0
      else let e = dec_adjusted x - 27 in of_int (round_half_even (x / 10 powi e)) * 10 powi e)"

subsection \<open>Arithmetic\<close>

definition dec_add :: "decimal \<Rightarrow> decimal \<Rightarrow> decimal" where
  "dec_add a b = dec_round (a + b)"

definition dec_sub :: "decimal \<Rightarrow> decimal \<Rightarrow> decimal" where
  "dec_sub a b = dec_round (a - b)"

definition dec_mul :: "decimal \<Rightarrow> decimal \<Rightarrow> decimal" where
  "dec_mul a b = dec_round (a * b)"

text \<open>Division where the divisor is known not to be zero.\<close>

definition dec_div :: "decimal \<Rightarrow> decimal \<Rightarrow> decimal" where
  "dec_div a b = dec_round (a / b)"

definition dec_divE :: "decimal \<Rightarrow> decimal \<Rightarrow> decimal result" where
  "dec_divE a b =
     (if b = 0 then Inl (if a = 0 then InvalidOperation else ZeroDivisionError)
      else Inr (dec_div a b))"

text \<open>\<open>sum(values, Decimal("0"))\<close>.\<close>

definition dec_sum :: "decimal list \<Rightarrow> decimal" where
  "dec_sum xs = foldl dec_add 0 xs"

text \<open>\<open>int(x)\<close>, which truncates towards zero.\<close>

definition dec_int :: "decimal \<Rightarrow> int" where
  "dec_int x = (if 0 \<le> x then \<lfloor>x\<rfloor> else \<lceil>x\<rceil>)"

text \<open>\<open>x.quantize(Decimal("1e-k"))\<close>, half to even.\<close>

definition dec_quantize :: "nat \<Rightarrow> decimal \<Rightarrow> decimal result" where
  "dec_quantize k x =
     (let n = round_half_even (x * 10 ^ k)
      in if 10 ^ 28 \<le> \<bar>n\<bar> then Inl InvalidOperation else Inr (of_int n / 10 ^ k))"

text \<open>\<open>int(x.quantize(Decimal("1"), rounding=ROUND_HALF_EVEN))\<close>.\<close>

definition dec_quantize_int :: "decimal \<Rightarrow> int result" where
  "dec_quantize_int x = bindE (dec_quantize 0 x) (\<lambda>y. Inr (dec_int y))"

subsection \<open>Half-even rounding to an integer\<close>

lemma round_half_even_bounds:
  "of_int (round_half_even x) \<le> x + 1 / 2" "x - 1 / 2 \<le> of_int (round_half_even x)"
  unfolding round_half_even_def Let_def by (auto; linarith)+

lemma round_half_even_of_int [simp]: "round_half_even (of_int n) = n"
  by (simp add: round_half_even_def)

lemma round_half_even_floor:
  "round_half_even x = \<lfloor>x\<rfloor> \<or> round_half_even x = \<lfloor>x\<rfloor> + 1"
  by (simp add: round_half_even_def Let_def)

lemma round_half_even_ge_floor: "\<lfloor>x\<rfloor> \<le> round_half_even x"
  using round_half_even_floor [of x] by linarith

lemma round_half_even_mono: "x \<le> y \<Longrightarrow> round_half_even x \<le> round_half_even y"
proof (cases "\<lfloor>x\<rfloor> = \<lfloor>y\<rfloor>")
  case True
  moreover assume "x \<le> y"
  ultimately show ?thesis by (simp add: round_half_even_def Let_def)
next
  case False
  moreover assume "x \<le> y"
  ultimately have "\<lfloor>x\<rfloor> + 1 \<le> \<lfloor>y\<rfloor>" using floor_mono [of x y] by linarith
  then show ?thesis
    using round_half_even_floor [of x] round_half_even_ge_floor [of y] by linarith
qed

lemma round_half_even_nonneg: "0 \<le> x \<Longrightarrow> 0 \<le> round_half_even x"
  using round_half_even_mono [of 0 x] round_half_even_of_int [of 0] by simp

lemma round_half_even_le_int: "x \<le> of_int n \<Longrightarrow> round_half_even x \<le> n"
  using round_half_even_mono [of x "of_int n"] by simp

lemma round_half_even_ge_int: "of_int n \<le> x \<Longrightarrow> n \<le> round_half_even x"
  using round_half_even_mono [of "of_int n" x] by simp

lemma round_half_even_minus: "round_half_even (- x) = - round_half_even x"
proof (cases "x \<in> \<int>")
  case True
  then obtain n where "x = of_int n" by (auto elim: Ints_cases)
  then show ?thesis
    using round_half_even_of_int [of n] round_half_even_of_int [of "- n"] by simp
next
  case False
  have "\<lceil>x\<rceil> = \<lfloor>x\<rfloor> + 1" using False by (simp add: ceiling_altdef) (metis Ints_of_int)
  then have f: "\<lfloor>- x\<rfloor> = - \<lfloor>x\<rfloor> - 1" by (simp add: floor_minus)
  show ?thesis unfolding round_half_even_def Let_def f by auto
qed

subsection \<open>The leading digit\<close>

lemma dec_digits_pos: "0 < dec_digits n"
  by (subst dec_digits.simps) simp

lemma dec_digits_bounds: "0 < n \<Longrightarrow> 10 ^ (dec_digits n - 1) \<le> n \<and> n < 10 ^ dec_digits n"
proof (induction n rule: dec_digits.induct)
  case (1 n)
  show ?case
  proof (cases "n < 10")
    case True
    with 1 show ?thesis by (simp add: dec_digits.simps)
  next
    case False
    define d where "d = dec_digits (n div 10)"
    have d: "0 < d" by (simp add: d_def dec_digits_pos)
    have ih: "10 ^ (d - 1) \<le> n div 10" "n div 10 < 10 ^ d"
      using 1 False by (simp_all add: d_def)
    have "10 ^ d = 10 * (10::nat) ^ (d - 1)" using d by (metis power_eq_if less_numeral_extra(3))
    then have "10 ^ d \<le> n" using ih(1) by linarith
    moreover have "n < 10 * 10 ^ d" using ih(2) by linarith
    moreover have "dec_digits n = Suc d" using False by (simp add: dec_digits.simps [of n] d_def)
    ultimately show ?thesis by simp
  qed
qed

text \<open>For evaluation, the digits of an integer are counted on its binary numeral.\<close>

function int_digits :: "int \<Rightarrow> int" where
  "int_digits n = (if n < 10 then 1 else 1 + int_digits (n div 10))"
  by pat_completeness auto
termination
  by (relation "measure nat") auto

declare int_digits.simps [simp del]

lemma int_digits: "0 \<le> n \<Longrightarrow> int (dec_digits (nat n)) = int_digits n"
proof (induction n rule: int_digits.induct)
  case (1 n)
  show ?case
  proof (cases "n < 10")
    case True
    then show ?thesis by (simp add: dec_digits.simps int_digits.simps)
  next
    case False
    moreover have "\<not> nat n < 10" using False by linarith
    moreover have "nat n div 10 = nat (n div 10)" using 1(2) by (simp add: nat_div_distrib)
    ultimately show ?thesis
      using 1 by (simp add: dec_digits.simps [of "nat n"] int_digits.simps [of n])
  qed
qed

lemma dec_adjusted_code [code]:
  "dec_adjusted x =
     (let (p, q) = quotient_of x; k = int_digits \<bar>p\<bar> - int_digits q
      in if 10 powi k \<le> \<bar>x\<bar> then k else k - 1)"
  using quotient_of_denom_pos [of x]
  by (auto simp: dec_adjusted_def int_digits less_imp_le split: prod.split)

lemma dec_digits_int_bounds:
  assumes "0 < n"
  shows "10 powi (int (dec_digits (nat n)) - 1) \<le> (of_int n :: rat)"
    and "(of_int n :: rat) < 10 powi int (dec_digits (nat n))"
proof -
  let ?d = "dec_digits (nat n)"
  have b: "10 ^ (?d - 1) \<le> nat n" "nat n < 10 ^ ?d"
    using dec_digits_bounds [of "nat n"] assms by auto
  have n: "(of_int n :: rat) = of_nat (nat n)" using assms by simp
  have e: "int ?d - 1 = int (?d - 1)" using dec_digits_pos [of "nat n"] by simp
  show "10 powi (int ?d - 1) \<le> (of_int n :: rat)"
    using b(1) unfolding e n by (simp add: power_int_of_nat del: of_nat_nat)
  show "(of_int n :: rat) < 10 powi int ?d"
    using b(2) unfolding n by (simp del: of_nat_nat)
qed

lemma powi10_less: "a < b \<Longrightarrow> (10::rat) powi a < 10 powi b"
  by (rule power_int_strict_increasing) auto

lemma powi10_less_iff: "(10::rat) powi a < 10 powi b \<longleftrightarrow> a < b"
  using powi10_less by (metis not_less_iff_gr_or_eq)

lemma powi10_le_iff: "(10::rat) powi a \<le> 10 powi b \<longleftrightarrow> a \<le> b"
  using powi10_less_iff [of b a] by linarith

lemma dec_adjusted_bounds:
  assumes "x \<noteq> 0"
  shows "10 powi dec_adjusted x \<le> \<bar>x\<bar>" and "\<bar>x\<bar> < 10 powi (dec_adjusted x + 1)"
proof -
  obtain p q where pq: "quotient_of x = (p, q)" by fastforce
  have q: "0 < q" by (rule quotient_of_denom_pos [OF pq])
  have x: "x = of_int p / of_int q" by (rule quotient_of_div [OF pq])
  with assms have p: "0 < \<bar>p\<bar>" by auto
  define dp where "dp = int (dec_digits (nat \<bar>p\<bar>))"
  define dq where "dq = int (dec_digits (nat q))"
  have bp: "10 powi (dp - 1) \<le> \<bar>of_int p :: rat\<bar>" "\<bar>of_int p :: rat\<bar> < 10 powi dp"
    using dec_digits_int_bounds [OF p] by (simp_all add: dp_def)
  have bq: "10 powi (dq - 1) \<le> (of_int q :: rat)" "(of_int q :: rat) < 10 powi dq"
    using dec_digits_int_bounds [OF q] by (simp_all add: dq_def)
  have ax: "\<bar>x\<bar> = \<bar>of_int p\<bar> / of_int q" using q by (simp add: x abs_divide)
  have "\<bar>x\<bar> < 10 powi dp / 10 powi (dq - 1)"
    unfolding ax using bp(2) bq(1) by (intro frac_less) auto
  then have up: "\<bar>x\<bar> < 10 powi (dp - dq + 1)"
    by (simp add: power_int_diff power_int_add field_simps)
  have "10 powi (dp - 1) / 10 powi dq \<le> \<bar>x\<bar>"
    unfolding ax using bp(1) bq q by (intro frac_le) auto
  then have lo: "10 powi (dp - dq - 1) \<le> \<bar>x\<bar>"
    by (simp add: power_int_diff power_int_add field_simps)
  have a: "dec_adjusted x = (if 10 powi (dp - dq) \<le> \<bar>x\<bar> then dp - dq else dp - dq - 1)"
    by (simp add: dec_adjusted_def pq dp_def dq_def Let_def)
  show "10 powi dec_adjusted x \<le> \<bar>x\<bar>" using lo by (simp add: a)
  show "\<bar>x\<bar> < 10 powi (dec_adjusted x + 1)" using up by (auto simp: a)
qed

lemma dec_adjusted_mono:
  assumes "x \<noteq> 0" "y \<noteq> 0" "\<bar>x\<bar> \<le> \<bar>y\<bar>"
  shows "dec_adjusted x \<le> dec_adjusted y"
proof -
  have "(10::rat) powi dec_adjusted x < 10 powi (dec_adjusted y + 1)"
    using dec_adjusted_bounds(1) [OF assms(1)] dec_adjusted_bounds(2) [OF assms(2)] assms(3)
    by linarith
  then show ?thesis by (simp only: powi10_less_iff)
qed

lemma dec_adjusted_unique:
  assumes "10 powi a \<le> \<bar>x\<bar>" "\<bar>x\<bar> < 10 powi (a + 1)"
  shows "dec_adjusted x = a"
proof -
  have "(0::rat) < 10 powi a" by simp
  then have x: "x \<noteq> 0" using assms(1) by (metis abs_0 leD)
  have "10 powi a < (10::rat) powi (dec_adjusted x + 1)"
    using assms(1) dec_adjusted_bounds(2) [OF x] by linarith
  moreover have "(10::rat) powi dec_adjusted x < 10 powi (a + 1)"
    using assms(2) dec_adjusted_bounds(1) [OF x] by linarith
  ultimately show ?thesis unfolding powi10_less_iff by linarith
qed

lemma dec_adjusted_minus: "x \<noteq> 0 \<Longrightarrow> dec_adjusted (- x) = dec_adjusted x"
  by (rule dec_adjusted_unique) (simp_all add: dec_adjusted_bounds)

subsection \<open>Rounding to 28 digits\<close>

lemma dec_round_zero [simp]: "dec_round 0 = 0"
  by (simp add: dec_round_def)

lemma dec_round_minus: "dec_round (- x) = - dec_round x"
  by (simp add: dec_round_def dec_adjusted_minus Let_def round_half_even_minus)

lemma dec_round_exactI:
  assumes "x \<noteq> 0" "x / 10 powi (dec_adjusted x - 27) \<in> \<int>"
  shows "dec_round x = x"
proof -
  define e where "e = dec_adjusted x - 27"
  obtain m where m: "x / 10 powi e = of_int m" using assms(2) unfolding e_def by (auto elim: Ints_cases)
  then have "dec_round x = of_int m * 10 powi e"
    using assms(1) by (simp add: dec_round_def Let_def flip: e_def)
  also have "\<dots> = x" using m by (simp add: field_simps)
  finally show ?thesis .
qed

text \<open>A value whose digits fit the precision is kept exactly.\<close>

lemma dec_round_grid:
  assumes "\<bar>n\<bar> < 10 ^ 28"
  shows "dec_round (of_int n * 10 powi k) = of_int n * 10 powi k"
proof (cases "n = 0")
  case False
  define x :: rat where "x = of_int n * 10 powi k"
  define e where "e = dec_adjusted x - 27"
  have x: "x \<noteq> 0" using False by (simp add: x_def)
  have "\<bar>of_int n :: rat\<bar> < of_int (10 ^ 28)"
    using assms by (simp only: of_int_abs [symmetric] of_int_less_iff)
  then have n: "\<bar>of_int n :: rat\<bar> < 10 powi 28" by simp
  have "\<bar>x\<bar> = \<bar>of_int n\<bar> * 10 powi k" by (simp add: x_def abs_mult)
  also have "\<dots> < 10 powi 28 * 10 powi k" using n by (intro mult_strict_right_mono) auto
  also have "\<dots> = 10 powi (28 + k)" by (subst power_int_add) auto
  finally have "(10::rat) powi dec_adjusted x < 10 powi (28 + k)"
    using dec_adjusted_bounds(1) [OF x] by linarith
  then have e: "0 \<le> k - e" unfolding powi10_less_iff e_def by linarith
  have "x / 10 powi e = of_int n * 10 powi (k - e)"
    by (simp add: x_def power_int_diff)
  also have "\<dots> = of_int (n * 10 ^ nat (k - e))" using e by (simp add: power_int_def)
  finally have "dec_round x = x" using x by (intro dec_round_exactI) (simp_all flip: e_def)
  then show ?thesis by (simp add: x_def)
qed simp

lemma dec_round_int: "\<bar>n\<bar> < 10 ^ 28 \<Longrightarrow> dec_round (of_int n) = of_int n"
  using dec_round_grid [of n 0] by simp

lemma dec_round_nonneg: "0 \<le> x \<Longrightarrow> 0 \<le> dec_round x"
  by (auto simp: dec_round_def Let_def intro!: mult_nonneg_nonneg round_half_even_nonneg)

lemma dec_round_pos_bounds:
  assumes "0 < x"
  shows "10 powi dec_adjusted x \<le> dec_round x" and "dec_round x \<le> 10 powi (dec_adjusted x + 1)"
proof -
  define e where "e = dec_adjusted x - 27"
  have x: "x \<noteq> 0" "\<bar>x\<bar> = x" using assms by auto
  have r: "dec_round x = of_int (round_half_even (x / 10 powi e)) * 10 powi e"
    using x by (simp add: dec_round_def Let_def e_def)
  have p: "(0::rat) < 10 powi e" by simp
  have a: "(10::rat) powi dec_adjusted x = of_int (10 ^ 27) * 10 powi e"
    and a1: "(10::rat) powi (dec_adjusted x + 1) = of_int (10 ^ 28) * 10 powi e"
    by (simp_all add: e_def power_int_diff power_int_add field_simps)
  have "of_int (10 ^ 27) \<le> x / 10 powi e"
    using dec_adjusted_bounds(1) [OF x(1)] x(2) p a by (simp only: pos_le_divide_eq)
  then have "10 ^ 27 \<le> round_half_even (x / 10 powi e)" by (rule round_half_even_ge_int)
  then show "10 powi dec_adjusted x \<le> dec_round x"
    unfolding r a using p by (intro mult_right_mono) (simp_all only: of_int_le_iff less_imp_le)
  have "x / 10 powi e \<le> of_int (10 ^ 28)"
    using dec_adjusted_bounds(2) [OF x(1)] x(2) p a1
    by (simp only: pos_divide_le_eq less_imp_le)
  then have "round_half_even (x / 10 powi e) \<le> 10 ^ 28" by (rule round_half_even_le_int)
  then show "dec_round x \<le> 10 powi (dec_adjusted x + 1)"
    unfolding r a1 using p by (intro mult_right_mono) (simp_all only: of_int_le_iff less_imp_le)
qed

lemma dec_round_mono_pos:
  assumes "0 < x" "x \<le> y"
  shows "dec_round x \<le> dec_round y"
proof (cases "dec_adjusted x = dec_adjusted y")
  case True
  have "x / 10 powi (dec_adjusted y - 27) \<le> y / 10 powi (dec_adjusted y - 27)"
    using assms(2) by (intro divide_right_mono) auto
  then show ?thesis using assms True
    by (auto simp: dec_round_def Let_def intro!: mult_right_mono round_half_even_mono)
next
  case False
  then have "dec_adjusted x + 1 \<le> dec_adjusted y"
    using dec_adjusted_mono [of x y] assms by auto
  then have "(10::rat) powi (dec_adjusted x + 1) \<le> 10 powi dec_adjusted y"
    by (simp only: powi10_le_iff)
  then show ?thesis
    using dec_round_pos_bounds(2) [of x] dec_round_pos_bounds(1) [of y] assms by linarith
qed

lemma dec_round_mono: "x \<le> y \<Longrightarrow> dec_round x \<le> dec_round y"
proof -
  assume le: "x \<le> y"
  consider "0 < x" | "x \<le> 0" "0 \<le> y" | "y < 0" by linarith
  then show ?thesis
  proof cases
    case 1
    then show ?thesis using le by (rule dec_round_mono_pos)
  next
    case 2
    then show ?thesis
      using dec_round_nonneg [of y] dec_round_nonneg [of "- x"] by (simp add: dec_round_minus)
  next
    case 3
    then show ?thesis
      using le dec_round_mono_pos [of "- y" "- x"] by (simp add: dec_round_minus)
  qed
qed

subsection \<open>The contract of a rounding context\<close>

text \<open>
  What the callers of decimal arithmetic rely on: rounding is monotone and keeps the integers
  that fit the precision. From that alone, a rounded running sum of nonnegative values never
  leaves the window that the integer parts of the values span.
\<close>

locale decimal_context =
  fixes rnd :: "rat \<Rightarrow> rat"
  assumes rnd_mono: "x \<le> y \<Longrightarrow> rnd x \<le> rnd y"
    and rnd_int: "\<bar>n\<bar> < 10 ^ 28 \<Longrightarrow> rnd (of_int n) = of_int n"
begin

lemma rnd_ge_int: "of_int n \<le> x \<Longrightarrow> \<bar>n\<bar> < 10 ^ 28 \<Longrightarrow> of_int n \<le> rnd x"
  using rnd_mono [of "of_int n" x] rnd_int by simp

lemma rnd_le_int: "x \<le> of_int n \<Longrightarrow> \<bar>n\<bar> < 10 ^ 28 \<Longrightarrow> rnd x \<le> of_int n"
  using rnd_mono [of x "of_int n"] rnd_int by simp

lemma rnd_nonneg: "0 \<le> x \<Longrightarrow> 0 \<le> rnd x"
  using rnd_ge_int [of 0 x] by simp

lemma running_sum_ge:
  assumes "of_int F \<le> acc" "0 \<le> F" "\<forall>v\<in>set vs. 0 \<le> v"
    "F + sum_list (map floor vs) < 10 ^ 28"
  shows "of_int (F + sum_list (map floor vs)) \<le> foldl (\<lambda>a b. rnd (a + b)) acc vs"
  using assms
proof (induction vs arbitrary: acc F)
  case (Cons v vs)
  have nn: "0 \<le> \<lfloor>v\<rfloor>" "0 \<le> sum_list (map floor vs)"
    using Cons.prems by (auto intro!: sum_list_nonneg)
  have "of_int (F + \<lfloor>v\<rfloor>) \<le> acc + v" using Cons.prems(1) by simp linarith
  then have "of_int (F + \<lfloor>v\<rfloor>) \<le> rnd (acc + v)"
    using Cons.prems nn by (intro rnd_ge_int) auto
  from Cons.IH [OF this] show ?case using Cons.prems nn by (simp add: add.assoc)
qed simp

lemma running_sum_le:
  assumes "acc \<le> of_int F" "0 \<le> F" "\<forall>v\<in>set vs. 0 \<le> v"
    "F + sum_list (map (\<lambda>v. \<lfloor>v\<rfloor> + 1) vs) < 10 ^ 28"
  shows "foldl (\<lambda>a b. rnd (a + b)) acc vs \<le> of_int (F + sum_list (map (\<lambda>v. \<lfloor>v\<rfloor> + 1) vs))"
  using assms
proof (induction vs arbitrary: acc F)
  case (Cons v vs)
  have nn: "0 \<le> \<lfloor>v\<rfloor>" "0 \<le> sum_list (map (\<lambda>v. \<lfloor>v\<rfloor> + 1) vs)"
    using Cons.prems by (auto intro!: sum_list_nonneg)
  have "acc + v \<le> of_int (F + (\<lfloor>v\<rfloor> + 1))" using Cons.prems(1) by simp linarith
  then have "rnd (acc + v) \<le> of_int (F + (\<lfloor>v\<rfloor> + 1))"
    using Cons.prems nn by (intro rnd_le_int) auto
  from Cons.IH [OF this] show ?case using Cons.prems nn by (simp add: add.assoc)
qed simp

end

interpretation python_decimal: decimal_context dec_round
  by unfold_locales (auto intro: dec_round_mono dec_round_int)

subsection \<open>Arithmetic on values that fit the precision\<close>

lemma dec_sum_Nil [simp]: "dec_sum [] = 0"
  by (simp add: dec_sum_def)

lemma dec_sum_foldl: "dec_sum xs = foldl (\<lambda>a b. dec_round (a + b)) 0 xs"
  by (simp add: dec_sum_def dec_add_def [abs_def])

lemma dec_ops_nonneg [slot_bounds]:
  "0 \<le> a \<Longrightarrow> 0 \<le> b \<Longrightarrow> 0 \<le> dec_add a b"
  "0 \<le> a \<Longrightarrow> 0 \<le> b \<Longrightarrow> 0 \<le> dec_mul a b"
  "0 \<le> a \<Longrightarrow> 0 \<le> b \<Longrightarrow> 0 \<le> dec_div a b"
  "b \<le> a \<Longrightarrow> 0 \<le> dec_sub a b"
  by (auto simp: dec_add_def dec_mul_def dec_div_def dec_sub_def
           intro!: python_decimal.rnd_nonneg)

lemma dec_round_pos: "0 < x \<Longrightarrow> 0 < dec_round x"
proof -
  assume x: "0 < x"
  have "(0::rat) < 10 powi dec_adjusted x" by simp
  then show ?thesis using dec_round_pos_bounds(1) [OF x] by linarith
qed

lemma dec_ops_mono:
  "a \<le> a' \<Longrightarrow> b \<le> b' \<Longrightarrow> dec_add a b \<le> dec_add a' b'"
  "a \<le> a' \<Longrightarrow> 0 \<le> b \<Longrightarrow> dec_mul a b \<le> dec_mul a' b"
  "a \<le> a' \<Longrightarrow> dec_sub a b \<le> dec_sub a' b"
  "a \<le> a' \<Longrightarrow> 0 \<le> b \<Longrightarrow> dec_div a b \<le> dec_div a' b"
  by (auto simp: dec_add_def dec_mul_def dec_sub_def dec_div_def
           intro!: dec_round_mono mult_right_mono divide_right_mono)

lemma dec_mul_mono2:
  "a \<le> a' \<Longrightarrow> b \<le> b' \<Longrightarrow> 0 \<le> b \<Longrightarrow> 0 \<le> a' \<Longrightarrow> dec_mul a b \<le> dec_mul a' b'"
  by (auto simp: dec_mul_def intro!: dec_round_mono mult_mono)

lemma dec_quantize_int_Inr_iff:
  "dec_quantize_int x = Inr n \<longleftrightarrow> n = round_half_even x \<and> \<bar>n\<bar> < 10 ^ 28"
  by (auto simp: dec_quantize_int_def dec_quantize_def dec_int_def Let_def not_le)

lemma dec_quantize_int_window:
  assumes "of_int a \<le> x" "x \<le> of_int b" "0 \<le> a" "b < 10 ^ 28"
  shows "dec_quantize_int x = Inr (round_half_even x)"
    and "a \<le> round_half_even x" and "round_half_even x \<le> b"
proof -
  show lo: "a \<le> round_half_even x" using assms(1) by (rule round_half_even_ge_int)
  show hi: "round_half_even x \<le> b" using assms(2) by (rule round_half_even_le_int)
  show "dec_quantize_int x = Inr (round_half_even x)"
    using lo hi assms(3,4) by (simp add: dec_quantize_int_Inr_iff)
qed

text \<open>A share of a whole stays between 0 and 1.\<close>

lemma dec_ratio_unit:
  assumes "0 \<le> n" "n \<le> m" "0 < m"
  shows "0 \<le> dec_div (of_int n) (of_int m)" "dec_div (of_int n) (of_int m) \<le> 1"
proof -
  show "0 \<le> dec_div (of_int n) (of_int m)" using assms by (intro dec_ops_nonneg) auto
  have "dec_round (of_int n / of_int m) \<le> dec_round 1" using assms by (intro dec_round_mono) simp
  then show "dec_div (of_int n) (of_int m) \<le> 1" using dec_round_int [of 1] by (simp add: dec_div_def)
qed

end
