(* ===== verification/PM_Calendar.thy ===== *)
theory PM_Calendar
  imports PM_Prelude
begin

text \<open>
  Python's \<open>datetime\<close> values as the program uses them. A \<open>date\<close> is its proleptic
  Gregorian ordinal (day 1 is 0001-01-01), an aware \<open>datetime\<close> is its UTC instant in
  microseconds since 1970-01-01, and a naive one is a wall-clock reading without an offset.
  The time-zone database is data outside the repository: a parameter that gives, for the
  name of a zone, the offset it has at a UTC instant. The year range 1 to 9999 is checked
  where a string is read, not on arithmetic.
\<close>

subsection \<open>Dates\<close>

type_synonym date = int

definition is_leap :: "int \<Rightarrow> bool" where
  "is_leap y \<longleftrightarrow> y mod 4 = 0 \<and> (y mod 100 \<noteq> 0 \<or> y mod 400 = 0)"

definition month_lengths :: "bool \<Rightarrow> int list" where
  "month_lengths leap = [31, if leap then 29 else 28, 31, 30, 31, 30, 31, 31, 30, 31, 30, 31]"

text \<open>\<open>calendar.monthrange(year, month)[1]\<close>, for a month from 1 to 12.\<close>

definition monthrange_days :: "int \<Rightarrow> int \<Rightarrow> int" where
  "monthrange_days y m = month_lengths (is_leap y) ! nat (m - 1)"

definition days_before_year :: "int \<Rightarrow> int" where
  "days_before_year y = (y - 1) * 365 + (y - 1) div 4 - (y - 1) div 100 + (y - 1) div 400"

definition days_before_month :: "int \<Rightarrow> int \<Rightarrow> int" where
  "days_before_month y m = sum_list (take (nat (m - 1)) (month_lengths (is_leap y)))"

definition ymd2ord :: "int \<Rightarrow> int \<Rightarrow> int \<Rightarrow> date" where
  "ymd2ord y m d = days_before_year y + days_before_month y m + d"

fun month_search :: "int list \<Rightarrow> int \<Rightarrow> int \<Rightarrow> int \<times> int" where
  "month_search [] m n = (m, n)"
| "month_search (l # ls) m n = (if n < l then (m, n) else month_search ls (m + 1) (n - l))"

definition ord2ymd :: "date \<Rightarrow> int \<times> int \<times> int" where
  "ord2ymd n =
     (let a = (n - 1) div 146097; r = (n - 1) mod 146097;
          b = r div 36524; r2 = r mod 36524;
          c = r2 div 1461; r3 = r2 mod 1461;
          d = r3 div 365; r4 = r3 mod 365;
          y = a * 400 + b * 100 + c * 4 + d + 1
      in if d = 4 \<or> b = 4 then (y - 1, 12, 31)
         else let (m, k) = month_search (month_lengths (is_leap y)) 1 r4 in (y, m, k + 1))"

definition date_year :: "date \<Rightarrow> int" where "date_year n = fst (ord2ymd n)"
definition date_month :: "date \<Rightarrow> int" where "date_month n = fst (snd (ord2ymd n))"
definition date_day :: "date \<Rightarrow> int" where "date_day n = snd (snd (ord2ymd n))"

text \<open>\<open>date.weekday()\<close>: Monday is 0.\<close>

definition weekday :: "date \<Rightarrow> int" where
  "weekday n = (n + 6) mod 7"

definition valid_ymd :: "int \<Rightarrow> int \<Rightarrow> int \<Rightarrow> bool" where
  "valid_ymd y m d \<longleftrightarrow>
     1 \<le> y \<and> y \<le> 9999 \<and> 1 \<le> m \<and> m \<le> 12 \<and> 1 \<le> d \<and> d \<le> monthrange_days y m"

subsection \<open>ISO strings\<close>

definition digit_val :: "char \<Rightarrow> int option" where
  "digit_val c =
     (let k = (of_char c :: nat) in if 48 \<le> k \<and> k \<le> 57 then Some (int k - 48) else None)"

fun digits_val :: "int \<Rightarrow> string \<Rightarrow> int option" where
  "digits_val acc [] = Some acc"
| "digits_val acc (c # cs) =
     (case digit_val c of None \<Rightarrow> None | Some k \<Rightarrow> digits_val (10 * acc + k) cs)"

definition field :: "nat \<Rightarrow> nat \<Rightarrow> string \<Rightarrow> int option" where
  "field i n s = (if length s < i + n then None else digits_val 0 (take n (drop i s)))"

definition iso_week_date :: "int \<Rightarrow> int \<Rightarrow> int \<Rightarrow> date option" where
  "iso_week_date y w d =
     (let first = ymd2ord y 1 1; wd = weekday first;
          monday = first - wd + (if 3 < wd then 7 else 0);
          long = (wd = 3 \<or> wd = 2 \<and> is_leap y);
          n = monday + (w - 1) * 7 + d - 1
      in if 1 \<le> y \<and> 1 \<le> w \<and> (w \<le> 52 \<or> w = 53 \<and> long) \<and> 1 \<le> d \<and> d \<le> 7 \<and> 1 \<le> n
            \<and> n \<le> ymd2ord 9999 12 31
         then Some n else None)"

text \<open>\<open>date.fromisoformat\<close>: \<open>None\<close> stands for its \<open>ValueError\<close>.\<close>

definition date_fromisoformat :: "string \<Rightarrow> date option" where
  "date_fromisoformat s =
     (case field 0 4 s of None \<Rightarrow> None
      | Some y \<Rightarrow>
         let sep = (4 < length s \<and> s ! 4 = CHR ''-''); p = (if sep then 5 else 4) in
         if p < length s \<and> s ! p = CHR ''W'' then
           (case field (p + 1) 2 s of None \<Rightarrow> None
            | Some w \<Rightarrow>
               if length s = p + 3 then iso_week_date y w 1
               else if sep then
                 (if length s = 10 \<and> s ! 8 = CHR ''-''
                  then (case field 9 1 s of None \<Rightarrow> None | Some d \<Rightarrow> iso_week_date y w d)
                  else None)
               else if length s = 8
               then (case field 7 1 s of None \<Rightarrow> None | Some d \<Rightarrow> iso_week_date y w d)
               else None)
         else if length s = (if sep then 10 else 8) \<and> (sep \<longrightarrow> s ! 7 = CHR ''-'') then
           (case field p 2 s of None \<Rightarrow> None
            | Some m \<Rightarrow>
               (case field (if sep then 8 else 6) 2 s of None \<Rightarrow> None
                | Some d \<Rightarrow> if valid_ymd y m d then Some (ymd2ord y m d) else None))
         else None)"

subsection \<open>Instants and time zones\<close>

type_synonym instant = int

datatype pydatetime = Naive int | Aware instant

type_synonym zoneinfo = "string \<Rightarrow> (instant \<Rightarrow> int) option"

abbreviation second_us :: int where "second_us \<equiv> 1000000"
abbreviation minute_us :: int where "minute_us \<equiv> 60000000"
abbreviation day_us :: int where "day_us \<equiv> 86400000000"

text \<open>Reading a wall clock given in microseconds since 1970-01-01T00:00.\<close>

definition wall_date :: "int \<Rightarrow> date" where
  "wall_date w = w div day_us + 719163"

definition wall_minute :: "int \<Rightarrow> int" where
  "wall_minute w = (w mod day_us) div minute_us"

text \<open>\<open>t.astimezone(ZoneInfo(name))\<close>; an unknown name raises a \<open>KeyError\<close>.\<close>

definition astimezone :: "zoneinfo \<Rightarrow> string \<Rightarrow> instant \<Rightarrow> int result" where
  "astimezone tz name t = (case tz name of None \<Rightarrow> Inl KeyError | Some off \<Rightarrow> Inr (t + off t))"

text \<open>\<open>models.aware_utc\<close>: a reading without an offset is taken as UTC.\<close>

fun aware_utc :: "pydatetime \<Rightarrow> instant" where
  "aware_utc (Naive w) = w"
| "aware_utc (Aware t) = t"

subsection \<open>Facts\<close>

lemma wall_minute_bounds [slot_bounds]: "0 \<le> wall_minute w" "wall_minute w < 1440"
proof -
  have "0 \<le> w mod day_us" "w mod day_us < day_us" by auto
  then show "0 \<le> wall_minute w" "wall_minute w < 1440"
    unfolding wall_minute_def by linarith+
qed

lemma weekday_bounds [slot_bounds]: "0 \<le> weekday n" "weekday n < 7"
  by (simp_all add: weekday_def)

lemma sum_take_Cons: "0 < k \<Longrightarrow> sum_list (take k (l # ls)) = l + sum_list (take (k - 1) (ls::int list))"
  by (cases k) auto

lemma month_search_correct:
  assumes "month_search ls m n = (m', k)" "0 \<le> n" "n < sum_list ls"
  shows "m \<le> m' \<and> m' < m + int (length ls) \<and> 0 \<le> k \<and> k < ls ! nat (m' - m)
    \<and> sum_list (take (nat (m' - m)) ls) + k = n"
  using assms
proof (induction ls arbitrary: m n)
  case (Cons l ls)
  show ?case
  proof (cases "n < l")
    case False
    have ih: "m + 1 \<le> m' \<and> m' < m + 1 + int (length ls) \<and> 0 \<le> k \<and> k < ls ! nat (m' - (m + 1))
      \<and> sum_list (take (nat (m' - (m + 1))) ls) + k = n - l"
      using Cons.prems False by (intro Cons.IH) auto
    then have "nat (m' - m) = Suc (nat (m' - (m + 1)))" by linarith
    with ih show ?thesis by auto
  qed (use Cons.prems in auto)
qed simp

lemma sum_month_lengths: "sum_list (month_lengths leap) = (if leap then 366 else 365)"
  by (simp add: month_lengths_def)

lemma mod_zero_window:
  fixes x k q :: int
  assumes "1 \<le> x" "x \<le> k"
  shows "(x + k * q) mod k = 0 \<longleftrightarrow> x = k"
proof (cases "x = k")
  case False
  then have "(x + k * q) mod k = x" using assms by simp
  then show ?thesis using False assms by simp
qed simp

lemma year_parts:
  assumes "0 \<le> b" "b \<le> 3" "0 \<le> c" "c \<le> 24" "0 \<le> d" "d \<le> 3"
  shows "days_before_year (a * 400 + b * 100 + c * 4 + d + 1) = a * 146097 + b * 36524 + c * 1461 + d * 365"
    and "is_leap (a * 400 + b * 100 + c * 4 + d + 1) \<longleftrightarrow> d = 3 \<and> (c \<noteq> 24 \<or> b = 3)"
proof -
  let ?z = "a * 400 + b * 100 + c * 4 + d"
  have "?z div 4 = a * 100 + b * 25 + c" "?z div 100 = a * 4 + b" "?z div 400 = a"
    using assms by linarith+
  then show "days_before_year (a * 400 + b * 100 + c * 4 + d + 1) = a * 146097 + b * 36524 + c * 1461 + d * 365"
    by (simp add: days_before_year_def)
  have m4: "(?z + 1) mod 4 = 0 \<longleftrightarrow> d = 3"
    using mod_zero_window [of "d + 1" 4 "a * 100 + b * 25 + c"] assms
    by (simp add: algebra_simps)
  have m100: "(?z + 1) mod 100 = 0 \<longleftrightarrow> c = 24 \<and> d = 3"
    using mod_zero_window [of "c * 4 + d + 1" 100 "a * 4 + b"] assms
    by (simp add: algebra_simps) linarith
  have m400: "(?z + 1) mod 400 = 0 \<longleftrightarrow> b = 3 \<and> c = 24 \<and> d = 3"
    using mod_zero_window [of "b * 100 + c * 4 + d + 1" 400 a] assms
    by (simp add: algebra_simps) linarith
  show "is_leap (a * 400 + b * 100 + c * 4 + d + 1) \<longleftrightarrow> d = 3 \<and> (c \<noteq> 24 \<or> b = 3)"
    using m4 m100 m400 by (auto simp: is_leap_def)
qed

text \<open>The calendar is sound: every ordinal reads back as a valid date that has it.\<close>

lemma ord2ymd_correct:
  assumes "ord2ymd n = (y, m, dd)"
  shows "1 \<le> m \<and> m \<le> 12 \<and> 1 \<le> dd \<and> dd \<le> monthrange_days y m \<and> ymd2ord y m dd = n"
proof -
  define a where "a = (n - 1) div 146097"
  define r where "r = (n - 1) mod 146097"
  define b where "b = r div 36524"
  define r2 where "r2 = r mod 36524"
  define c where "c = r2 div 1461"
  define r3 where "r3 = r2 mod 1461"
  define d where "d = r3 div 365"
  define r4 where "r4 = r3 mod 365"
  define y0 where "y0 = a * 400 + b * 100 + c * 4 + d + 1"
  note defs = a_def r_def b_def r2_def c_def r3_def d_def r4_def y0_def
  have n: "n - 1 = a * 146097 + r" "0 \<le> r" "r < 146097" by (simp_all add: a_def r_def)
  have rb: "r = b * 36524 + r2" "0 \<le> r2" "r2 < 36524" by (simp_all add: b_def r2_def)
  have rc: "r2 = c * 1461 + r3" "0 \<le> r3" "r3 < 1461" by (simp_all add: c_def r3_def)
  have rd: "r3 = d * 365 + r4" "0 \<le> r4" "r4 < 365" by (simp_all add: d_def r4_def)
  have bounds: "0 \<le> b" "b \<le> 4" "0 \<le> c" "c \<le> 24" "0 \<le> d" "d \<le> 4"
    using n rb rc rd by linarith+
  have eq: "(y, m, dd) = (if d = 4 \<or> b = 4 then (y0 - 1, 12, 31)
      else let (m, k) = month_search (month_lengths (is_leap y0)) 1 r4 in (y0, m, k + 1))"
    unfolding assms [symmetric] ord2ymd_def defs by (simp add: Let_def)
  show ?thesis
  proof (cases "d = 4 \<or> b = 4")
    case True
    define b' where "b' = (if b = 4 then 3 else b)"
    define c' where "c' = (if b = 4 then 24 else c)"
    have z: "b = 4 \<Longrightarrow> r2 = 0 \<and> c = 0 \<and> d = 0 \<and> r4 = 0" using n rb rc rd bounds by linarith
    have z': "d = 4 \<Longrightarrow> r4 = 0 \<and> (c \<noteq> 24 \<or> 3 \<le> b)" using n rb rc rd bounds by linarith
    have y: "y = a * 400 + b' * 100 + c' * 4 + 3 + 1" "m = 12" "dd = 31"
      using eq True z by (auto simp: y0_def b'_def c'_def)
    have bb: "0 \<le> b'" "b' \<le> 3" "0 \<le> c'" "c' \<le> 24"
      using bounds by (auto simp: b'_def c'_def)
    have lp: "is_leap y" using year_parts(2) [OF bb, of 3 a] True z' bounds
      by (auto simp: y b'_def c'_def)
    have "days_before_year y = a * 146097 + b' * 36524 + c' * 1461 + 3 * 365"
      using year_parts(1) [OF bb, of 3 a] by (simp add: y)
    then show ?thesis using lp True n rb rc rd z z'
      by (auto simp: y(2,3) ymd2ord_def days_before_month_def monthrange_days_def month_lengths_def
                     b'_def c'_def numeral_eq_Suc split: if_splits)
  next
    case False
    then have bb: "b \<le> 3" "d \<le> 3" using bounds by linarith+
    obtain k where mk: "month_search (month_lengths (is_leap y0)) 1 r4 = (m, k)"
      and y: "y = y0" "dd = k + 1"
      using eq False by (auto split: prod.splits)
    have "month_search (month_lengths (is_leap y0)) 1 r4 = (m, k) \<Longrightarrow> 0 \<le> r4
      \<Longrightarrow> r4 < sum_list (month_lengths (is_leap y0)) \<Longrightarrow> ?thesis"
      using month_search_correct [of "month_lengths (is_leap y0)" 1 r4 m k]
        year_parts(1) [of b c d a] bounds bb n rb rc rd
      by (auto simp: y y0_def ymd2ord_def days_before_month_def monthrange_days_def month_lengths_def)
    then show ?thesis using mk rd by (simp add: sum_month_lengths)
  qed
qed

lemma date_month_bounds [slot_bounds]: "1 \<le> date_month n" "date_month n \<le> 12"
  using ord2ymd_correct [of n "date_year n" "date_month n" "date_day n"]
  by (simp_all add: date_year_def date_month_def date_day_def)

lemma date_day_bounds [slot_bounds]:
  "1 \<le> date_day n" "date_day n \<le> monthrange_days (date_year n) (date_month n)"
  using ord2ymd_correct [of n "date_year n" "date_month n" "date_day n"]
  by (simp_all add: date_year_def date_month_def date_day_def)

lemma ymd2ord_of_date: "ymd2ord (date_year n) (date_month n) (date_day n) = n"
  using ord2ymd_correct [of n "date_year n" "date_month n" "date_day n"]
  by (simp add: date_year_def date_month_def date_day_def)

subsection \<open>Month arithmetic\<close>

lemma month_lengths_length [simp]: "length (month_lengths leap) = 12"
  by (simp add: month_lengths_def)

lemma monthrange_days_pos: "1 \<le> m \<Longrightarrow> m \<le> 12 \<Longrightarrow> 28 \<le> monthrange_days y m"
proof -
  assume "1 \<le> m" "m \<le> 12"
  then have "monthrange_days y m \<in> set (month_lengths (is_leap y))"
    unfolding monthrange_days_def by (intro nth_mem) simp
  moreover have "\<forall>l\<in>set (month_lengths (is_leap y)). 28 \<le> l" by (auto simp: month_lengths_def)
  ultimately show ?thesis by blast
qed

lemma days_before_month_Suc:
  assumes "1 \<le> m" "m \<le> 12"
  shows "days_before_month y (m + 1) = days_before_month y m + monthrange_days y m"
proof -
  have "nat (m + 1 - 1) = Suc (nat (m - 1))" using assms by auto
  moreover have "nat (m - 1) < length (month_lengths (is_leap y))" using assms by simp
  ultimately show ?thesis
    by (simp add: days_before_month_def monthrange_days_def take_Suc_conv_app_nth)
qed

lemma days_before_month_mono:
  assumes "1 \<le> m" "m < m'" "m' \<le> 13"
  shows "days_before_month y m + monthrange_days y m \<le> days_before_month y m'"
proof -
  have "m + 1 \<le> m'" using assms by simp
  then show ?thesis using assms(3)
  proof (induction m' rule: int_ge_induct)
    case base
    then show ?case using days_before_month_Suc [of m y] assms by simp
  next
    case (step i)
    then show ?case
      using days_before_month_Suc [of i y] monthrange_days_pos [of i y] assms by simp
  qed
qed

lemma div_pred:
  assumes "0 < k"
  shows "y div k = (y - 1) div k + (if y mod k = 0 then 1 else (0::int))"
proof (cases "y mod k = 0")
  case True
  have "(y - 1) div k = y div k - 1"
    by (rule int_div_pos_eq [where r = "k - 1"])
       (use True assms div_mult_mod_eq [of y k] in \<open>simp_all add: algebra_simps\<close>)
  then show ?thesis using True by simp
next
  case False
  have "(y - 1) div k = y div k"
    by (rule int_div_pos_eq [where r = "y mod k - 1"])
       (use False assms div_mult_mod_eq [of y k] pos_mod_bound [OF assms, of y] pos_mod_sign [OF assms, of y]
         in \<open>simp_all add: algebra_simps\<close>)
  then show ?thesis using False by simp
qed

lemma days_before_year_step:
  "days_before_year (y + 1) = days_before_year y + (if is_leap y then 366 else 365)"
proof -
  have m: "y mod 400 = 0 \<Longrightarrow> y mod 100 = 0" "y mod 100 = 0 \<Longrightarrow> y mod 4 = 0"
    by (auto simp: mod_eq_0_iff_dvd intro: dvd_trans [of _ 400] dvd_trans [of _ 100])
  define p4 p100 p400 where "p4 = (y mod 4 = 0)" "p100 = (y mod 100 = 0)" "p400 = (y mod 400 = 0)"
  define q4 q100 q400 where "q4 = (y - 1) div 4" "q100 = (y - 1) div 100" "q400 = (y - 1) div 400"
  note defs = p4_p100_p400_def q4_q100_q400_def
  have "y div 4 = q4 + (if p4 then 1 else 0)" "y div 100 = q100 + (if p100 then 1 else 0)"
    "y div 400 = q400 + (if p400 then 1 else 0)"
    unfolding defs by (rule div_pred, simp)+
  then have "days_before_year (y + 1) = y * 365 + q4 + (if p4 then 1 else 0)
      - (q100 + (if p100 then 1 else 0)) + (q400 + (if p400 then 1 else 0))"
    by (simp add: days_before_year_def)
  moreover have "days_before_year y = (y - 1) * 365 + q4 - q100 + q400"
    by (simp add: days_before_year_def defs)
  moreover have "is_leap y \<longleftrightarrow> p4 \<and> (\<not> p100 \<or> p400)"
    by (simp add: is_leap_def defs)
  ultimately show ?thesis using m by (auto simp flip: defs(1-3))
qed

lemma days_before_year_mono: "y \<le> y' \<Longrightarrow> days_before_year y \<le> days_before_year y'"
proof (induction y' rule: int_ge_induct)
  case (step i)
  then show ?case using days_before_year_step [of i] by (auto split: if_splits)
qed simp

lemma days_before_month_bounds:
  assumes "1 \<le> m" "m \<le> 12"
  shows "0 \<le> days_before_month y m"
    "days_before_month y m + monthrange_days y m \<le> (if is_leap y then 366 else 365)"
proof -
  show "0 \<le> days_before_month y m"
    unfolding days_before_month_def
    by (rule sum_list_nonneg) (auto simp: month_lengths_def dest!: in_set_takeD split: if_splits)
  have "days_before_month y 13 = sum_list (month_lengths (is_leap y))"
    by (simp add: days_before_month_def)
  then show "days_before_month y m + monthrange_days y m \<le> (if is_leap y then 366 else 365)"
    using days_before_month_mono [of m 13 y] assms by (simp add: sum_month_lengths)
qed

definition calendar_ymd :: "int \<Rightarrow> int \<Rightarrow> int \<Rightarrow> bool" where
  "calendar_ymd y m d \<longleftrightarrow> 1 \<le> m \<and> m \<le> 12 \<and> 1 \<le> d \<and> d \<le> monthrange_days y m"

lemma ymd2ord_less:
  assumes "calendar_ymd y m d" "calendar_ymd y' m' d'" "y < y' \<or> y = y' \<and> m < m'"
  shows "ymd2ord y m d < ymd2ord y' m' d'"
proof (cases "y < y'")
  case True
  have "ymd2ord y m d \<le> days_before_year (y + 1)"
    using assms(1) days_before_month_bounds(2) [of m y] days_before_year_step [of y]
    by (auto simp: ymd2ord_def calendar_ymd_def)
  moreover have "days_before_year (y + 1) < ymd2ord y' m' d'"
    using True assms(2) days_before_year_mono [of "y + 1" y'] days_before_month_bounds(1) [of m' y']
    by (auto simp: ymd2ord_def calendar_ymd_def)
  ultimately show ?thesis by linarith
next
  case False
  then show ?thesis
    using assms days_before_month_mono [of m m' y] by (auto simp: ymd2ord_def calendar_ymd_def)
qed

lemma ymd2ord_unique:
  assumes "calendar_ymd y m d" "calendar_ymd y' m' d'" "ymd2ord y m d = ymd2ord y' m' d'"
  shows "y = y' \<and> m = m' \<and> d = d'"
proof -
  have "y = y' \<and> m = m'"
    using ymd2ord_less [OF assms(1,2)] ymd2ord_less [OF assms(2,1)] assms(3)
    by (metis less_irrefl linorder_less_linear)
  then show ?thesis using assms(3) by (simp add: ymd2ord_def)
qed

lemma calendar_ymd_of_date: "calendar_ymd (date_year n) (date_month n) (date_day n)"
  using date_month_bounds date_day_bounds by (simp add: calendar_ymd_def)

lemma date_of_ymd2ord:
  assumes "calendar_ymd y m d"
  shows "date_year (ymd2ord y m d) = y" "date_month (ymd2ord y m d) = m" "date_day (ymd2ord y m d) = d"
  using ymd2ord_unique [OF calendar_ymd_of_date [of "ymd2ord y m d"] assms] ymd2ord_of_date by auto

text \<open>Months counted from year 0: the next day is in the same month or the next one.\<close>

definition month_index :: "date \<Rightarrow> int" where
  "month_index n = date_year n * 12 + date_month n - 1"

lemma month_index_Suc: "month_index (n + 1) = month_index n \<or> month_index (n + 1) = month_index n + 1"
proof -
  let ?y = "date_year n" and ?m = "date_month n" and ?d = "date_day n"
  have c: "calendar_ymd ?y ?m ?d" by (rule calendar_ymd_of_date)
  have n: "n = days_before_year ?y + days_before_month ?y ?m + ?d"
    using ymd2ord_of_date [of n] by (simp add: ymd2ord_def)
  consider "?d < monthrange_days ?y ?m" | "?d = monthrange_days ?y ?m" "?m < 12"
    | "?d = monthrange_days ?y ?m" "?m = 12" using c by (force simp: calendar_ymd_def)
  then show ?thesis
  proof cases
    case 1
    then have "calendar_ymd ?y ?m (?d + 1)" "ymd2ord ?y ?m (?d + 1) = n + 1"
      using c n by (auto simp: calendar_ymd_def ymd2ord_def)
    then show ?thesis using date_of_ymd2ord [of ?y ?m "?d + 1"] by (simp add: month_index_def)
  next
    case 2
    have "days_before_month ?y (?m + 1) = days_before_month ?y ?m + monthrange_days ?y ?m"
      using 2 c by (intro days_before_month_Suc) (auto simp: calendar_ymd_def)
    moreover have "28 \<le> monthrange_days ?y (?m + 1)"
      using 2 c by (intro monthrange_days_pos) (auto simp: calendar_ymd_def)
    ultimately have "calendar_ymd ?y (?m + 1) 1" "ymd2ord ?y (?m + 1) 1 = n + 1"
      using c n 2 by (auto simp: calendar_ymd_def ymd2ord_def)
    then show ?thesis using date_of_ymd2ord [of ?y "?m + 1" 1] by (simp add: month_index_def)
  next
    case 3
    have "calendar_ymd (?y + 1) 1 1" by (simp add: calendar_ymd_def monthrange_days_def month_lengths_def)
    moreover have "ymd2ord (?y + 1) 1 1 = n + 1"
      using n 3 days_before_year_step [of ?y] days_before_month_Suc [of 12 ?y]
        sum_month_lengths [of "is_leap ?y"]
      by (simp add: ymd2ord_def days_before_month_def)
    ultimately show ?thesis using date_of_ymd2ord [of "?y + 1" 1 1] 3 by (simp add: month_index_def)
  qed
qed

lemma month_index_image:
  assumes "a \<le> b"
  shows "month_index a \<le> month_index b \<and> month_index ` {a..b} = {month_index a..month_index b}"
  using assms
proof (induction b rule: int_ge_induct)
  case (step i)
  have "{a..i + 1} = insert (i + 1) {a..i}" using step.hyps by auto
  then have img: "month_index ` {a..i + 1} = insert (month_index (i + 1)) {month_index a..month_index i}"
    using step.IH by simp
  from month_index_Suc [of i] show ?case
  proof
    assume "month_index (i + 1) = month_index i"
    then show ?thesis using img step.IH by auto
  next
    assume "month_index (i + 1) = month_index i + 1"
    then show ?thesis using img step.IH by auto
  qed
qed simp

end
