(* ===== verification/PM_Json.thy ===== *)
theory PM_Json
  imports PM_Decimal PM_Calendar
begin

text \<open>
  The JSON values the program stores and exchanges, as Python objects: what
  \<open>isinstance\<close> and \<open>dict.get\<close> see of them, Python's equality on them (a truth value
  equals the integer it stands for, and dictionaries compare without order), and
  \<open>Decimal(str(value))\<close>. A float is the decimal its shortest printed form denotes,
  which is what the program reads off it. Keys of an object are distinct.
\<close>

datatype json =
    JNull
  | JBool bool
  | JInt int
  | JFloat dec_value
  | JStr string
  | JList "json list"
  | JObj "(string \<times> json) list"

text \<open>\<open>item.get(key)\<close>: a missing key reads as \<open>None\<close>.\<close>

fun json_get :: "string \<Rightarrow> json \<Rightarrow> json" where
  "json_get k (JObj kvs) = (case map_of kvs k of None \<Rightarrow> JNull | Some v \<Rightarrow> v)"
| "json_get k _ = JNull"

text \<open>\<open>item.get(key, default)\<close>.\<close>

definition json_get_default :: "string \<Rightarrow> json \<Rightarrow> json \<Rightarrow> json" where
  "json_get_default k d j =
     (case j of JObj kvs \<Rightarrow> (case map_of kvs k of None \<Rightarrow> d | Some v \<Rightarrow> v) | _ \<Rightarrow> d)"

fun json_is_obj :: "json \<Rightarrow> bool" where
  "json_is_obj (JObj _) = True"
| "json_is_obj _ = False"

fun json_is_str :: "json \<Rightarrow> bool" where
  "json_is_str (JStr _) = True"
| "json_is_str _ = False"

fun json_is_list :: "json \<Rightarrow> bool" where
  "json_is_list (JList _) = True"
| "json_is_list _ = False"

text \<open>\<open>isinstance(x, int) and not isinstance(x, bool)\<close>, with the value.\<close>

fun json_int :: "json \<Rightarrow> int option" where
  "json_int (JInt n) = Some n"
| "json_int _ = None"

text \<open>\<open>isinstance(x, int)\<close>, which a truth value passes as 0 or 1.\<close>

fun json_int_or_bool :: "json \<Rightarrow> int option" where
  "json_int_or_bool (JInt n) = Some n"
| "json_int_or_bool (JBool b) = Some (py_bool_int b)"
| "json_int_or_bool _ = None"

text \<open>Equality of the scalar values a payload may hold.\<close>

fun json_num :: "json \<Rightarrow> rat option" where
  "json_num (JInt n) = Some (of_int n)"
| "json_num (JBool b) = Some (of_int (py_bool_int b))"
| "json_num (JFloat (Finite x)) = Some x"
| "json_num _ = None"

definition json_scalar_eq :: "json \<Rightarrow> json \<Rightarrow> bool" where
  "json_scalar_eq a b =
     (case (json_num a, json_num b) of
        (Some x, Some y) \<Rightarrow> x = y
      | (None, None) \<Rightarrow> (case a of JFloat _ \<Rightarrow> False | _ \<Rightarrow> a = b)
      | _ \<Rightarrow> False)"

text \<open>Equality of dictionaries of scalars.\<close>

definition json_dict_eq :: "(string \<times> json) list \<Rightarrow> (string \<times> json) list \<Rightarrow> bool" where
  "json_dict_eq a b \<longleftrightarrow>
     set (map fst a) = set (map fst b) \<and>
     (\<forall>k\<in>set (map fst a). json_scalar_eq (json_get k (JObj a)) (json_get k (JObj b)))"

subsection \<open>Decimal strings\<close>

definition is_space :: "char \<Rightarrow> bool" where
  "is_space c \<longleftrightarrow> (let k = (of_char c :: nat) in k = 32 \<or> 9 \<le> k \<and> k \<le> 13 \<or> 28 \<le> k \<and> k \<le> 31)"

definition str_strip :: "string \<Rightarrow> string" where
  "str_strip s = rev (dropWhile is_space (rev (dropWhile is_space s)))"

definition char_lower :: "char \<Rightarrow> char" where
  "char_lower c =
     (let k = (of_char c :: nat) in if 65 \<le> k \<and> k \<le> 90 then char_of (k + 32) else c)"

definition str_lower :: "string \<Rightarrow> string" where
  "str_lower s = map char_lower s"

definition is_digit :: "char \<Rightarrow> bool" where
  "is_digit c \<longleftrightarrow> digit_val c \<noteq> None"

definition parse_sign :: "string \<Rightarrow> int \<times> string" where
  "parse_sign s =
     (case s of c # cs \<Rightarrow>
        if c = CHR ''-'' then (- 1, cs) else if c = CHR ''+'' then (1, cs) else (1, s)
      | [] \<Rightarrow> (1, s))"

text \<open>The exponent part, to the end of the string.\<close>

definition parse_exponent :: "string \<Rightarrow> int option" where
  "parse_exponent s =
     (case s of [] \<Rightarrow> Some 0
      | c # cs \<Rightarrow>
         if char_lower c = CHR ''e'' then
           (let (sg, ds) = parse_sign cs in
            if ds = [] then None else map_option (\<lambda>n. sg * n) (digits_val 0 ds))
         else None)"

text \<open>\<open>Decimal(s)\<close>: \<open>None\<close> stands for \<open>InvalidOperation\<close>.\<close>

definition decimal_of_string :: "string \<Rightarrow> dec_value option" where
  "decimal_of_string s0 =
     (let (sg, t) = parse_sign (filter (\<lambda>c. c \<noteq> CHR ''_'') (str_strip s0));
          l = str_lower t;
          ip = takeWhile is_digit t; rest = dropWhile is_digit t;
          dot = (rest \<noteq> [] \<and> hd rest = CHR ''.'');
          fp = (if dot then takeWhile is_digit (tl rest) else []);
          rest' = (if dot then dropWhile is_digit (tl rest) else rest)
      in if l = ''inf'' \<or> l = ''infinity'' then Some NonFinite
         else if take 3 l = ''nan'' \<and> list_all is_digit (drop 3 l) then Some NonFinite
         else if take 4 l = ''snan'' \<and> list_all is_digit (drop 4 l) then Some NonFinite
         else if ip @ fp = [] then None
         else (case (digits_val 0 (ip @ fp), parse_exponent rest') of
                 (Some n, Some e) \<Rightarrow>
                   Some (Finite (of_int (sg * n) * 10 powi (e - int (length fp))))
               | _ \<Rightarrow> None))"

text \<open>\<open>Decimal(str(value))\<close>.\<close>

fun decimal_of_json :: "json \<Rightarrow> dec_value option" where
  "decimal_of_json (JInt n) = Some (Finite (of_int n))"
| "decimal_of_json (JFloat v) = Some v"
| "decimal_of_json (JStr s) = decimal_of_string s"
| "decimal_of_json _ = None"

text \<open>\<open>date.fromisoformat(str(value))\<close>: only digits and dashes can make a date.\<close>

fun nat_digits :: "nat \<Rightarrow> string" where
  "nat_digits n = (if n < 10 then [char_of (48 + n)]
     else nat_digits (n div 10) @ [char_of (48 + n mod 10)])"

declare nat_digits.simps [simp del]

definition str_of_int :: "int \<Rightarrow> string" where
  "str_of_int n = (if n < 0 then CHR ''-'' # nat_digits (nat (- n)) else nat_digits (nat n))"

fun date_of_json :: "json \<Rightarrow> date option" where
  "date_of_json (JStr s) = date_fromisoformat s"
| "date_of_json (JInt n) = date_fromisoformat (str_of_int n)"
| "date_of_json _ = None"

subsection \<open>Facts\<close>

lemma json_scalar_eq_refl: "(\<forall>v. a \<noteq> JFloat v) \<Longrightarrow> json_scalar_eq a a"
  by (cases a) (auto simp: json_scalar_eq_def)

lemma json_scalar_eq_JStr [simp]: "json_scalar_eq j (JStr s) \<longleftrightarrow> j = JStr s"
  by (cases j rule: json_num.cases) (auto simp: json_scalar_eq_def)

lemma json_int_Some [simp]: "json_int j = Some n \<longleftrightarrow> j = JInt n"
  by (cases j) auto

end
