(* ===== verification/Cost_Engine.thy ===== *)
theory Cost_Engine
  imports PM_Json
begin

text \<open>
  The rate data and the period resolution of \<open>backend/app/services/cost_engine.py\<close>: the
  rate version with its seasons, calendars, tiers and dated prices, the readers that rebuild
  them from stored JSON, and \<open>_period_for\<close>, which finds the one price in force at an
  instant or fails closed. A season, day type or treatment is the string the code compares.
\<close>

subsection \<open>Rate data\<close>

record price_period =
  pp_season :: string
  pp_day_type :: string
  pp_name :: string
  pp_start_minute :: int
  pp_end_minute :: int
  pp_price_per_kwh :: decimal
  pp_tier_start_kwh :: decimal
  pp_tier_end_kwh :: "decimal option"
  pp_boundary_inclusive :: bool
  pp_threshold_basis :: "string option"

record dated_price =
  dp_start_utc :: pydatetime
  dp_end_utc :: pydatetime
  dp_name :: string
  dp_price_per_kwh :: decimal

record season_definition =
  sd_name :: string
  sd_start_month :: int
  sd_start_day :: int
  sd_end_month :: int
  sd_end_day :: int

record event_calendar =
  ec_local_dates :: "date set"
  ec_coverage_start :: date
  ec_coverage_end :: date

record fixed_charge =
  fc_kind :: string
  fc_amount :: dec_value
  fc_applies :: string

record rate_version =
  rv_id :: string
  rv_timezone :: string
  rv_effective_start :: pydatetime
  rv_effective_end :: "pydatetime option"
  rv_periods :: "price_period list"
  rv_rate_plan_id :: "string option"
  rv_dated_prices :: "dated_price list"
  rv_season_definitions :: "season_definition list"
  rv_summer_months :: "int list"
  rv_holiday_treatment :: string
  rv_holiday_calendar :: "event_calendar option"
  rv_event_calendar :: "event_calendar option"
  rv_baseline_credit_per_kwh :: decimal
  rv_tier_threshold_kwh_per_day :: "decimal option"
  rv_tier_threshold_season :: "string option"
  rv_tier_threshold_source_kwh :: "decimal option"
  rv_tier1_boundary_inclusive :: bool
  rv_daily_fixed_charge :: decimal
  rv_monthly_fixed_charge :: decimal
  rv_minimum_charge :: decimal
  rv_meter_charge :: decimal
  rv_other_fixed_charge :: decimal
  rv_fixed_charges :: "fixed_charge list"
  rv_cca_adjustment_per_kwh :: decimal
  rv_surcharge_percent :: decimal
  rv_algorithm_version :: string
  rv_holidays :: "date set"

record cost_context =
  cc_cumulative_cycle_kwh_before :: decimal
  cc_baseline_remaining_kwh :: decimal
  cc_billing_cycle_days :: "int option"
  cc_tier_threshold_cycle_kwh :: "decimal option"
  cc_tier_threshold_kwh_per_day :: "decimal option"
  cc_tier_threshold_season :: "string option"
  cc_tier1_boundary_inclusive :: bool
  cc_scope :: string
  cc_holidays :: "date set"
  cc_holiday_calendar :: "event_calendar option"
  cc_event_calendar :: "event_calendar option"

definition default_cost_context :: cost_context where
  "default_cost_context = \<lparr>
     cc_cumulative_cycle_kwh_before = 0, cc_baseline_remaining_kwh = 0,
     cc_billing_cycle_days = None, cc_tier_threshold_cycle_kwh = None,
     cc_tier_threshold_kwh_per_day = None, cc_tier_threshold_season = None,
     cc_tier1_boundary_inclusive = True, cc_scope = ''energy_only'', cc_holidays = {},
     cc_holiday_calendar = None, cc_event_calendar = None\<rparr>"

subsection \<open>Reading stored evidence\<close>

abbreviation rate_error :: "string \<Rightarrow> 'a result" where
  "rate_error msg \<equiv> Inl (RateEvaluationError msg)"

abbreviation season_malformed :: "'a result" where
  "season_malformed \<equiv> rate_error ''stored season definition is malformed''"

definition season_definition_from_item :: "json \<Rightarrow> season_definition result" where
  "season_definition_from_item item =
     (case json_get ''season_name'' item of
        JStr season_name \<Rightarrow>
          (case (json_int (json_get ''start_month'' item), json_int (json_get ''end_month'' item)) of
             (Some start_month, Some end_month) \<Rightarrow>
               if \<not> (1 \<le> start_month \<and> start_month \<le> 12) \<or> \<not> (1 \<le> end_month \<and> end_month \<le> 12)
               then season_malformed
               else
                 (case (json_int (json_get_default ''start_day'' (JInt 1) item),
                        json_int (json_get_default ''end_day''
                          (JInt (monthrange_days 2000 end_month)) item)) of
                    (Some start_day, Some end_day) \<Rightarrow>
                      if \<not> (1 \<le> start_day \<and> start_day \<le> monthrange_days 2000 start_month)
                         \<or> \<not> (1 \<le> end_day \<and> end_day \<le> monthrange_days 2000 end_month)
                      then season_malformed
                      else Inr \<lparr>sd_name = season_name, sd_start_month = start_month,
                                sd_start_day = start_day, sd_end_month = end_month,
                                sd_end_day = end_day\<rparr>
                  | _ \<Rightarrow> season_malformed)
           | _ \<Rightarrow> season_malformed)
      | _ \<Rightarrow> season_malformed)"

definition season_definitions_from_storage :: "json \<Rightarrow> season_definition list result" where
  "season_definitions_from_storage v =
     (case v of JList items \<Rightarrow> mapE season_definition_from_item items | _ \<Rightarrow> Inr [])"

definition charge_kinds :: "string list" where
  "charge_kinds = [''daily_fixed_charge'', ''monthly_fixed_charge'', ''minimum_charge'',
     ''meter_charge'', ''other_fixed_charge'']"

definition applies_values :: "string list" where
  "applies_values = [''per_account_per_day'', ''per_account_per_month'', ''per_account_per_cycle'',
     ''per_meter_per_day'', ''per_meter_per_month'', ''per_meter_per_cycle'']"

definition legacy_charge :: "json \<Rightarrow> (string \<times> string) option" where
  "legacy_charge kind =
     (case kind of JStr s \<Rightarrow>
        if s = ''daily_fixed'' then Some (''daily_fixed_charge'', ''per_account_per_day'')
        else if s = ''monthly_fixed'' then Some (''monthly_fixed_charge'', ''per_account_per_month'')
        else None
      | _ \<Rightarrow> None)"

text \<open>
  Looking a list or an object up in a set of strings raises Python's \<open>TypeError\<close>
  (unhashable type); every other value that is not one of the strings is refused.
\<close>

definition fixed_charge_from_item :: "json \<Rightarrow> fixed_charge result" where
  "fixed_charge_from_item item =
     (if \<not> json_is_obj item then rate_error ''stored fixed charge is malformed''
      else
        let kind0 = json_get_default ''charge'' (json_get ''kind'' item) item;
            applies0 = json_get ''applies'' item;
            (kind, applies) =
              (case legacy_charge kind0 of
                 Some (k, a) \<Rightarrow> if applies0 = JNull then (JStr k, JStr a) else (kind0, applies0)
               | None \<Rightarrow> (kind0, applies0))
        in case kind of
             JStr k \<Rightarrow>
               if k \<notin> set charge_kinds
               then rate_error ''stored fixed-charge applicability is unresolved''
               else if json_is_obj applies \<or> json_is_list applies then Inl TypeError
               else (case applies of
                  JStr a \<Rightarrow>
                    if a \<notin> set applies_values
                    then rate_error ''stored fixed-charge applicability is unresolved''
                    else (case decimal_of_json (json_get ''amount'' item) of
                       Some (Finite amount) \<Rightarrow>
                         if amount < 0 then rate_error ''stored fixed charge is malformed''
                         else Inr \<lparr>fc_kind = k, fc_amount = Finite amount, fc_applies = a\<rparr>
                     | _ \<Rightarrow> rate_error ''stored fixed charge is malformed'')
                | _ \<Rightarrow> rate_error ''stored fixed-charge applicability is unresolved'')
           | _ \<Rightarrow> rate_error ''stored fixed-charge applicability is unresolved'')"

definition fixed_charges_from_storage :: "json \<Rightarrow> fixed_charge list result" where
  "fixed_charges_from_storage v =
     (case v of JList items \<Rightarrow> mapE fixed_charge_from_item items | _ \<Rightarrow> Inr [])"

definition matching_evidence :: "string \<Rightarrow> json list \<Rightarrow> json list" where
  "matching_evidence kind items =
     filter (\<lambda>item. json_is_obj item \<and> json_get ''evidence_type'' item = JStr kind) items"

text \<open>The checks both calendar readers end with.\<close>

definition checked_calendar ::
  "string \<Rightarrow> date list \<Rightarrow> nat \<Rightarrow> date \<Rightarrow> date \<Rightarrow> event_calendar option result" where
  "checked_calendar label dates expected coverage_start coverage_end =
     (if card (set dates) \<noteq> expected
      then rate_error (''stored '' @ label @ '' calendar is malformed or duplicated'')
      else if coverage_end < coverage_start
              \<or> list_ex (\<lambda>d. d < coverage_start \<or> coverage_end < d) dates
      then rate_error (''stored '' @ label @ '' calendar is malformed'')
      else Inr (Some \<lparr>ec_local_dates = set dates, ec_coverage_start = coverage_start,
                      ec_coverage_end = coverage_end\<rparr>))"

fun some_all :: "'a option list \<Rightarrow> 'a list option" where
  "some_all [] = Some []"
| "some_all (None # xs) = None"
| "some_all (Some x # xs) = map_option (Cons x) (some_all xs)"

definition event_calendar_from_evidence :: "json \<Rightarrow> event_calendar option result" where
  "event_calendar_from_evidence v =
     (case v of
        JList items \<Rightarrow>
          (case matching_evidence ''event_calendar'' items of
             [] \<Rightarrow> Inr None
           | [item] \<Rightarrow>
              (case (json_get ''local_dates'' item, json_get ''coverage_start'' item,
                     json_get ''coverage_end'' item) of
                 (JList raws, JStr s, JStr e) \<Rightarrow>
                   if json_get ''status'' item \<noteq> JStr ''resolved''
                   then rate_error ''stored event calendar is unresolved''
                   else (case (some_all (map date_of_json raws), date_fromisoformat s,
                               date_fromisoformat e) of
                      (Some dates, Some cs, Some ce) \<Rightarrow>
                        checked_calendar ''event'' dates (length raws) cs ce
                    | _ \<Rightarrow> rate_error ''stored event calendar is malformed'')
               | _ \<Rightarrow> rate_error ''stored event calendar is unresolved'')
           | _ \<Rightarrow> rate_error ''stored event calendar is ambiguous'')
      | _ \<Rightarrow> Inr None)"

text \<open>A holiday entry without a \<open>local_date\<close> raises \<open>KeyError\<close>, which is caught.\<close>

definition named_holidays :: "json list \<Rightarrow> json list" where
  "named_holidays hs =
     filter (\<lambda>h. json_is_obj h \<and> (case json_get ''name'' h of JStr n \<Rightarrow> n \<noteq> [] | _ \<Rightarrow> False)) hs"

definition holiday_date :: "json \<Rightarrow> date option" where
  "holiday_date h =
     (case h of JObj kvs \<Rightarrow> Option.bind (map_of kvs ''local_date'') date_of_json | _ \<Rightarrow> None)"

definition holiday_calendar_from_evidence :: "json \<Rightarrow> event_calendar option result" where
  "holiday_calendar_from_evidence v =
     (case v of
        JList items \<Rightarrow>
          (case matching_evidence ''holiday_calendar'' items of
             [] \<Rightarrow> Inr None
           | [item] \<Rightarrow>
              (case (json_get ''holidays'' item, json_get ''coverage_start'' item,
                     json_get ''coverage_end'' item) of
                 (JList hs, JStr s, JStr e) \<Rightarrow>
                   if json_get ''status'' item \<noteq> JStr ''resolved''
                   then rate_error ''stored holiday calendar is unresolved''
                   else (case (some_all (map holiday_date (named_holidays hs)),
                               date_fromisoformat s, date_fromisoformat e) of
                      (Some dates, Some cs, Some ce) \<Rightarrow>
                        checked_calendar ''holiday'' dates (length hs) cs ce
                    | _ \<Rightarrow> rate_error ''stored holiday calendar is malformed'')
               | _ \<Rightarrow> rate_error ''stored holiday calendar is unresolved'')
           | _ \<Rightarrow> rate_error ''stored holiday calendar is ambiguous'')
      | _ \<Rightarrow> Inr None)"

subsection \<open>Seasons and day types\<close>

fun ensure_utc :: "pydatetime \<Rightarrow> instant result" where
  "ensure_utc (Naive w) = rate_error ''authoritative timestamps must be timezone-aware''"
| "ensure_utc (Aware t) = Inr t"

definition month_day_in_range :: "int \<Rightarrow> int \<Rightarrow> season_definition \<Rightarrow> bool" where
  "month_day_in_range month day d =
     (let v = month * 100 + day;
          start = sd_start_month d * 100 + sd_start_day d;
          end_v = sd_end_month d * 100 + sd_end_day d
      in if start \<le> end_v then start \<le> v \<and> v \<le> end_v else start \<le> v \<or> v \<le> end_v)"

text \<open>The local time is a wall-clock reading in microseconds.\<close>

definition season_matches :: "season_definition list \<Rightarrow> int \<Rightarrow> string list" where
  "season_matches defs local =
     map sd_name (filter (month_day_in_range (date_month (wall_date local))
                                             (date_day (wall_date local))) defs)"

definition season_for_local :: "rate_version \<Rightarrow> int \<Rightarrow> string result" where
  "season_for_local rate local =
     (if rv_season_definitions rate = [] then
        Inr (if date_month (wall_date local) \<in> set (rv_summer_months rate)
             then ''summer'' else ''winter'')
      else exactly_one (RateEvaluationError ''rate season resolved to several or no definitions'')
             (season_matches (rv_season_definitions rate) local))"

definition season_from_storage :: "json \<Rightarrow> int \<Rightarrow> string result" where
  "season_from_storage v local =
     bindE (season_definitions_from_storage v) (\<lambda>defs.
       if defs = [] then
         Inr (if date_month (wall_date local) \<in> {6, 7, 8, 9} then ''summer'' else ''winter'')
       else exactly_one
              (RateEvaluationError ''stored season definitions do not resolve exactly once'')
              (season_matches defs local))"

definition holiday_treatment_of :: "rate_version \<Rightarrow> string" where
  "holiday_treatment_of rate =
     (let t = rv_holiday_treatment rate in
      if t = ''weekend_schedule'' then ''same_as_weekend''
      else if t = ''explicit_schedule'' then ''explicit_holiday_schedule''
      else t)"

definition detecting_treatments :: "string list" where
  "detecting_treatments = [''same_as_weekend'', ''same_as_weekday'', ''explicit_holiday_schedule'']"

definition day_sensitive :: "rate_version \<Rightarrow> bool" where
  "day_sensitive rate =
     list_ex (\<lambda>p. pp_day_type p \<in> {''weekday'', ''weekend'', ''holiday''}) (rv_periods rate)"

definition event_aware :: "rate_version \<Rightarrow> bool" where
  "event_aware rate =
     list_ex (\<lambda>p. pp_day_type p \<in> {''event_day'', ''non_event_day''}) (rv_periods rate)"

definition validate_rate_evidence :: "rate_version \<Rightarrow> cost_context option \<Rightarrow> unit result" where
  "validate_rate_evidence rate context =
     (let treatment = holiday_treatment_of rate in
      if treatment = ''unresolved'' \<and> day_sensitive rate
      then rate_error ''rate holiday treatment is unresolved''
      else if treatment \<in> set detecting_treatments \<and> day_sensitive rate
              \<and> rv_holiday_calendar rate = None
              \<and> Option.bind context cc_holiday_calendar = None
      then rate_error ''rate holiday calendar is unresolved''
      else if event_aware rate \<and> rv_event_calendar rate = None
              \<and> Option.bind context cc_event_calendar = None
      then rate_error ''rate event calendar is unresolved''
      else Inr ())"

text \<open>\<open>first or second\<close> on optional objects.\<close>

fun option_or :: "'a option \<Rightarrow> 'a option \<Rightarrow> 'a option" where
  "option_or (Some x) _ = Some x"
| "option_or None y = y"

definition base_day_type :: "rate_version \<Rightarrow> int \<Rightarrow> cost_context \<Rightarrow> string result" where
  "base_day_type rate local context =
     bindE (validate_rate_evidence rate (Some context)) (\<lambda>_.
       let local_date = wall_date local;
           ordinary = (if 5 \<le> weekday local_date then ''weekend'' else ''weekday'');
           treatment = holiday_treatment_of rate
       in if treatment = ''unresolved'' then
            (if day_sensitive rate then rate_error ''rate holiday treatment is unresolved''
             else Inr ordinary)
          else if \<not> (treatment \<in> set detecting_treatments \<and> day_sensitive rate) then
            (if treatment \<in> {''not_applicable'', ''no_special_treatment'', ''event_calendar_required''}
             then Inr ordinary
             else if treatment \<notin> set detecting_treatments
             then rate_error ''rate holiday treatment is unresolved''
             else Inr ordinary)
          else
            (case option_or (cc_holiday_calendar context) (rv_holiday_calendar rate) of
               None \<Rightarrow> rate_error ''rate holiday calendar is unresolved''
             | Some calendar \<Rightarrow>
                 if local_date < ec_coverage_start calendar \<or> ec_coverage_end calendar < local_date
                 then rate_error ''rate holiday calendar does not cover the pricing instant''
                 else if local_date \<notin> ec_local_dates calendar then Inr ordinary
                 else if treatment = ''same_as_weekend'' then Inr ''weekend''
                 else if treatment = ''same_as_weekday'' then Inr ''weekday''
                 else if treatment = ''explicit_holiday_schedule'' then Inr ''holiday''
                 else rate_error ''rate holiday treatment is unresolved''))"

definition day_type_priority :: "rate_version \<Rightarrow> int \<Rightarrow> cost_context \<Rightarrow> string list result" where
  "day_type_priority rate local context =
     bindE (base_day_type rate local context) (\<lambda>base.
       if \<not> event_aware rate then Inr [base, ''all'']
       else
         (case option_or (cc_event_calendar context) (rv_event_calendar rate) of
            None \<Rightarrow> rate_error ''rate event calendar is unresolved''
          | Some calendar \<Rightarrow>
              let local_date = wall_date local in
              if local_date < ec_coverage_start calendar \<or> ec_coverage_end calendar < local_date
              then rate_error ''rate event calendar does not cover the pricing instant''
              else Inr [if local_date \<in> ec_local_dates calendar then ''event_day''
                        else ''non_event_day'', base, ''all'']))"

subsection \<open>Tiers\<close>

definition effective_tier_bounds ::
  "rate_version \<Rightarrow> price_period \<Rightarrow> cost_context \<Rightarrow> (decimal \<times> decimal option) result" where
  "effective_tier_bounds rate period context =
     (if pp_threshold_basis period = Some ''account_daily_baseline'' then
        (case (cc_tier_threshold_cycle_kwh context, cc_tier_threshold_season context) of
           (Some threshold, Some season) \<Rightarrow>
             if pp_season period \<notin> {season, ''all''}
             then rate_error ''account tier-threshold evidence is unresolved''
             else Inr (if 0 < pp_tier_start_kwh period then threshold else 0,
                       if pp_tier_end_kwh period \<noteq> None then Some threshold else None)
         | _ \<Rightarrow> rate_error ''account tier-threshold evidence is unresolved'')
      else
        (case (rv_tier_threshold_kwh_per_day rate, rv_tier_threshold_season rate,
               rv_tier_threshold_source_kwh rate, cc_billing_cycle_days context) of
           (Some per_day, Some season, Some source, Some days) \<Rightarrow>
             if pp_season period \<notin> {season, ''all''}
             then Inr (pp_tier_start_kwh period, pp_tier_end_kwh period)
             else
               let threshold = dec_mul per_day (of_int days) in
               Inr (if pp_tier_start_kwh period = source then threshold else pp_tier_start_kwh period,
                    if pp_tier_end_kwh period = Some source then Some threshold
                    else pp_tier_end_kwh period)
         | _ \<Rightarrow> Inr (pp_tier_start_kwh period, pp_tier_end_kwh period)))"

definition tier_boundary_is_inclusive :: "rate_version \<Rightarrow> price_period \<Rightarrow> cost_context \<Rightarrow> bool" where
  "tier_boundary_is_inclusive rate period context \<longleftrightarrow>
     pp_boundary_inclusive period \<and> rv_tier1_boundary_inclusive rate \<and>
     (if pp_threshold_basis period = Some ''account_daily_baseline''
      then cc_tier1_boundary_inclusive context else True)"

subsection \<open>The period in force\<close>

type_synonym tier_candidate = "price_period \<times> decimal \<times> decimal option"

definition dated_price_matches :: "instant \<Rightarrow> dated_price \<Rightarrow> bool result" where
  "dated_price_matches t item =
     bindE (ensure_utc (dp_start_utc item)) (\<lambda>s.
       if s \<le> t then bindE (ensure_utc (dp_end_utc item)) (\<lambda>e. Inr (t < e)) else Inr False)"

definition period_of_dated_price :: "dated_price \<Rightarrow> price_period" where
  "period_of_dated_price d = \<lparr>
     pp_season = ''all'', pp_day_type = ''all'', pp_name = dp_name d, pp_start_minute = 0,
     pp_end_minute = 1440, pp_price_per_kwh = dp_price_per_kwh d, pp_tier_start_kwh = 0,
     pp_tier_end_kwh = None, pp_boundary_inclusive = True, pp_threshold_basis = None\<rparr>"

definition tier_candidate_of ::
  "rate_version \<Rightarrow> cost_context \<Rightarrow> decimal \<Rightarrow> string \<Rightarrow> string list \<Rightarrow> int \<Rightarrow> price_period
     \<Rightarrow> tier_candidate option result" where
  "tier_candidate_of rate context cumulative season day_types minute period =
     (if \<not> (pp_season period \<in> {season, ''all''} \<and> pp_day_type period \<in> set day_types
            \<and> pp_start_minute period \<le> minute \<and> minute < pp_end_minute period)
      then Inr None
      else bindE (effective_tier_bounds rate period context) (\<lambda>(tier_start, tier_end).
        let upper_matches =
              (case tier_end of None \<Rightarrow> True
               | Some e \<Rightarrow> cumulative < e
                   \<or> cumulative = e \<and> tier_boundary_is_inclusive rate period context)
        in Inr (if tier_start \<le> cumulative \<and> upper_matches
                then Some (period, tier_start, tier_end) else None)))"

definition specificity :: "string \<Rightarrow> string list \<Rightarrow> tier_candidate \<Rightarrow> int \<times> int" where
  "specificity season day_types c =
     (py_bool_int (pp_season (fst c) = season),
      int (length day_types) - int (list_index day_types (pp_day_type (fst c))))"

definition most_specific :: "string \<Rightarrow> string list \<Rightarrow> tier_candidate list \<Rightarrow> tier_candidate list" where
  "most_specific season day_types cs =
     (if cs = [] then []
      else let best = Max (set (map (specificity season day_types) cs))
           in filter (\<lambda>c. specificity season day_types c = best) cs)"

definition settle_boundary ::
  "rate_version \<Rightarrow> cost_context \<Rightarrow> decimal \<Rightarrow> bool \<Rightarrow> tier_candidate list \<Rightarrow> tier_candidate list" where
  "settle_boundary rate context cumulative incremental cs =
     (case sort_key (\<lambda>c. fst (snd c)) cs of
        [lower, upper] \<Rightarrow>
          if snd (snd lower) = Some cumulative \<and> cumulative = fst (snd upper)
             \<and> tier_boundary_is_inclusive rate (fst lower) context
          then [if incremental then upper else lower] else cs
      | _ \<Rightarrow> cs)"

definition period_for ::
  "zoneinfo \<Rightarrow> rate_version \<Rightarrow> instant \<Rightarrow> decimal \<Rightarrow> cost_context \<Rightarrow> bool \<Rightarrow> price_period result" where
  "period_for tz rate t cumulative context incremental =
     (if rv_dated_prices rate \<noteq> [] then
        bindE (filterE (dated_price_matches t) (rv_dated_prices rate)) (\<lambda>ms.
        bindE (exactly_one
                 (RateEvaluationError ''dated rate schedule resolved to several or no prices'') ms)
          (\<lambda>d. Inr (period_of_dated_price d)))
      else
        bindE (astimezone tz (rv_timezone rate) t) (\<lambda>local.
        bindE (season_for_local rate local) (\<lambda>season.
        bindE (day_type_priority rate local context) (\<lambda>day_types.
        bindE (collectE (tier_candidate_of rate context cumulative season day_types
                           (wall_minute local)) (rv_periods rate)) (\<lambda>cs.
        bindE (exactly_one
                 (RateEvaluationError ''rate schedule resolved to several or no periods'')
                 (settle_boundary rate context cumulative incremental
                    (most_specific season day_types cs)))
          (\<lambda>c. Inr (fst c)))))))"

definition resolve_price_period ::
  "zoneinfo \<Rightarrow> rate_version \<Rightarrow> pydatetime \<Rightarrow> decimal \<Rightarrow> cost_context option \<Rightarrow> bool
     \<Rightarrow> price_period result" where
  "resolve_price_period tz rate instant_utc cumulative context incremental =
     bindE (ensure_utc instant_utc) (\<lambda>t.
       period_for tz rate t cumulative
         (case context of None \<Rightarrow> default_cost_context | Some c \<Rightarrow> c) incremental)"

subsection \<open>Stored evidence is well formed once read\<close>

definition wf_season :: "season_definition \<Rightarrow> bool" where
  "wf_season d \<longleftrightarrow>
     1 \<le> sd_start_month d \<and> sd_start_month d \<le> 12 \<and> 1 \<le> sd_end_month d \<and> sd_end_month d \<le> 12
     \<and> 1 \<le> sd_start_day d \<and> sd_start_day d \<le> monthrange_days 2000 (sd_start_month d)
     \<and> 1 \<le> sd_end_day d \<and> sd_end_day d \<le> monthrange_days 2000 (sd_end_month d)"

definition wf_calendar :: "event_calendar \<Rightarrow> bool" where
  "wf_calendar c \<longleftrightarrow>
     ec_coverage_start c \<le> ec_coverage_end c \<and>
     (\<forall>d\<in>ec_local_dates c. ec_coverage_start c \<le> d \<and> d \<le> ec_coverage_end c)"

definition wf_charge :: "fixed_charge \<Rightarrow> bool" where
  "wf_charge c \<longleftrightarrow>
     fc_kind c \<in> set charge_kinds \<and> fc_applies c \<in> set applies_values \<and>
     (\<exists>a. fc_amount c = Finite a \<and> 0 \<le> a)"

lemma season_definition_from_item_wf:
  "season_definition_from_item item = Inr d \<Longrightarrow> wf_season d"
  by (auto simp: season_definition_from_item_def wf_season_def
           split: json.splits option.splits if_splits)

lemma fixed_charge_from_item_wf:
  "fixed_charge_from_item item = Inr c \<Longrightarrow> wf_charge c"
  by (auto simp: fixed_charge_from_item_def wf_charge_def Let_def
           split: json.splits option.splits if_splits prod.splits dec_value.splits)

lemma some_all_length: "some_all xs = Some ys \<Longrightarrow> length ys = length xs"
  by (induction xs arbitrary: ys rule: some_all.induct) auto

lemma checked_calendar_wf:
  "checked_calendar label dates n cs ce = Inr (Some c) \<Longrightarrow>
     wf_calendar c \<and> card (ec_local_dates c) = n"
  by (auto simp: checked_calendar_def wf_calendar_def list_ex_iff not_less split: if_splits)

lemma event_calendar_from_evidence_checked:
  assumes "event_calendar_from_evidence v = Inr (Some c)"
  shows "\<exists>dates n cs ce. checked_calendar ''event'' dates n cs ce = Inr (Some c)"
  using assms by (auto simp: event_calendar_from_evidence_def
                  split: json.splits list.splits option.splits if_splits)

lemma holiday_calendar_from_evidence_checked:
  assumes "holiday_calendar_from_evidence v = Inr (Some c)"
  shows "\<exists>dates n cs ce. checked_calendar ''holiday'' dates n cs ce = Inr (Some c)"
  using assms by (auto simp: holiday_calendar_from_evidence_def
                  split: json.splits list.splits option.splits if_splits)

subsection \<open>Period resolution\<close>

lemma season_matches_single:
  assumes "season_matches defs local = [name]"
  shows "\<exists>!d. d \<in> set defs \<and>
    month_day_in_range (date_month (wall_date local)) (date_day (wall_date local)) d"
proof -
  let ?P = "month_day_in_range (date_month (wall_date local)) (date_day (wall_date local))"
  obtain d where d: "filter ?P defs = [d]"
    using assms by (auto simp: season_matches_def)
  have "d' \<in> set defs \<and> ?P d' \<longleftrightarrow> d' = d" for d'
    using arg_cong [OF d, of "\<lambda>xs. d' \<in> set xs"] by auto
  then show ?thesis by auto
qed

lemma tier_candidate_of_SomeD:
  assumes "tier_candidate_of rate context cumulative season day_types minute p
             = Inr (Some (q, lo, hi))"
  shows "q = p \<and> pp_season p \<in> {season, ''all''} \<and> pp_day_type p \<in> set day_types
    \<and> pp_start_minute p \<le> minute \<and> minute < pp_end_minute p
    \<and> effective_tier_bounds rate p context = Inr (lo, hi)
    \<and> lo \<le> cumulative \<and> (\<forall>e. hi = Some e \<longrightarrow> cumulative \<le> e)"
  using assms by (auto simp: tier_candidate_of_def bindE_simps Let_def split: if_splits option.splits)

lemma most_specific_subset: "set (most_specific season day_types cs) \<subseteq> set cs"
  by (auto simp: most_specific_def Let_def)

lemma most_specific_maximal:
  assumes "c \<in> set (most_specific season day_types cs)" "c' \<in> set cs"
  shows "specificity season day_types c' \<le> specificity season day_types c"
  using assms by (auto simp: most_specific_def Let_def split: if_splits)

lemma most_specific_nonempty: "cs \<noteq> [] \<Longrightarrow> most_specific season day_types cs \<noteq> []"
proof -
  assume "cs \<noteq> []"
  then have "Max (set (map (specificity season day_types) cs))
      \<in> set (map (specificity season day_types) cs)"
    by (intro Max_in) auto
  then obtain c where "c \<in> set cs"
    "specificity season day_types c = Max (set (map (specificity season day_types) cs))"
    by (metis (no_types, lifting) image_iff set_map)
  with \<open>cs \<noteq> []\<close> show ?thesis by (auto simp: most_specific_def Let_def filter_empty_conv)
qed

lemma sort_key_pair:
  assumes "sort_key f cs = [x, y]"
  shows "set cs = {x, y}" "length cs = 2" "f x \<le> f y"
proof -
  show "set cs = {x, y}" using arg_cong [OF assms, of set] by simp
  show "length cs = 2" using arg_cong [OF assms, of length] by simp
  have "sorted (map f (sort_key f cs))" by simp
  then show "f x \<le> f y" by (simp add: assms)
qed

lemma settle_boundary_subset:
  "set (settle_boundary rate context cumulative incremental cs) \<subseteq> set cs"
  unfolding settle_boundary_def by (auto split: list.splits dest: sort_key_pair(1))

text \<open>The one way out of an ambiguity: the two tiers that meet at the cumulative usage.\<close>

lemma settle_boundary_single:
  assumes "settle_boundary rate context cumulative incremental cs = [c]"
  shows "cs = [c] \<or> (\<exists>lower upper. set cs = {lower, upper} \<and> length cs = 2
     \<and> fst (snd lower) \<le> fst (snd upper)
     \<and> snd (snd lower) = Some cumulative \<and> fst (snd upper) = cumulative
     \<and> c = (if incremental then upper else lower))"
proof (cases "settle_boundary rate context cumulative incremental cs = cs")
  case False
  then obtain lower upper where s: "sort_key (\<lambda>c. fst (snd c)) cs = [lower, upper]"
    and c: "snd (snd lower) = Some cumulative" "cumulative = fst (snd upper)"
      "settle_boundary rate context cumulative incremental cs = [if incremental then upper else lower]"
    by (auto simp: settle_boundary_def split: list.splits if_splits)
  from sort_key_pair [OF s] c assms have "set cs = {lower, upper} \<and> length cs = 2
     \<and> fst (snd lower) \<le> fst (snd upper)
     \<and> snd (snd lower) = Some cumulative \<and> fst (snd upper) = cumulative
     \<and> c = (if incremental then upper else lower)" by auto
  then show ?thesis by blast
qed (use assms in simp)

lemma period_for_undatedD:
  assumes "rv_dated_prices rate = []"
    and "period_for tz rate t cumulative context incremental = Inr p"
  obtains local season day_types cs c where
    "astimezone tz (rv_timezone rate) t = Inr local"
    "season_for_local rate local = Inr season"
    "day_type_priority rate local context = Inr day_types"
    "collectE (tier_candidate_of rate context cumulative season day_types (wall_minute local))
       (rv_periods rate) = Inr cs"
    "settle_boundary rate context cumulative incremental (most_specific season day_types cs) = [c]"
    "p = fst c"
  using assms by (auto simp: period_for_def bindE_simps)

end
