(* ===== verification/Cost_Pricing.thy ===== *)
theory Cost_Pricing
  imports Cost_Engine
begin

text \<open>
  Interval pricing of \<open>backend/app/services/cost_engine.py\<close>: the instants at which a price
  may change, the integer apportionment of energy and of microdollars, and
  \<open>price_sensor_interval\<close>, whose inner loop splits the energy of a bucket at the tier
  thresholds. The loop is a recursion on the energy that is left, which every segment lowers.
\<close>

subsection \<open>Results\<close>

record raw_slice =
  rs_start :: instant
  rs_end :: instant
  rs_energy_mwh :: int
  rs_period_name :: string
  rs_price_per_kwh :: decimal

record priced_slice = raw_slice +
  sl_cost_microdollars :: int
  sl_credit_microdollars :: int

record cost_result =
  cr_rate_version_id :: string
  cr_algorithm_version :: string
  cr_energy_mwh :: int
  cr_energy_cost_microdollars :: int
  cr_credit_microdollars :: int
  cr_total_microdollars :: int
  cr_slices :: "priced_slice list"

subsection \<open>Boundaries\<close>

function minutes_from :: "instant \<Rightarrow> instant \<Rightarrow> instant list" where
  "minutes_from cursor end_t =
     (if cursor < end_t then cursor # minutes_from (cursor + minute_us) end_t else [])"
  by pat_completeness auto
termination
  by (relation "measure (\<lambda>(c, e). nat (e - c))") auto

declare minutes_from.simps [simp del]

definition minute_boundaries :: "instant \<Rightarrow> instant \<Rightarrow> instant list" where
  "minute_boundaries start end_t =
     (let first = start - start mod minute_us;
          first' = (if first \<le> start then first + minute_us else first)
      in minutes_from first' end_t)"

definition dated_price_points :: "instant \<Rightarrow> instant \<Rightarrow> dated_price \<Rightarrow> instant list result" where
  "dated_price_points start end_t item =
     bindE (ensure_utc (dp_start_utc item)) (\<lambda>s.
     bindE (ensure_utc (dp_end_utc item)) (\<lambda>e.
       Inr ((if start < s \<and> s < end_t then [s] else []) @
            (if start < e \<and> e < end_t then [e] else []))))"

definition pricing_boundaries :: "rate_version \<Rightarrow> instant \<Rightarrow> instant \<Rightarrow> instant list result" where
  "pricing_boundaries rate start end_t =
     bindE (mapE (dated_price_points start end_t) (rv_dated_prices rate)) (\<lambda>ps.
       Inr (sorted_list_of_set
         (set (if rv_dated_prices rate \<noteq> [] then [] else minute_boundaries start end_t)
          \<union> set (concat ps))))"

subsection \<open>Integer apportionment\<close>

fun energy_shares :: "int \<Rightarrow> int \<Rightarrow> int \<Rightarrow> int list \<Rightarrow> int list" where
  "energy_shares total_mwh duration_total remainder [] = []"
| "energy_shares total_mwh duration_total remainder [d] = [remainder]"
| "energy_shares total_mwh duration_total remainder (d # ds) =
     (let v = total_mwh * d div duration_total
      in v # energy_shares total_mwh duration_total (remainder - v) ds)"

definition allocate_integer_energy :: "int \<Rightarrow> int list \<Rightarrow> int list result" where
  "allocate_integer_energy total_mwh durations_us =
     (let duration_total = sum_list durations_us in
      if duration_total \<le> 0 then rate_error ''interval duration must be positive''
      else Inr (energy_shares total_mwh duration_total total_mwh durations_us))"

definition remainder_order :: "decimal list \<Rightarrow> int list \<Rightarrow> nat list" where
  "remainder_order values bases =
     py_sorted_reverse (\<lambda>i. (dec_sub (values ! i) (of_int (bases ! i)), - int i))
       [0..<length values]"

definition add_one_at :: "nat list \<Rightarrow> int list \<Rightarrow> int list" where
  "add_one_at idx bases = fold (\<lambda>i bs. bs[i := bs ! i + 1]) idx bases"

definition allocate_microdollars :: "decimal list \<Rightarrow> int list result" where
  "allocate_microdollars values =
     (if list_ex (\<lambda>v. v < 0) values
      then rate_error ''microdollar allocation values must be non-negative''
      else
        let bases = map (\<lambda>v. \<lfloor>v\<rfloor>) values in
        bindE (dec_quantize_int (dec_sum values)) (\<lambda>target.
          let remaining = target - sum_list bases
          in Inr (add_one_at (py_take remaining (remainder_order values bases)) bases)))"

subsection \<open>Pricing one interval\<close>

record pricing_state =
  ps_cumulative :: decimal
  ps_baseline_remaining :: decimal
  ps_slices :: "raw_slice list"
  ps_raw_costs :: "decimal list"
  ps_raw_credits :: "decimal list"

text \<open>One turn of the inner loop: the energy it consumed, where it stopped, the new state.\<close>

definition segment_capacity :: "decimal option \<Rightarrow> decimal \<Rightarrow> int \<Rightarrow> int result" where
  "segment_capacity tier_end cumulative remaining =
     (case tier_end of None \<Rightarrow> Inr remaining
      | Some e \<Rightarrow>
          let tier_capacity = dec_int (dec_mul (dec_sub e cumulative) 1000000) in
          if tier_capacity \<le> 0
          then rate_error ''tier schedule does not advance at its threshold''
          else Inr (min remaining tier_capacity))"

definition segment_end_of :: "instant \<Rightarrow> instant \<Rightarrow> int \<Rightarrow> int \<Rightarrow> int \<Rightarrow> instant" where
  "segment_end_of left right bucket_mwh remaining segment_mwh =
     (if bucket_mwh \<noteq> 0 \<and> segment_mwh < remaining then
        let consumed_after = bucket_mwh - remaining + segment_mwh;
            duration_us = right - left;
            offset_us = duration_us * consumed_after div bucket_mwh
        in left + min (duration_us - 1) (max 1 offset_us)
      else right)"

definition segment_cost :: "rate_version \<Rightarrow> decimal \<Rightarrow> decimal \<Rightarrow> decimal" where
  "segment_cost rate segment_kwh price =
     (let energy_cost = dec_mul segment_kwh price in
      if rv_surcharge_percent rate \<noteq> 0
      then dec_add energy_cost (dec_div (dec_mul energy_cost (rv_surcharge_percent rate)) 100)
      else energy_cost)"

definition price_segment ::
  "zoneinfo \<Rightarrow> rate_version \<Rightarrow> cost_context \<Rightarrow> instant \<Rightarrow> instant \<Rightarrow> int \<Rightarrow> int \<Rightarrow> instant
     \<Rightarrow> pricing_state \<Rightarrow> (int \<times> instant \<times> pricing_state) result" where
  "price_segment tz rate context left right bucket_mwh remaining segment_start st =
     bindE (period_for tz rate (segment_start + (right - segment_start) div 2)
              (ps_cumulative st) context (0 < remaining)) (\<lambda>period.
     bindE (effective_tier_bounds rate period context) (\<lambda>(tier_start, tier_end).
     bindE (segment_capacity tier_end (ps_cumulative st) remaining) (\<lambda>segment_mwh.
       let segment_end = segment_end_of left right bucket_mwh remaining segment_mwh;
           segment_kwh = dec_div (of_int segment_mwh) 1000000;
           price = dec_add (pp_price_per_kwh period) (rv_cca_adjustment_per_kwh rate);
           energy_cost = segment_cost rate segment_kwh price;
           credited_kwh =
             (if cc_scope context = ''full_account'' \<and> 0 < ps_baseline_remaining st
              then min segment_kwh (ps_baseline_remaining st) else 0);
           baseline =
             (if cc_scope context = ''full_account'' \<and> 0 < ps_baseline_remaining st
              then dec_sub (ps_baseline_remaining st) credited_kwh
              else ps_baseline_remaining st);
           credit = dec_mul credited_kwh (rv_baseline_credit_per_kwh rate)
       in Inr (segment_mwh, segment_end, \<lparr>
            ps_cumulative = dec_add (ps_cumulative st) segment_kwh,
            ps_baseline_remaining = baseline,
            ps_slices = ps_slices st @ [\<lparr>rs_start = segment_start, rs_end = segment_end,
              rs_energy_mwh = segment_mwh, rs_period_name = pp_name period,
              rs_price_per_kwh = price\<rparr>],
            ps_raw_costs = ps_raw_costs st @ [dec_mul energy_cost 1000000],
            ps_raw_credits = ps_raw_credits st @ [dec_mul credit 1000000]\<rparr>))))"

lemma segment_capacity_bounds:
  "segment_capacity tier_end cumulative remaining = Inr m \<Longrightarrow>
     m \<le> remaining \<and> (0 < remaining \<longrightarrow> 0 < m) \<and> (0 \<le> remaining \<longrightarrow> 0 \<le> m)"
  by (auto simp: segment_capacity_def Let_def split: option.splits if_splits)

lemma price_segment_progress:
  "price_segment tz rate context left right bucket remaining seg_start st = Inr (m, seg_end, st')
     \<Longrightarrow> m \<le> remaining \<and> (0 < remaining \<longrightarrow> 0 < m) \<and> (0 \<le> remaining \<longrightarrow> 0 \<le> m)"
  by (auto simp: price_segment_def bindE_simps Let_def dest: segment_capacity_bounds)

function price_bucket ::
  "zoneinfo \<Rightarrow> rate_version \<Rightarrow> cost_context \<Rightarrow> instant \<Rightarrow> instant \<Rightarrow> int \<Rightarrow> int \<Rightarrow> instant
     \<Rightarrow> pricing_state \<Rightarrow> pricing_state result" where
  "price_bucket tz rate context left right bucket_mwh remaining segment_start st =
     (if 0 < remaining \<or> (bucket_mwh = 0 \<and> ps_slices st = []) then
        bindE (price_segment tz rate context left right bucket_mwh remaining segment_start st)
          (\<lambda>(segment_mwh, segment_end, st').
             if bucket_mwh = 0 then Inr st'
             else price_bucket tz rate context left right bucket_mwh (remaining - segment_mwh)
                    segment_end st')
      else Inr st)"
  by pat_completeness auto
termination
  by (relation "measure (\<lambda>(tz, rate, context, left, right, bucket, remaining, seg, st). nat remaining)")
     (auto dest: price_segment_progress)

declare price_bucket.simps [simp del]

definition price_buckets ::
  "zoneinfo \<Rightarrow> rate_version \<Rightarrow> cost_context \<Rightarrow> ((instant \<times> instant) \<times> int) list
     \<Rightarrow> pricing_state \<Rightarrow> pricing_state result" where
  "price_buckets tz rate context buckets st =
     foldE (\<lambda>((left, right), bucket_mwh).
       price_bucket tz rate context left right bucket_mwh bucket_mwh left) buckets st"

definition priced_slice_of :: "raw_slice \<Rightarrow> int \<Rightarrow> int \<Rightarrow> priced_slice" where
  "priced_slice_of r cost credit = \<lparr>rs_start = rs_start r, rs_end = rs_end r,
     rs_energy_mwh = rs_energy_mwh r, rs_period_name = rs_period_name r,
     rs_price_per_kwh = rs_price_per_kwh r,
     sl_cost_microdollars = cost, sl_credit_microdollars = credit\<rparr>"

definition initial_pricing_state :: "cost_context \<Rightarrow> pricing_state" where
  "initial_pricing_state context = \<lparr>
     ps_cumulative = cc_cumulative_cycle_kwh_before context,
     ps_baseline_remaining = cc_baseline_remaining_kwh context,
     ps_slices = [], ps_raw_costs = [], ps_raw_credits = []\<rparr>"

definition check_sensor_interval ::
  "rate_version \<Rightarrow> pydatetime \<Rightarrow> pydatetime \<Rightarrow> int \<Rightarrow> (instant \<times> instant) result" where
  "check_sensor_interval rate start_utc end_utc energy_mwh =
     bindE (ensure_utc start_utc) (\<lambda>start.
     bindE (ensure_utc end_utc) (\<lambda>end_t.
       if end_t \<le> start \<or> energy_mwh < 0 then rate_error ''invalid sensor interval''
       else
         bindE (ensure_utc (rv_effective_start rate)) (\<lambda>eff_start.
         bindE (case rv_effective_end rate of None \<Rightarrow> Inr None
                | Some e \<Rightarrow> bindE (ensure_utc e) (\<lambda>t. Inr (Some t))) (\<lambda>eff_end.
           if start < eff_start \<or> (case eff_end of None \<Rightarrow> False | Some e \<Rightarrow> e < end_t)
           then rate_error ''sensor interval is outside the immutable rate version''
           else Inr (start, end_t)))))"

definition price_sensor_interval ::
  "zoneinfo \<Rightarrow> pydatetime \<Rightarrow> pydatetime \<Rightarrow> int \<Rightarrow> rate_version \<Rightarrow> cost_context option
     \<Rightarrow> cost_result result" where
  "price_sensor_interval tz start_utc end_utc energy_mwh rate context0 =
     (let context = (case context0 of None \<Rightarrow> default_cost_context | Some c \<Rightarrow> c) in
      bindE (check_sensor_interval rate start_utc end_utc energy_mwh) (\<lambda>(start, end_t).
      bindE (pricing_boundaries rate start end_t) (\<lambda>inner.
      let boundaries = start # inner @ [end_t];
          durations_us = map (\<lambda>(l, r). r - l) (pairwise boundaries)
      in bindE (allocate_integer_energy energy_mwh durations_us) (\<lambda>energies.
      bindE (price_buckets tz rate context (zip (pairwise boundaries) energies)
               (initial_pricing_state context)) (\<lambda>st.
      bindE (allocate_microdollars (ps_raw_costs st)) (\<lambda>costs.
      bindE (allocate_microdollars (ps_raw_credits st)) (\<lambda>credits.
        Inr \<lparr>cr_rate_version_id = rv_id rate,
             cr_algorithm_version = rv_algorithm_version rate,
             cr_energy_mwh = energy_mwh,
             cr_energy_cost_microdollars = sum_list costs,
             cr_credit_microdollars = sum_list credits,
             cr_total_microdollars = sum_list costs - sum_list credits,
             cr_slices = map (\<lambda>(r, c, k). priced_slice_of r c k)
               (zip (ps_slices st) (zip costs credits))\<rparr>)))))))"

subsection \<open>Facts about boundaries\<close>

lemma minutes_from_set:
  assumes "minute_us dvd c"
  shows "set (minutes_from c e) = {t. c \<le> t \<and> t < e \<and> minute_us dvd t}"
  using assms
proof (induction c e rule: minutes_from.induct)
  case (1 c e)
  have step: "c \<le> t \<and> minute_us dvd t \<longleftrightarrow> t = c \<or> c + minute_us \<le> t \<and> minute_us dvd t" for t
    using 1(2) by (auto simp: dvd_def) 
  show ?case
  proof (cases "c < e")
    case True
    with 1 have "set (minutes_from (c + minute_us) e) = {t. c + minute_us \<le> t \<and> t < e \<and> minute_us dvd t}"
      by simp
    then show ?thesis using True step by (subst minutes_from.simps) auto
  next
    case False
    then show ?thesis by (subst minutes_from.simps) auto
  qed
qed

lemma minutes_from_sorted:
  "sorted_wrt (<) (minutes_from c e) \<and> (\<forall>t\<in>set (minutes_from c e). c \<le> t)"
proof (induction c e rule: minutes_from.induct)
  case (1 c e)
  then show ?case by (subst (1 2) minutes_from.simps) fastforce
qed

lemma minute_boundaries_set:
  "set (minute_boundaries start end_t) = {t. start < t \<and> t < end_t \<and> minute_us dvd t}"
proof -
  define first where "first = start - start mod minute_us"
  have d: "minute_us dvd first" by (simp add: first_def)
  have le: "first \<le> start" "start < first + minute_us"
    by (auto simp: first_def)
  have "first + minute_us \<le> t \<longleftrightarrow> start < t" if t: "minute_us dvd t" for t
  proof -
    obtain a b where "first = minute_us * a" "t = minute_us * b" using d t by (auto elim!: dvdE)
    then show ?thesis using le by (cases "a < b") linarith+
  qed
  then show ?thesis
    using minutes_from_set [of "first + minute_us" end_t] d le
    by (auto simp: minute_boundaries_def Let_def first_def [symmetric])
qed

lemma pricing_boundaries_sorted:
  assumes "pricing_boundaries rate start end_t = Inr inner"
  shows "sorted_wrt (<) inner" and "\<forall>t\<in>set inner. start < t \<and> t < end_t"
proof -
  obtain ps where ps: "mapE (dated_price_points start end_t) (rv_dated_prices rate) = Inr ps"
    and inner: "inner = sorted_list_of_set
      (set (if rv_dated_prices rate \<noteq> [] then [] else minute_boundaries start end_t)
       \<union> set (concat ps))"
    using assms by (auto simp: pricing_boundaries_def bindE_simps)
  show "sorted_wrt (<) inner" unfolding inner by (rule strict_sorted_list_of_set)
  have "start < t \<and> t < end_t" if "t \<in> set xs" "xs \<in> set ps" for t xs
    using mapE_Inr_setD [OF ps that(2)] that(1)
    by (auto simp: dated_price_points_def bindE_simps split: if_splits)
  then show "\<forall>t\<in>set inner. start < t \<and> t < end_t"
    unfolding inner by (auto simp: minute_boundaries_set split: if_splits)
qed

subsection \<open>Facts about the apportionment of energy\<close>

lemma energy_shares_length [simp]: "length (energy_shares total_mwh D r ds) = length ds"
  by (induction total_mwh D r ds rule: energy_shares.induct) (auto simp: Let_def)

lemma energy_shares_sum: "ds \<noteq> [] \<Longrightarrow> sum_list (energy_shares total_mwh D r ds) = r"
  by (induction total_mwh D r ds rule: energy_shares.induct) (auto simp: Let_def)

lemma energy_shares_at_least:
  assumes "0 < D" "total_mwh * sum_list ds \<le> r * D"
  shows "list_all2 (\<lambda>d v. total_mwh * d div D \<le> v) ds (energy_shares total_mwh D r ds)"
  using assms
proof (induction total_mwh D r ds rule: energy_shares.induct)
  case (2 total_mwh D r d)
  then have "total_mwh * d div D \<le> r * D div D" by (intro zdiv_mono1) auto
  then show ?case using 2 by simp
next
  case (3 total_mwh D r d d' ds)
  define v where "v = total_mwh * d div D"
  have "v * D \<le> total_mwh * d" unfolding v_def using 3(2) by (rule int_div_times_le)
  then have "total_mwh * sum_list (d' # ds) \<le> (r - v) * D"
    using 3(3) by (simp add: algebra_simps)
  from 3(1) [OF _ _ this] show ?case using 3 by (simp add: v_def Let_def)
qed simp

lemma energy_shares_nonneg:
  assumes "0 < D" "0 \<le> total_mwh" "\<forall>d\<in>set ds. 0 \<le> d" "total_mwh * sum_list ds \<le> r * D"
  shows "\<forall>v\<in>set (energy_shares total_mwh D r ds). 0 \<le> v"
proof
  fix v assume "v \<in> set (energy_shares total_mwh D r ds)"
  then obtain i where i: "i < length ds" "v = energy_shares total_mwh D r ds ! i"
    by (auto simp: in_set_conv_nth)
  then have "total_mwh * (ds ! i) div D \<le> v"
    using energy_shares_at_least [OF assms(1,4)] by (auto simp: list_all2_conv_all_nth)
  moreover have "0 \<le> total_mwh * (ds ! i) div D"
    using assms i by (intro pos_imp_zdiv_nonneg_iff [THEN iffD2] mult_nonneg_nonneg) auto
  ultimately show "0 \<le> v" by linarith
qed

subsection \<open>Facts about the apportionment of microdollars\<close>

lemma add_one_at_length [simp]: "length (add_one_at idx bases) = length bases"
  unfolding add_one_at_def by (induction idx arbitrary: bases) auto

lemma add_one_at_nth:
  assumes "distinct idx" "j < length bases"
  shows "add_one_at idx bases ! j = bases ! j + (if j \<in> set idx then 1 else 0)"
  using assms unfolding add_one_at_def
  by (induction idx arbitrary: bases) (auto simp: nth_list_update, metis nth_list_update_neq)

lemma add_one_at_sum:
  assumes "distinct idx" "set idx \<subseteq> {..<length bases}"
  shows "sum_list (add_one_at idx bases) = sum_list bases + int (length idx)"
  using assms unfolding add_one_at_def
proof (induction idx arbitrary: bases)
  case (Cons i idx)
  have "sum_list (bases[i := bases ! i + 1]) = sum_list bases + 1"
    using Cons.prems by (simp add: sum_list_update_int)
  with Cons show ?case by simp
qed simp

lemma remainder_order_props:
  "distinct (remainder_order vs bs)" "set (remainder_order vs bs) = {..<length vs}"
  "length (remainder_order vs bs) = length vs"
  by (auto simp: remainder_order_def)

lemma sum_list_floor_le: "sum_list (map floor vs) \<le> sum_list (map (\<lambda>v. \<lfloor>v\<rfloor> + 1) (vs :: rat list))"
  by (rule sum_list_mono) simp

text \<open>The rounded total lies between the sum of the floors and one more per value.\<close>

lemma dec_sum_window:
  assumes "\<forall>v\<in>set vs. 0 \<le> v" "sum_list (map (\<lambda>v. \<lfloor>v\<rfloor> + 1) vs) < 10 ^ 28"
  shows "of_int (sum_list (map floor vs)) \<le> dec_sum vs"
    and "dec_sum vs \<le> of_int (sum_list (map (\<lambda>v. \<lfloor>v\<rfloor> + 1) vs))"
  using python_decimal.running_sum_ge [of 0 0 vs] python_decimal.running_sum_le [of 0 0 vs]
    sum_list_floor_le [of vs] assms
  by (auto simp: dec_sum_foldl)

lemma allocate_microdollars_length:
  "allocate_microdollars vs = Inr out \<Longrightarrow> length out = length vs"
  by (auto simp: allocate_microdollars_def bindE_simps Let_def split: if_splits)

lemma allocate_microdollars_nonneg_inputs:
  "allocate_microdollars vs = Inr out \<Longrightarrow> \<forall>v\<in>set vs. 0 \<le> v"
  by (auto simp: allocate_microdollars_def list_ex_iff not_less split: if_splits)

lemma allocate_microdollars_each:
  assumes "allocate_microdollars vs = Inr out" "i < length vs"
  shows "out ! i = \<lfloor>vs ! i\<rfloor> \<or> out ! i = \<lfloor>vs ! i\<rfloor> + 1"
  using assms
  by (auto simp: allocate_microdollars_def bindE_simps Let_def add_one_at_nth
        distinct_py_take remainder_order_props split: if_splits)

lemma sorted_py_sorted_reverse: "sorted_wrt (\<lambda>x y. key y \<le> key x) (py_sorted_reverse key xs)"
  by (simp add: py_sorted_reverse_def sorted_wrt_rev) (metis sorted_sort_key sorted_map)

lemma py_take_before:
  assumes "sorted_wrt R xs" "x \<in> set (py_take k xs)" "y \<in> set xs" "y \<notin> set (py_take k xs)"
  shows "R x y"
proof -
  obtain n where n: "py_take k xs = take n xs" unfolding py_take_def by metis
  have "y \<in> set (drop n xs)" using assms(3,4) n by (metis Un_iff append_take_drop_id set_append)
  moreover have "sorted_wrt R (take n xs @ drop n xs)" using assms(1) by simp
  ultimately show ?thesis using assms(2) n by (auto simp del: append_take_drop_id simp: sorted_wrt_append)
qed

lemma allocate_microdollars_largest:
  assumes "allocate_microdollars vs = Inr out" "i < length vs" "j < length vs"
    and "out ! i = \<lfloor>vs ! i\<rfloor> + 1" "out ! j = \<lfloor>vs ! j\<rfloor>"
  shows "dec_sub (vs ! j) (of_int \<lfloor>vs ! j\<rfloor>) \<le> dec_sub (vs ! i) (of_int \<lfloor>vs ! i\<rfloor>)"
proof -
  let ?ord = "remainder_order vs (map floor vs)"
  let ?key = "\<lambda>i. (dec_sub (vs ! i) (of_int (map floor vs ! i)), - int i)"
  obtain k where out: "out = add_one_at (py_take k ?ord) (map floor vs)"
    using assms(1) by (auto simp: allocate_microdollars_def bindE_simps Let_def split: if_splits)
  have "i \<in> set (py_take k ?ord)" "j \<notin> set (py_take k ?ord)"
    using assms(2-5) unfolding out
    by (auto simp: add_one_at_nth distinct_py_take remainder_order_props split: if_splits)
  moreover have "sorted_wrt (\<lambda>x y. ?key y \<le> ?key x) ?ord"
    unfolding remainder_order_def by (rule sorted_py_sorted_reverse)
  ultimately have "?key j \<le> ?key i"
    using py_take_before assms(3) by (metis (no_types, lifting) lessThan_iff remainder_order_props(2))
  then show ?thesis using assms(2,3) by auto
qed

lemma allocate_microdollars_total:
  assumes nn: "\<forall>v\<in>set vs. 0 \<le> v" and fit: "sum_list (map (\<lambda>v. \<lfloor>v\<rfloor> + 1) vs) < 10 ^ 28"
  shows "\<exists>out. allocate_microdollars vs = Inr out \<and> sum_list out = round_half_even (dec_sum vs)"
proof -
  let ?bases = "map floor vs"
  let ?target = "round_half_even (dec_sum vs)"
  let ?idx = "py_take (?target - sum_list ?bases) (remainder_order vs ?bases)"
  have b: "0 \<le> sum_list ?bases" using nn by (auto intro!: sum_list_nonneg)
  note w = dec_quantize_int_window [OF dec_sum_window [OF nn fit] b fit]
  have "sum_list (map (\<lambda>v. \<lfloor>v\<rfloor> + 1) vs) = sum_list ?bases + int (length vs)"
    by (induction vs) auto
  then have len: "length ?idx = nat (?target - sum_list ?bases)"
    using w by (intro length_py_take) (auto simp: remainder_order_props)
  have "sum_list (add_one_at ?idx ?bases) = sum_list ?bases + int (length ?idx)"
    using set_py_take_subset [of _ "remainder_order vs ?bases"]
    by (intro add_one_at_sum) (auto simp: distinct_py_take remainder_order_props)
  then have "sum_list (add_one_at ?idx ?bases) = ?target" using len w by simp
  moreover have "\<not> list_ex (\<lambda>v. v < 0) vs" using nn by (auto simp: list_ex_iff)
  ultimately show ?thesis using w by (simp add: allocate_microdollars_def Let_def)
qed

subsection \<open>Facts about the pricing loops\<close>

definition slices_energy :: "'a raw_slice_scheme list \<Rightarrow> int" where
  "slices_energy ss = sum_list (map rs_energy_mwh ss)"

definition ps_aligned :: "pricing_state \<Rightarrow> bool" where
  "ps_aligned st \<longleftrightarrow>
     length (ps_raw_costs st) = length (ps_slices st) \<and>
     length (ps_raw_credits st) = length (ps_slices st)"

text \<open>The slices follow one another in time between two instants.\<close>

fun slices_between :: "instant \<Rightarrow> 'a raw_slice_scheme list \<Rightarrow> instant \<Rightarrow> bool" where
  "slices_between lo [] hi = (lo \<le> hi)"
| "slices_between lo (s # ss) hi =
     (lo \<le> rs_start s \<and> rs_start s \<le> rs_end s \<and> slices_between (rs_end s) ss hi)"

lemma slices_between_snoc:
  "slices_between lo (ss @ [s]) hi \<longleftrightarrow>
     slices_between lo ss (rs_start s) \<and> rs_start s \<le> rs_end s \<and> rs_end s \<le> hi"
  by (induction ss arbitrary: lo) auto

lemma slices_between_mono: "slices_between lo ss hi \<Longrightarrow> hi \<le> hi' \<Longrightarrow> slices_between lo ss hi'"
  by (induction ss arbitrary: lo) auto

text \<open>A slice is priced by the period in force at an instant of its bucket.\<close>

definition slice_priced_in ::
  "zoneinfo \<Rightarrow> rate_version \<Rightarrow> cost_context \<Rightarrow> instant \<Rightarrow> instant \<Rightarrow> 'a raw_slice_scheme \<Rightarrow> bool" where
  "slice_priced_in tz rate context left right s \<longleftrightarrow>
     left \<le> rs_start s \<and> rs_end s \<le> right \<and>
     (\<exists>t cumulative incremental p. rs_start s \<le> t \<and> t < right \<and>
        period_for tz rate t cumulative context incremental = Inr p \<and>
        rs_period_name s = pp_name p \<and>
        rs_price_per_kwh s = dec_add (pp_price_per_kwh p) (rv_cca_adjustment_per_kwh rate))"

lemma price_segment_effect:
  assumes "price_segment tz rate context left right bucket remaining seg st = Inr (m, e, st')"
    and "seg < right" "left \<le> seg" "e \<le> right"
  shows "\<exists>s. ps_slices st' = ps_slices st @ [s] \<and> rs_start s = seg \<and> rs_end s = e
    \<and> rs_energy_mwh s = m \<and> slice_priced_in tz rate context left right s"
proof -
  define t where "t = seg + (right - seg) div 2"
  have t: "seg \<le> t" "t < right" using assms(2) by (auto simp: t_def)
  from assms(1) obtain p where p: "period_for tz rate t (ps_cumulative st) context (0 < remaining) = Inr p"
    and s: "ps_slices st' = ps_slices st @ [\<lparr>rs_start = seg, rs_end = e, rs_energy_mwh = m,
      rs_period_name = pp_name p,
      rs_price_per_kwh = dec_add (pp_price_per_kwh p) (rv_cca_adjustment_per_kwh rate)\<rparr>]"
    by (auto simp: price_segment_def bindE_simps Let_def t_def)
  show ?thesis using assms(3,4) t p unfolding s slice_priced_in_def by auto
qed

lemma price_segment_end:
  "price_segment tz rate context left right bucket remaining seg st = Inr (m, e, st')
     \<Longrightarrow> e = segment_end_of left right bucket remaining m"
  by (auto simp: price_segment_def bindE_simps Let_def)

lemma price_segment_aligned:
  "price_segment tz rate context left right bucket remaining seg st = Inr (m, e, st')
     \<Longrightarrow> ps_aligned st \<Longrightarrow> ps_aligned st'"
  by (auto simp: price_segment_def bindE_simps Let_def ps_aligned_def)

text \<open>The offset at which a tier split lands, which grows with the energy consumed.\<close>

definition split_offset :: "instant \<Rightarrow> instant \<Rightarrow> int \<Rightarrow> int \<Rightarrow> int" where
  "split_offset left right bucket consumed =
     min (right - left - 1) (max 1 ((right - left) * consumed div bucket))"

lemma split_offset_mono:
  assumes "left < right" "0 < bucket" "x \<le> y"
  shows "split_offset left right bucket x \<le> split_offset left right bucket y"
proof -
  have "(right - left) * x div bucket \<le> (right - left) * y div bucket"
    using assms by (intro zdiv_mono1 mult_left_mono) auto
  then show ?thesis by (auto simp: split_offset_def)
qed

lemma split_offset_bounds:
  "left < right \<Longrightarrow> 0 \<le> split_offset left right bucket x \<and> split_offset left right bucket x < right - left"
  by (auto simp: split_offset_def)

lemma segment_end_of_split:
  "segment_end_of left right bucket remaining m =
     (if bucket \<noteq> 0 \<and> m < remaining
      then left + split_offset left right bucket (bucket - (remaining - m)) else right)"
  by (simp add: segment_end_of_def split_offset_def Let_def algebra_simps)

definition segment_at :: "instant \<Rightarrow> instant \<Rightarrow> int \<Rightarrow> int \<Rightarrow> instant \<Rightarrow> bool" where
  "segment_at left right bucket remaining seg \<longleftrightarrow>
     (if remaining = 0 \<and> bucket \<noteq> 0 then seg = right
      else seg = left \<or> bucket \<noteq> 0 \<and> seg = left + split_offset left right bucket (bucket - remaining))"

lemma segment_at_next:
  assumes "left < right" "0 \<le> remaining" "remaining \<le> bucket" "segment_at left right bucket remaining seg"
    and "remaining = 0 \<longrightarrow> bucket = 0" "m \<le> remaining" "0 < remaining \<longrightarrow> 0 < m"
  defines "e \<equiv> segment_end_of left right bucket remaining m"
  shows "left \<le> seg" "seg < right" "seg \<le> e" "e \<le> right"
    "bucket \<noteq> 0 \<Longrightarrow> segment_at left right bucket (remaining - m) e"
proof -
  have seg: "seg = left \<or> bucket \<noteq> 0 \<and> seg = left + split_offset left right bucket (bucket - remaining)"
    using assms(4,5) by (auto simp: segment_at_def split: if_splits)
  show "left \<le> seg" "seg < right"
    using seg assms(1) split_offset_bounds [OF assms(1), of bucket "bucket - remaining"] by auto
  have "split_offset left right bucket (bucket - remaining)
      \<le> split_offset left right bucket (bucket - (remaining - m))" if "bucket \<noteq> 0"
    using assms that by (intro split_offset_mono) auto
  then show "seg \<le> e" "e \<le> right"
    using seg \<open>seg < right\<close>
      split_offset_bounds [OF assms(1), of bucket "bucket - (remaining - m)"]
    unfolding e_def segment_end_of_split by auto
  show "segment_at left right bucket (remaining - m) e" if "bucket \<noteq> 0"
    using that assms(6) unfolding e_def segment_end_of_split segment_at_def by auto
qed

lemma price_bucket_correct:
  assumes "price_bucket tz rate ctx left right bucket remaining seg st = Inr st'"
    and "left < right" "0 \<le> remaining" "remaining \<le> bucket"
    and "segment_at left right bucket remaining seg"
    and "slices_between lo (ps_slices st) seg" "ps_aligned st"
  shows "slices_between lo (ps_slices st') right \<and> ps_aligned st'
    \<and> (\<exists>new. ps_slices st' = ps_slices st @ new \<and> slices_energy new = remaining
         \<and> (\<forall>s\<in>set new. slice_priced_in tz rate ctx left right s))"
  using assms
proof (induction tz rate ctx left right bucket remaining seg st rule: price_bucket.induct)
  case (1 tz rate ctx left right bucket remaining seg st)
  show ?case
  proof (cases "0 < remaining \<or> (bucket = 0 \<and> ps_slices st = [])")
    case False
    then have st: "st' = st" "remaining = 0" using "1.prems"(1,3) by (auto simp: price_bucket.simps)
    have "seg \<le> right" using "1.prems" False st
      by (auto simp: segment_at_def split: if_splits)
    then show ?thesis using st "1.prems" slices_between_mono by (auto simp: slices_energy_def)
  next
    case True
    obtain m e st1 where seg: "price_segment tz rate ctx left right bucket remaining seg st = Inr (m, e, st1)"
      using "1.prems"(1) True by (auto simp: price_bucket.simps [of tz] bindE_simps)
    note m = price_segment_progress [OF seg]
    have guard: "remaining = 0 \<longrightarrow> bucket = 0" using True by auto
    note nxt = segment_at_next [OF "1.prems"(2-5) guard, of m]
    have e: "e = segment_end_of left right bucket remaining m" by (rule price_segment_end [OF seg])
    obtain s where s: "ps_slices st1 = ps_slices st @ [s]" "rs_start s = seg" "rs_end s = e"
      "rs_energy_mwh s = m" "slice_priced_in tz rate ctx left right s"
      using price_segment_effect [OF seg] nxt m e by auto
    have st1: "slices_between lo (ps_slices st1) e" "ps_aligned st1"
      using s nxt m e "1.prems"(6,7) price_segment_aligned [OF seg] by (auto simp: slices_between_snoc)
    show ?thesis
    proof (cases "bucket = 0")
      case True
      then have "st' = st1" "e = right" "m = remaining"
        using "1.prems"(1,3,4) seg m e \<open>0 < remaining \<or> _\<close>
        by (auto simp: price_bucket.simps [of tz] segment_end_of_def)
      then show ?thesis using st1 s by (auto simp: slices_energy_def)
    next
      case False
      have rest: "price_bucket tz rate ctx left right bucket (remaining - m) e st1 = Inr st'"
        using "1.prems"(1) True seg False by (simp add: price_bucket.simps [of tz])
      from "1.IH" [OF True seg refl refl False rest] st1 nxt m e False "1.prems"(2-4)
      have "slices_between lo (ps_slices st') right \<and> ps_aligned st' \<and>
        (\<exists>new. ps_slices st' = ps_slices st1 @ new \<and> slices_energy new = remaining - m
         \<and> (\<forall>s\<in>set new. slice_priced_in tz rate ctx left right s))"
        by auto
      then show ?thesis using s by (auto simp: slices_energy_def)
    qed
  qed
qed

lemma price_buckets_correct:
  assumes "price_buckets tz rate context (zip (pairwise (b0 # bs)) es) st = Inr st'"
    and "sorted_wrt (<) (b0 # bs)" "length es = length bs" "\<forall>v\<in>set es. 0 \<le> v"
    and "slices_between lo (ps_slices st) b0" "ps_aligned st"
  shows "slices_between lo (ps_slices st') (last (b0 # bs)) \<and> ps_aligned st'
    \<and> (\<exists>new. ps_slices st' = ps_slices st @ new \<and> slices_energy new = sum_list es
         \<and> (\<forall>s\<in>set new. \<exists>(l, r)\<in>set (pairwise (b0 # bs)). slice_priced_in tz rate context l r s))"
  using assms
proof (induction bs arbitrary: b0 es st)
  case Nil
  then show ?case by (auto simp: price_buckets_def slices_energy_def)
next
  case (Cons b1 bs)
  then obtain v vs where es: "es = v # vs" by (cases es) auto
  obtain st1 where st1: "price_bucket tz rate context b0 b1 v v b0 st = Inr st1"
    "price_buckets tz rate context (zip (pairwise (b1 # bs)) vs) st1 = Inr st'"
    using Cons.prems(1) by (auto simp: es price_buckets_def bindE_simps)
  have at: "segment_at b0 b1 v v b0" by (auto simp: segment_at_def) 
  have "slices_between lo (ps_slices st1) b1 \<and> ps_aligned st1
    \<and> (\<exists>new. ps_slices st1 = ps_slices st @ new \<and> slices_energy new = v
         \<and> (\<forall>s\<in>set new. slice_priced_in tz rate context b0 b1 s))"
    using Cons.prems at by (intro price_bucket_correct [OF st1(1)]) (auto simp: es)
  moreover from this Cons.prems have "slices_between lo (ps_slices st') (last (b1 # bs)) \<and> ps_aligned st'
    \<and> (\<exists>new. ps_slices st' = ps_slices st1 @ new \<and> slices_energy new = sum_list vs
         \<and> (\<forall>s\<in>set new. \<exists>(l, r)\<in>set (pairwise (b1 # bs)). slice_priced_in tz rate context l r s))"
    by (intro Cons.IH [OF st1(2)]) (auto simp: es)
  ultimately show ?case by (fastforce simp: es slices_energy_def)
qed

subsection \<open>Facts about a priced interval\<close>

lemma slices_between_truncate:
  "slices_between lo (map raw_slice.truncate ss) hi \<longleftrightarrow> slices_between lo ss hi"
  by (induction ss arbitrary: lo) (auto simp: raw_slice.defs)

lemma priced_slice_of_truncate: "raw_slice.truncate (priced_slice_of r c k) = r"
  by (cases r) (simp add: priced_slice_of_def raw_slice.defs)

lemma priced_slice_of_fields:
  "sl_cost_microdollars (priced_slice_of r c k) = c"
  "sl_credit_microdollars (priced_slice_of r c k) = k"
  "rs_energy_mwh (priced_slice_of r c k) = rs_energy_mwh r"
  by (simp_all add: priced_slice_of_def)

text \<open>The parts of a successful pricing.\<close>

definition pricing_run ::
  "zoneinfo \<Rightarrow> rate_version \<Rightarrow> cost_context \<Rightarrow> instant \<Rightarrow> instant \<Rightarrow> instant list \<Rightarrow> int
     \<Rightarrow> pricing_state \<Rightarrow> bool" where
  "pricing_run tz rate context start end_t inner energy_mwh st \<longleftrightarrow>
     start < end_t \<and> 0 \<le> energy_mwh \<and> pricing_boundaries rate start end_t = Inr inner \<and>
     (\<exists>energies. allocate_integer_energy energy_mwh
         (map (\<lambda>(l, r). r - l) (pairwise (start # inner @ [end_t]))) = Inr energies \<and>
       price_buckets tz rate context (zip (pairwise (start # inner @ [end_t])) energies)
         (initial_pricing_state context) = Inr st)"

lemma check_sensor_interval_Inr:
  assumes "check_sensor_interval rate start_utc end_utc energy_mwh = Inr (start, end_t)"
  shows "start_utc = Aware start" "end_utc = Aware end_t" "start < end_t" "0 \<le> energy_mwh"
    "\<exists>s. rv_effective_start rate = Aware s \<and> s \<le> start"
    "\<And>e. rv_effective_end rate = Some e \<Longrightarrow> \<exists>t. e = Aware t \<and> end_t \<le> t"
  using assms
  by (auto simp: check_sensor_interval_def bindE_simps split: if_splits option.splits
           elim!: ensure_utc.elims)

lemma price_sensor_interval_Inr:
  assumes "price_sensor_interval tz start_utc end_utc energy_mwh rate context0 = Inr r"
  obtains start end_t inner st costs credits where
    "check_sensor_interval rate start_utc end_utc energy_mwh = Inr (start, end_t)"
    "pricing_run tz rate (case context0 of None \<Rightarrow> default_cost_context | Some c \<Rightarrow> c)
       start end_t inner energy_mwh st"
    "allocate_microdollars (ps_raw_costs st) = Inr costs"
    "allocate_microdollars (ps_raw_credits st) = Inr credits"
    "cr_energy_mwh r = energy_mwh" "cr_energy_cost_microdollars r = sum_list costs"
    "cr_credit_microdollars r = sum_list credits"
    "cr_total_microdollars r = sum_list costs - sum_list credits"
    "cr_slices r = map (\<lambda>(r, c, k). priced_slice_of r c k) (zip (ps_slices st) (zip costs credits))"
proof -
  from assms obtain start end_t inner st costs credits energies where
    parts: "check_sensor_interval rate start_utc end_utc energy_mwh = Inr (start, end_t)"
    "pricing_boundaries rate start end_t = Inr inner"
    "allocate_integer_energy energy_mwh
         (map (\<lambda>(l, r). r - l) (pairwise (start # inner @ [end_t]))) = Inr energies"
    "price_buckets tz rate (case context0 of None \<Rightarrow> default_cost_context | Some c \<Rightarrow> c)
        (zip (pairwise (start # inner @ [end_t])) energies)
         (initial_pricing_state (case context0 of None \<Rightarrow> default_cost_context | Some c \<Rightarrow> c)) = Inr st"
    "allocate_microdollars (ps_raw_costs st) = Inr costs"
    "allocate_microdollars (ps_raw_credits st) = Inr credits"
    and r: "r = \<lparr>cr_rate_version_id = rv_id rate,
             cr_algorithm_version = rv_algorithm_version rate,
             cr_energy_mwh = energy_mwh,
             cr_energy_cost_microdollars = sum_list costs,
             cr_credit_microdollars = sum_list credits,
             cr_total_microdollars = sum_list costs - sum_list credits,
             cr_slices = map (\<lambda>(r, c, k). priced_slice_of r c k)
               (zip (ps_slices st) (zip costs credits))\<rparr>"
    unfolding price_sensor_interval_def Let_def by (auto simp: bindE_simps simp del: pairwise.simps)
  show thesis
    by (rule that [OF parts(1) _ parts(5,6)])
       (use parts check_sensor_interval_Inr [OF parts(1)] r in \<open>auto simp: pricing_run_def\<close>)
qed

lemma boundaries_sorted:
  assumes "pricing_boundaries rate start end_t = Inr inner" "start < end_t"
  shows "sorted_wrt (<) (start # inner @ [end_t])"
  using pricing_boundaries_sorted [OF assms(1)] assms(2) by (auto simp: sorted_wrt_append)

lemma boundary_durations:
  assumes "sorted_wrt (<) bs" "(l, r) \<in> set (pairwise bs)"
  shows "0 < r - (l::int)"
  using pairwise_sorted_wrt_less [OF assms] by simp

lemma pricing_run_correct:
  assumes "pricing_run tz rate context start end_t inner energy_mwh st"
  shows "slices_between start (ps_slices st) end_t" "ps_aligned st"
    "slices_energy (ps_slices st) = energy_mwh"
    "\<forall>s\<in>set (ps_slices st). \<exists>(l, r)\<in>set (pairwise (start # inner @ [end_t])).
       slice_priced_in tz rate context l r s"
proof -
  let ?bs = "inner @ [end_t]"
  let ?ds = "map (\<lambda>(l, r). r - l) (pairwise (start # ?bs))"
  obtain es where run: "start < end_t" "0 \<le> energy_mwh" "pricing_boundaries rate start end_t = Inr inner"
    and alloc: "allocate_integer_energy energy_mwh ?ds = Inr es"
    and bk: "price_buckets tz rate context (zip (pairwise (start # ?bs)) es)
      (initial_pricing_state context) = Inr st"
    using assms by (auto simp: pricing_run_def)
  have srt: "sorted_wrt (<) (start # ?bs)" by (rule boundaries_sorted [OF run(3,1)])
  have len: "length ?ds = length ?bs" by (simp add: length_pairwise)
  have D: "0 < sum_list ?ds" and es: "es = energy_shares energy_mwh (sum_list ?ds) energy_mwh ?ds"
    using alloc by (auto simp: allocate_integer_energy_def Let_def split: if_splits)
  have "\<forall>d\<in>set ?ds. 0 \<le> d" using boundary_durations [OF srt] by fastforce
  then have nn: "\<forall>v\<in>set es. 0 \<le> v"
    unfolding es by (intro energy_shares_nonneg D run(2)) simp_all
  have sm: "sum_list es = energy_mwh"
    unfolding es using len by (intro energy_shares_sum) (auto simp del: length_map)
  have init: "slices_between start (ps_slices (initial_pricing_state context)) start"
    "ps_aligned (initial_pricing_state context)"
    by (simp_all add: initial_pricing_state_def ps_aligned_def)
  have "length es = length ?bs" unfolding es using len by simp
  from price_buckets_correct [OF bk srt this nn init] sm
  show "slices_between start (ps_slices st) end_t" "ps_aligned st"
    "slices_energy (ps_slices st) = energy_mwh"
    "\<forall>s\<in>set (ps_slices st). \<exists>(l, r)\<in>set (pairwise (start # inner @ [end_t])).
       slice_priced_in tz rate context l r s"
    by (auto simp: initial_pricing_state_def)
qed

text \<open>The slices of the result are the raw slices beside the two allocations.\<close>

lemma priced_slices_columns:
  assumes "length costs = length rs" "length credits = length rs"
  defines "ss \<equiv> map (\<lambda>(r, c, k). priced_slice_of r c k) (zip rs (zip costs credits))"
  shows "map raw_slice.truncate ss = rs" "map sl_cost_microdollars ss = costs"
    "map sl_credit_microdollars ss = credits" "map rs_energy_mwh ss = map rs_energy_mwh rs"
  using assms
  by (auto simp: ss_def priced_slice_of_truncate priced_slice_of_fields intro!: nth_equalityI)

lemma priced_interval_columns:
  assumes "price_sensor_interval tz start_utc end_utc energy_mwh rate context0 = Inr r"
  obtains start end_t inner st costs credits where
    "check_sensor_interval rate start_utc end_utc energy_mwh = Inr (start, end_t)"
    "pricing_run tz rate (case context0 of None \<Rightarrow> default_cost_context | Some c \<Rightarrow> c)
       start end_t inner energy_mwh st"
    "map raw_slice.truncate (cr_slices r) = ps_slices st"
    "map sl_cost_microdollars (cr_slices r) = costs" "cr_energy_cost_microdollars r = sum_list costs"
    "map sl_credit_microdollars (cr_slices r) = credits" "cr_credit_microdollars r = sum_list credits"
    "sum_list (map rs_energy_mwh (cr_slices r)) = energy_mwh" "cr_energy_mwh r = energy_mwh"
    "cr_total_microdollars r = sum_list costs - sum_list credits"
  using assms
proof (rule price_sensor_interval_Inr)
  fix start end_t inner st costs credits
  let ?ctx = "case context0 of None \<Rightarrow> default_cost_context | Some c \<Rightarrow> c"
  assume chk: "check_sensor_interval rate start_utc end_utc energy_mwh = Inr (start, end_t)"
    and run: "pricing_run tz rate ?ctx start end_t inner energy_mwh st"
    and al: "allocate_microdollars (ps_raw_costs st) = Inr costs"
      "allocate_microdollars (ps_raw_credits st) = Inr credits"
    and r: "cr_energy_mwh r = energy_mwh" "cr_energy_cost_microdollars r = sum_list costs"
      "cr_credit_microdollars r = sum_list credits"
      "cr_total_microdollars r = sum_list costs - sum_list credits"
      "cr_slices r = map (\<lambda>(r, c, k). priced_slice_of r c k) (zip (ps_slices st) (zip costs credits))"
  have "length costs = length (ps_slices st)" "length credits = length (ps_slices st)"
    using pricing_run_correct(2) [OF run] al allocate_microdollars_length
    by (auto simp: ps_aligned_def)
  note cols = priced_slices_columns [OF this, folded r(5)]
  show thesis
    by (rule that [OF chk run cols(1,2) r(2) cols(3) r(3) _ r(1,4)])
       (use cols(4) pricing_run_correct(3) [OF run] in \<open>simp add: slices_energy_def\<close>)
qed

end
