(* ===== verification/Cost_Uniform.thy ===== *)
theory Cost_Uniform
  imports Cost_Pricing
begin

text \<open>
  Pricing where one untiered price is in force for the whole interval. The engine cuts the
  interval at every minute, prices each piece in rounded decimals and apportions the
  microdollars; this theory shows that the total is the energy times the price, rounded once,
  whenever the exact products fit the 28 digits.
\<close>

text \<open>A price with an exact coefficient and enough room for the energy it multiplies.\<close>

definition exact_price :: "int \<Rightarrow> decimal \<Rightarrow> bool" where
  "exact_price energy q \<longleftrightarrow>
     (\<exists>n k. q = of_int n * 10 powi k \<and> 0 \<le> n \<and> energy * n < 10 ^ 28) \<and> energy < 10 ^ 28"

lemma exact_price_nonneg: "exact_price energy q \<Longrightarrow> 0 \<le> q"
  by (auto simp: exact_price_def)

lemma exact_price_mono: "exact_price e q \<Longrightarrow> 0 \<le> m \<Longrightarrow> m \<le> e \<Longrightarrow> exact_price m q"
proof -
  assume a: "exact_price e q" "0 \<le> m" "m \<le> e"
  then obtain n k where q: "q = of_int n * 10 powi k" "0 \<le> n" "e * n < 10 ^ 28" "e < 10 ^ 28"
    by (auto simp: exact_price_def)
  have "m * n \<le> e * n" using a(3) q(2) by (rule mult_right_mono)
  then have "m * n < 10 ^ 28" "m < 10 ^ 28" using q a by linarith+
  then show ?thesis using q unfolding exact_price_def by blast
qed

lemma exact_price_product:
  assumes "exact_price m q" "0 \<le> m"
  shows "dec_round (of_int m * q * 10 powi j) = of_int m * q * 10 powi j"
proof -
  obtain n k where q: "q = of_int n * 10 powi k" "0 \<le> n" "m * n < 10 ^ 28"
    using assms(1) by (auto simp: exact_price_def)
  have "of_int m * q * 10 powi j = of_int (m * n) * 10 powi (k + j)"
    by (simp add: q(1) power_int_add)
  moreover have "\<bar>m * n\<bar> < 10 ^ 28" using q assms(2) by simp
  ultimately show ?thesis using dec_round_grid by presburger
qed

lemma exact_price_segment:
  assumes "exact_price m q" "0 \<le> m" "rv_surcharge_percent rate = 0"
  shows "dec_mul (segment_cost rate (dec_div (of_int m) 1000000) q) 1000000 = of_int m * q"
proof -
  have six: "(1000000::rat) = 10 powi 6" "1 / (1000000::rat) = 10 powi (- 6)"
    by (simp_all add: power_int_def field_simps)
  have "dec_div (of_int m) 1000000 = dec_round (of_int m * 10 powi (- 6))"
    unfolding dec_div_def six(2) [symmetric] by simp
  also have "\<dots> = of_int m * 10 powi (- 6)"
    using assms by (intro dec_round_grid) (auto simp: exact_price_def)
  finally have kwh: "dec_div (of_int m) 1000000 = of_int m * 10 powi (- 6)" .
  have "dec_mul (of_int m * 10 powi (- 6)) q = of_int m * q * 10 powi (- 6)"
    using exact_price_product [OF assms(1,2), of "- 6"] by (simp add: dec_mul_def mult_ac)
  then have cost: "segment_cost rate (dec_div (of_int m) 1000000) q = of_int m * q * 10 powi (- 6)"
    by (simp only: segment_cost_def kwh assms(3) Let_def if_False simp_thms)
  have "of_int m * q * 10 powi (- 6) * 1000000 = of_int m * q * 10 powi 0"
    by (simp add: power_int_minus)
  then show ?thesis
    unfolding cost dec_mul_def using exact_price_product [OF assms(1,2), of 0] by simp
qed

lemma exact_price_sum:
  assumes "exact_price (sum_list us) q" "\<forall>u\<in>set us. 0 \<le> u"
  shows "dec_sum (map (\<lambda>u. of_int u * q) us) = of_int (sum_list us) * q"
  using assms
proof (induction us rule: rev_induct)
  case (snoc u us)
  have nn: "0 \<le> sum_list us" "0 \<le> u" using snoc.prems by (auto intro: sum_list_nonneg)
  then have "exact_price (sum_list us) q" using snoc.prems exact_price_mono by fastforce
  then have "dec_sum (map (\<lambda>u. of_int u * q) us) = of_int (sum_list us) * q"
    using snoc by simp
  then show ?case
    using exact_price_product [OF snoc.prems(1), of 0] nn
    by (simp add: dec_sum_def dec_add_def algebra_simps)
qed simp

text \<open>The situation: at every instant of the interval the same untiered period is in force.\<close>

definition uniform_price ::
  "zoneinfo \<Rightarrow> rate_version \<Rightarrow> cost_context \<Rightarrow> instant \<Rightarrow> instant \<Rightarrow> decimal \<Rightarrow> bool" where
  "uniform_price tz rate context left right q \<longleftrightarrow>
     (\<exists>p lo. (\<forall>t cumulative incremental. left \<le> t \<longrightarrow> t < right \<longrightarrow> 0 \<le> cumulative \<longrightarrow>
                period_for tz rate t cumulative context incremental = Inr p) \<and>
             effective_tier_bounds rate p context = Inr (lo, None) \<and>
             dec_add (pp_price_per_kwh p) (rv_cca_adjustment_per_kwh rate) = q) \<and>
     rv_surcharge_percent rate = 0 \<and> cc_scope context \<noteq> ''full_account''"

lemma uniform_price_sub:
  "uniform_price tz rate context left right q \<Longrightarrow> left \<le> l \<Longrightarrow> r \<le> right \<Longrightarrow>
     uniform_price tz rate context l r q"
proof -
  assume a: "uniform_price tz rate context left right q" "left \<le> l" "r \<le> right"
  then obtain p lo where p: "\<forall>t cumulative incremental. left \<le> t \<longrightarrow> t < right \<longrightarrow> 0 \<le> cumulative \<longrightarrow>
      period_for tz rate t cumulative context incremental = Inr p"
    "effective_tier_bounds rate p context = Inr (lo, None)"
    "dec_add (pp_price_per_kwh p) (rv_cca_adjustment_per_kwh rate) = q"
    by (auto simp: uniform_price_def)
  have "\<forall>t cumulative incremental. l \<le> t \<longrightarrow> t < r \<longrightarrow> 0 \<le> cumulative \<longrightarrow>
      period_for tz rate t cumulative context incremental = Inr p"
    using p(1) a(2,3) by simp
  then show ?thesis using a(1) p(2,3) unfolding uniform_price_def by blast
qed

lemma price_segment_uniform:
  assumes "uniform_price tz rate context left right q" "left < right"
    and "exact_price m q" "0 \<le> m" "0 \<le> ps_cumulative st"
  shows "\<exists>st'. price_segment tz rate context left right m m left st = Inr (m, right, st')
    \<and> ps_raw_costs st' = ps_raw_costs st @ [of_int m * q]
    \<and> ps_raw_credits st' = ps_raw_credits st @ [0] \<and> ps_slices st' \<noteq> []
    \<and> 0 \<le> ps_cumulative st'"
proof -
  define t where "t = left + (right - left) div 2"
  have "left \<le> t" "t < right" using assms(2) by (auto simp: t_def)
  then obtain p lo where "period_for tz rate t (ps_cumulative st) context (0 < m) = Inr p"
    "effective_tier_bounds rate p context = Inr (lo, None)"
    "dec_add (pp_price_per_kwh p) (rv_cca_adjustment_per_kwh rate) = q"
    and flat: "rv_surcharge_percent rate = 0" "cc_scope context \<noteq> ''full_account''"
    using assms(1,5) by (auto simp: uniform_price_def)
  moreover have "0 \<le> dec_add (ps_cumulative st) (dec_div (of_int m) 1000000)"
    using assms(4,5) by (intro dec_ops_nonneg) auto
  ultimately show ?thesis
    using exact_price_segment [OF assms(3,4) flat(1)]
    by (simp add: price_segment_def segment_capacity_def segment_end_of_def Let_def
          dec_mul_def [of 0] flip: t_def)
qed

lemma price_bucket_uniform:
  assumes "uniform_price tz rate context left right q" "left < right"
    and "exact_price m q" "0 \<le> m" "0 \<le> ps_cumulative st"
  shows "\<exists>st'. price_bucket tz rate context left right m m left st = Inr st' \<and> 0 \<le> ps_cumulative st' \<and>
    (if 0 < m \<or> ps_slices st = []
     then ps_raw_costs st' = ps_raw_costs st @ [of_int m * q]
       \<and> ps_raw_credits st' = ps_raw_credits st @ [0] \<and> ps_slices st' \<noteq> []
     else st' = st)"
proof -
  obtain st' where st': "price_segment tz rate context left right m m left st = Inr (m, right, st')"
    "ps_raw_costs st' = ps_raw_costs st @ [of_int m * q]"
    "ps_raw_credits st' = ps_raw_credits st @ [0]" "ps_slices st' \<noteq> []" "0 \<le> ps_cumulative st'"
    using price_segment_uniform [OF assms] by blast
  have stop: "m \<noteq> 0 \<Longrightarrow> price_bucket tz rate context left right m 0 right st' = Inr st'"
    by (simp add: price_bucket.simps)
  show ?thesis
  proof (cases "0 < m \<or> ps_slices st = []")
    case True
    then have "price_bucket tz rate context left right m m left st = Inr st'"
      using st'(1) stop assms(4) by (auto simp: price_bucket.simps [of tz rate "context" left right m m])
    with True st' show ?thesis by auto
  next
    case False
    then have "price_bucket tz rate context left right m m left st = Inr st"
      using assms(4) by (auto simp: price_bucket.simps)
    with False assms(5) show ?thesis by auto
  qed
qed

lemma price_buckets_uniform:
  assumes "uniform_price tz rate context b0 (last (b0 # bs)) q" "sorted_wrt (<) (b0 # bs)"
    and "length es = length bs" "\<forall>v\<in>set es. 0 \<le> v" "exact_price (sum_list es) q"
    and "0 \<le> ps_cumulative st"
  shows "\<exists>st' us. price_buckets tz rate context (zip (pairwise (b0 # bs)) es) st = Inr st'
    \<and> ps_raw_costs st' = ps_raw_costs st @ map (\<lambda>u. of_int u * q) us
    \<and> ps_raw_credits st' = ps_raw_credits st @ replicate (length us) 0
    \<and> sum_list us = sum_list es \<and> (\<forall>u\<in>set us. 0 \<le> u)
    \<and> int (length us) \<le> sum_list es + (if ps_slices st = [] then 1 else 0)"
  using assms
proof (induction bs arbitrary: b0 es st)
  case Nil
  then show ?case by (intro exI [of _ st] exI [of _ "[]"]) (auto simp: price_buckets_def)
next
  case (Cons b1 bs)
  then obtain v vs where es: "es = v # vs" by (cases es) auto
  have nn: "0 \<le> v" "0 \<le> sum_list vs" using Cons.prems(4) by (auto simp: es intro: sum_list_nonneg)
  have b1: "b0 < b1" "b1 \<le> last (b1 # bs)" using Cons.prems(2)
    by (auto dest!: last_in_set simp: less_imp_le)
  have ex: "exact_price v q" "exact_price (sum_list vs) q"
    using Cons.prems(5) nn exact_price_mono by (auto simp: es)
  obtain st1 where st1: "price_bucket tz rate context b0 b1 v v b0 st = Inr st1" "0 \<le> ps_cumulative st1"
    "if 0 < v \<or> ps_slices st = []
     then ps_raw_costs st1 = ps_raw_costs st @ [of_int v * q]
       \<and> ps_raw_credits st1 = ps_raw_credits st @ [0] \<and> ps_slices st1 \<noteq> []
     else st1 = st"
    using price_bucket_uniform [OF uniform_price_sub [OF Cons.prems(1)] b1(1) ex(1) nn(1) Cons.prems(6)] b1
    by (auto simp del: last.simps) (metis last_ConsR list.distinct(1) order_refl)
  have "uniform_price tz rate context b1 (last (b1 # bs)) q"
    using uniform_price_sub [OF Cons.prems(1)] b1 by simp
  with Cons.IH [of b1 vs st1] Cons.prems ex st1(2) obtain st' us where st':
    "price_buckets tz rate context (zip (pairwise (b1 # bs)) vs) st1 = Inr st'"
    "ps_raw_costs st' = ps_raw_costs st1 @ map (\<lambda>u. of_int u * q) us"
    "ps_raw_credits st' = ps_raw_credits st1 @ replicate (length us) 0"
    "sum_list us = sum_list vs" "\<forall>u\<in>set us. 0 \<le> u"
    "int (length us) \<le> sum_list vs + (if ps_slices st1 = [] then 1 else 0)"
    by (auto simp: es)
  have run: "price_buckets tz rate context (zip (pairwise (b0 # b1 # bs)) es) st = Inr st'"
    using st1(1) st'(1) by (simp add: es price_buckets_def)
  show ?case
  proof (cases "0 < v \<or> ps_slices st = []")
    case True
    with st1(3) st' nn show ?thesis
      by (intro exI [of _ st'] exI [of _ "v # us"] conjI run) (auto simp: es)
  next
    case False
    with st1(3) st' nn show ?thesis
      by (intro exI [of _ st'] exI [of _ us] conjI run) (auto simp: es)
  qed
qed

lemma sum_list_floor_bound:
  "0 \<le> q \<Longrightarrow> of_int (sum_list (map (\<lambda>v. \<lfloor>v\<rfloor> + 1) (map (\<lambda>u. of_int u * q) us)))
     \<le> of_int (sum_list us) * q + (of_nat (length us) :: rat)"
proof (induction us)
  case (Cons u us)
  have "of_int \<lfloor>of_int u * q\<rfloor> \<le> of_int u * q" by (rule of_int_floor_le)
  with Cons show ?case by (simp add: algebra_simps) linarith
qed simp

lemma allocate_uniform:
  assumes "exact_price (sum_list us) q" "\<forall>u\<in>set us. 0 \<le> u"
    and "of_int (sum_list us) * q + of_nat (length us) < 10 ^ 28"
  shows "\<exists>out. allocate_microdollars (map (\<lambda>u. of_int u * q) us) = Inr out
    \<and> sum_list out = round_half_even (of_int (sum_list us) * q)"
proof -
  have q: "0 \<le> q" using assms(1) by (rule exact_price_nonneg)
  have "of_int (sum_list (map (\<lambda>v. \<lfloor>v\<rfloor> + 1) (map (\<lambda>u. of_int u * q) us))) < (of_int (10 ^ 28) :: rat)"
    using sum_list_floor_bound [OF q, of us] assms(3) by simp
  then have "sum_list (map (\<lambda>v. \<lfloor>v\<rfloor> + 1) (map (\<lambda>u. of_int u * q) us)) < 10 ^ 28"
    by (simp only: of_int_less_iff)
  moreover have "\<forall>v\<in>set (map (\<lambda>u. of_int u * q) us). 0 \<le> v" using assms(2) q by auto
  ultimately show ?thesis
    using allocate_microdollars_total [of "map (\<lambda>u. of_int u * q) us"] exact_price_sum [OF assms(1,2)]
    by simp
qed

lemma allocate_zeros:
  assumes "int k < 10 ^ 28"
  shows "\<exists>out. allocate_microdollars (replicate k 0) = Inr out \<and> sum_list out = 0"
proof -
  have "exact_price (sum_list (replicate k 0)) (0::rat)"
    by (auto simp: exact_price_def sum_list_replicate intro!: exI [of _ 0])
  moreover have "of_nat k < (10 ^ 28 :: rat)"
    using assms by (metis of_int_less_iff of_int_of_nat_eq of_int_power of_int_numeral)
  ultimately show ?thesis
    using allocate_uniform [of "replicate k 0" 0] round_half_even_of_int [of 0]
    by (simp add: map_replicate_const sum_list_replicate)
qed

lemma price_interval_uniform:
  assumes "check_sensor_interval rate start_utc end_utc energy_mwh = Inr (start, end_t)"
    and "rv_dated_prices rate = []"
    and "uniform_price tz rate context start end_t q"
    and "exact_price energy_mwh q" "of_int energy_mwh * (q + 1) + 1 < 10 ^ 28"
    and "0 \<le> cc_cumulative_cycle_kwh_before context"
  shows "\<exists>r. price_sensor_interval tz start_utc end_utc energy_mwh rate (Some context) = Inr r
    \<and> cr_total_microdollars r = round_half_even (of_int energy_mwh * q)"
proof -
  have io: "start < end_t" "0 \<le> energy_mwh" using check_sensor_interval_Inr [OF assms(1)] by auto
  obtain inner where inner: "pricing_boundaries rate start end_t = Inr inner"
    using assms(2) by (simp add: pricing_boundaries_def)
  define bs where "bs = inner @ [end_t]"
  define ds where "ds = map (\<lambda>(l, r). r - l) (pairwise (start # bs))"
  define es where "es = energy_shares energy_mwh (sum_list ds) energy_mwh ds"
  have sorted: "sorted_wrt (<) (start # bs)"
    using boundaries_sorted [OF inner io(1)] by (simp add: bs_def)
  have D: "0 < sum_list ds" "\<forall>d\<in>set ds. 0 \<le> d"
    using io(1) boundary_durations [OF sorted]
    by (auto simp: ds_def sum_list_pairwise_diff bs_def less_imp_le)
  then have alloc: "allocate_integer_energy energy_mwh ds = Inr es"
    by (simp add: allocate_integer_energy_def es_def)
  have "ds \<noteq> []" using D(1) by auto
  then have es: "\<forall>v\<in>set es. 0 \<le> v" "sum_list es = energy_mwh" "length es = length bs"
    using energy_shares_nonneg [of "sum_list ds" energy_mwh ds energy_mwh] D io(2)
    by (simp_all add: es_def energy_shares_sum) (simp add: ds_def length_pairwise)
  obtain st us where st: "price_buckets tz rate context (zip (pairwise (start # bs)) es)
      (initial_pricing_state context) = Inr st"
    "ps_raw_costs st = map (\<lambda>u. of_int u * q) us" "ps_raw_credits st = replicate (length us) 0"
    "sum_list us = energy_mwh" "\<forall>u\<in>set us. 0 \<le> u" "int (length us) \<le> energy_mwh + 1"
    using price_buckets_uniform [OF _ sorted es(3,1), of tz rate "context" q "initial_pricing_state context"]
      assms(3,4,6) es(2) by (auto simp: bs_def initial_pricing_state_def)
  have q: "0 \<le> of_int energy_mwh * q" using exact_price_nonneg [OF assms(4)] io(2) by simp
  have "(of_nat (length us) :: rat) \<le> of_int energy_mwh + 1"
    using st(6) by (metis of_int_1 of_int_add of_int_le_iff of_int_of_nat_eq)
  then have room: "of_int energy_mwh * q + of_nat (length us) < (10 ^ 28 :: rat)"
    using assms(5) by (simp add: algebra_simps)
  then have "(of_int (int (length us)) :: rat) < of_int (10 ^ 28)" using q by simp
  then have "int (length us) < 10 ^ 28" by (simp only: of_int_less_iff)
  then obtain costs credits where cc: "allocate_microdollars (ps_raw_costs st) = Inr costs"
    "sum_list costs = round_half_even (of_int energy_mwh * q)"
    "allocate_microdollars (ps_raw_credits st) = Inr credits" "sum_list credits = 0"
    using allocate_uniform [of us q] allocate_zeros [of "length us"] room assms(4) st(2-5) by auto
  show ?thesis
    using assms(1) inner alloc st(1) cc
    by (simp add: price_sensor_interval_def Let_def bs_def ds_def)
qed

subsection \<open>Flat rates\<close>

text \<open>A rate with one untiered period for all seasons, day types and minutes.\<close>

definition flat_rate :: "rate_version \<Rightarrow> price_period \<Rightarrow> bool" where
  "flat_rate rate p \<longleftrightarrow>
     rv_periods rate = [p] \<and> rv_dated_prices rate = [] \<and> rv_season_definitions rate = []
     \<and> rv_holiday_treatment rate = ''not_applicable'' \<and> rv_tier_threshold_kwh_per_day rate = None
     \<and> rv_surcharge_percent rate = 0
     \<and> pp_season p = ''all'' \<and> pp_day_type p = ''all'' \<and> pp_start_minute p = 0
     \<and> pp_end_minute p = 1440 \<and> pp_tier_start_kwh p = 0 \<and> pp_tier_end_kwh p = None
     \<and> pp_threshold_basis p = None"

lemma flat_rate_period:
  assumes "flat_rate rate p" "tz (rv_timezone rate) = Some offset" "0 \<le> cumulative"
  shows "period_for tz rate t cumulative context incremental = Inr p"
proof -
  have day: "\<exists>base. day_type_priority rate local context = Inr [base, ''all'']" for local
    using assms(1) by (auto simp: flat_rate_def day_type_priority_def base_day_type_def Let_def
      validate_rate_evidence_def day_sensitive_def event_aware_def holiday_treatment_of_def
      detecting_treatments_def)
  obtain season where season: "season_for_local rate (t + offset t) = Inr season"
    using assms(1) by (auto simp: flat_rate_def season_for_local_def)
  obtain base where base: "day_type_priority rate (t + offset t) context = Inr [base, ''all'']"
    using day by blast
  have "tier_candidate_of rate context cumulative season [base, ''all''] (wall_minute (t + offset t)) p
      = Inr (Some (p, 0, None))"
    using assms(1,3) wall_minute_bounds [of "t + offset t"]
    by (auto simp: flat_rate_def tier_candidate_of_def effective_tier_bounds_def)
  then show ?thesis
    using assms(1,2) season base
    by (auto simp: period_for_def flat_rate_def astimezone_def most_specific_def Let_def
      settle_boundary_def exactly_one_def)
qed

lemma flat_rate_uniform:
  assumes "flat_rate rate p" "tz (rv_timezone rate) = Some offset"
    and "cc_scope context \<noteq> ''full_account''"
  shows "uniform_price tz rate context left right
    (dec_add (pp_price_per_kwh p) (rv_cca_adjustment_per_kwh rate))"
proof -
  have "effective_tier_bounds rate p context = Inr (0, None)" "rv_surcharge_percent rate = 0"
    using assms(1) by (auto simp: flat_rate_def effective_tier_bounds_def)
  then show ?thesis
    unfolding uniform_price_def using flat_rate_period [of rate p tz offset, OF assms(1,2)] assms(3) by blast
qed

end
