(* ===== verification/Cost_Charges.thy ===== *)
theory Cost_Charges
  imports Cost_Pricing "HOL-Library.Sublist"
begin

text \<open>
  The account charges of \<open>backend/app/services/cost_engine.py\<close>: the recurring and minimum
  charges of a billing range, and the cost of running at the current power for an hour.
\<close>

definition canonical_fixed_charges :: "rate_version \<Rightarrow> fixed_charge list result" where
  "canonical_fixed_charges rate =
     (if rv_fixed_charges rate \<noteq> [] then Inr (rv_fixed_charges rate)
      else if rv_minimum_charge rate \<noteq> 0 \<or> rv_meter_charge rate \<noteq> 0 \<or> rv_other_fixed_charge rate \<noteq> 0
      then rate_error ''fixed-charge applicability is unresolved''
      else Inr
        ((if rv_daily_fixed_charge rate \<noteq> 0
          then [\<lparr>fc_kind = ''daily_fixed_charge'', fc_amount = Finite (rv_daily_fixed_charge rate),
                 fc_applies = ''per_account_per_day''\<rparr>] else []) @
         (if rv_monthly_fixed_charge rate \<noteq> 0
          then [\<lparr>fc_kind = ''monthly_fixed_charge'', fc_amount = Finite (rv_monthly_fixed_charge rate),
                 fc_applies = ''per_account_per_month''\<rparr>] else [])))"

definition touched_calendar_months :: "date \<Rightarrow> date \<Rightarrow> int" where
  "touched_calendar_months start end_exclusive =
     (let end_inclusive = end_exclusive - 1
      in (date_year end_inclusive - date_year start) * 12
         + date_month end_inclusive - date_month start + 1)"

definition fixed_charge_multiplier ::
  "fixed_charge \<Rightarrow> int \<Rightarrow> int \<Rightarrow> int option \<Rightarrow> bool \<Rightarrow> int result" where
  "fixed_charge_multiplier charge days months meter_count include_cycle_charge =
     bindE (if prefix ''per_meter_'' (fc_applies charge)
            then (case meter_count of
                    Some n \<Rightarrow> if n < 1
                      then rate_error ''per-meter fixed charge requires an exact utility meter count''
                      else Inr n
                  | None \<Rightarrow> rate_error ''per-meter fixed charge requires an exact utility meter count'')
            else Inr 1) (\<lambda>entity_count.
       let recurrence_count =
             (if suffix ''_per_day'' (fc_applies charge) then days
              else if suffix ''_per_month'' (fc_applies charge) then months
              else py_bool_int include_cycle_charge)
       in Inr (entity_count * recurrence_count))"

text \<open>The additive total and the minimum charges collected so far.\<close>

definition add_fixed_charge ::
  "int \<Rightarrow> int \<Rightarrow> int option \<Rightarrow> bool \<Rightarrow> fixed_charge \<Rightarrow> decimal \<times> decimal list
     \<Rightarrow> (decimal \<times> decimal list) result" where
  "add_fixed_charge days months meter_count include_cycle_charge charge acc =
     (case (fc_amount charge, acc) of
        (Finite amount, (added, minimums)) \<Rightarrow>
          if amount < 0 then rate_error ''fixed charge must be a nonnegative exact decimal''
          else if amount = 0 then Inr (added, minimums)
          else bindE (fixed_charge_multiplier charge days months meter_count include_cycle_charge)
            (\<lambda>multiplier.
               let charge_total = dec_mul amount (of_int multiplier) in
               Inr (if fc_kind charge = ''minimum_charge''
                    then (added, minimums @ [charge_total])
                    else (dec_add added charge_total, minimums)))
      | (NonFinite, _) \<Rightarrow> rate_error ''fixed charge must be a nonnegative exact decimal'')"

definition microdollars :: "decimal \<Rightarrow> int result" where
  "microdollars dollars = dec_quantize_int (dec_mul dollars 1000000)"

definition fixed_charge_microdollars ::
  "rate_version \<Rightarrow> date \<Rightarrow> date \<Rightarrow> string \<Rightarrow> int option \<Rightarrow> bool \<Rightarrow> int option \<Rightarrow> int result" where
  "fixed_charge_microdollars rate start_date end_exclusive scope meter_count
       include_cycle_charge variable_charge_microdollars =
     (if scope \<noteq> ''full_account'' then Inr 0
      else if end_exclusive \<le> start_date
      then rate_error ''fixed-charge range must be ordered''
      else
        let days = end_exclusive - start_date;
            months = touched_calendar_months start_date end_exclusive in
        bindE (canonical_fixed_charges rate) (\<lambda>charges.
        bindE (foldE (add_fixed_charge days months meter_count include_cycle_charge) charges (0, []))
          (\<lambda>(added, minimums).
        bindE (microdollars added) (\<lambda>additive_microdollars.
          if minimums = [] then Inr additive_microdollars
          else (case variable_charge_microdollars of
                  None \<Rightarrow> rate_error ''minimum charge requires the exact variable-charge subtotal''
                | Some variable \<Rightarrow>
                    bindE (mapE microdollars minimums) (\<lambda>ms.
                      let minimum_microdollars = Max (set ms);
                          subtotal = variable + additive_microdollars
                      in Inr (additive_microdollars + max 0 (minimum_microdollars - subtotal))))))))"

definition current_cost_per_hour_microdollars :: "decimal \<Rightarrow> decimal \<Rightarrow> int result" where
  "current_cost_per_hour_microdollars power_w price_per_kwh =
     (if power_w < 0 \<or> price_per_kwh < 0 then rate_error ''power and price must be nonnegative''
      else microdollars (dec_mul (dec_div power_w 1000) price_per_kwh))"

subsection \<open>Facts\<close>

lemma month_index_year_month:
  "card ((\<lambda>d. (date_year d, date_month d)) ` A) = card (month_index ` A)"
proof -
  let ?g = "\<lambda>(y, m). y * 12 + m - (1::int)"
  have "month_index ` A = ?g ` (\<lambda>d. (date_year d, date_month d)) ` A"
    by (auto simp: month_index_def image_iff)
  moreover have "inj_on ?g ((\<lambda>d. (date_year d, date_month d)) ` A)"
  proof (rule inj_onI)
    fix p q
    assume "p \<in> (\<lambda>d. (date_year d, date_month d)) ` A" "q \<in> (\<lambda>d. (date_year d, date_month d)) ` A"
      and eq: "?g p = ?g q"
    then obtain d d' where "p = (date_year d, date_month d)" "q = (date_year d', date_month d')"
      by auto
    then show "p = q"
      using eq date_month_bounds [of d] date_month_bounds [of d'] by simp presburger
  qed
  ultimately show ?thesis by (simp add: card_image)
qed

lemma touched_calendar_months_index:
  "touched_calendar_months start end_exclusive
     = month_index (end_exclusive - 1) - month_index start + 1"
  by (simp add: touched_calendar_months_def month_index_def Let_def algebra_simps)

lemma touched_calendar_months_count:
  assumes "start < end_exclusive"
  shows "touched_calendar_months start end_exclusive
    = int (card ((\<lambda>d. (date_year d, date_month d)) ` {start..end_exclusive - 1}))"
  using month_index_image [of start "end_exclusive - 1"] assms
  by (simp add: month_index_year_month touched_calendar_months_index)

lemma microdollars_mono:
  assumes "microdollars a = Inr m" "microdollars b = Inr n" "a \<le> b"
  shows "m \<le> n"
proof -
  have "dec_mul a 1000000 \<le> dec_mul b 1000000"
    using assms(3) by (auto simp: dec_mul_def intro: dec_round_mono)
  then show ?thesis
    using assms(1,2) round_half_even_mono by (auto simp: microdollars_def dec_quantize_int_Inr_iff)
qed

lemma microdollars_nonneg: "microdollars a = Inr m \<Longrightarrow> 0 \<le> a \<Longrightarrow> 0 \<le> m"
  by (auto simp: microdollars_def dec_quantize_int_Inr_iff
           intro!: round_half_even_nonneg dec_ops_nonneg)

lemma fixed_charge_microdollars_parts:
  assumes "fixed_charge_microdollars rate s e ''full_account'' meters cycle variable = Inr n"
  obtains charges added minimums a where
    "canonical_fixed_charges rate = Inr charges"
    "foldE (add_fixed_charge (e - s) (touched_calendar_months s e) meters cycle) charges (0, [])
       = Inr (added, minimums)"
    "microdollars added = Inr a"
    "minimums = [] \<and> n = a \<or>
     (\<exists>v ms. variable = Some v \<and> minimums \<noteq> [] \<and> mapE microdollars minimums = Inr ms
        \<and> n = a + max 0 (Max (set ms) - (v + a)))"
  using assms
  by (auto simp: fixed_charge_microdollars_def Let_def bindE_simps split: if_splits option.splits)

end
