(* ===== verification/Tiered_Billing.thy ===== *)
theory Tiered_Billing
  imports PM_Decimal
begin

text \<open>
  \<open>backend/app/services/tiered_billing.py\<close>: the provenance of a cycle's energy, the tier it
  can be confirmed in, the confidence of an estimate, the two-tier cost and the projection of
  a whole cycle. Properties are \<open>definition\<close>s over the \<open>energy_quality\<close> record.
\<close>

record energy_quality =
  eq_measured_kwh :: decimal
  eq_recovered_kwh :: decimal
  eq_estimated_kwh :: decimal
  eq_estimate_lower_kwh :: decimal
  eq_estimate_upper_kwh :: decimal
  eq_unknown_gap_count :: int
  eq_unknown_gap_seconds :: int
  eq_estimation_methods :: "string list"

definition saved_usage_kwh :: "energy_quality \<Rightarrow> decimal" where
  "saved_usage_kwh q = dec_add (eq_measured_kwh q) (eq_recovered_kwh q)"

definition current_usage_kwh :: "energy_quality \<Rightarrow> decimal" where
  "current_usage_kwh q = dec_add (saved_usage_kwh q) (eq_estimated_kwh q)"

definition lower_usage_kwh :: "energy_quality \<Rightarrow> decimal" where
  "lower_usage_kwh q =
     dec_add (dec_add (eq_measured_kwh q) (eq_recovered_kwh q)) (eq_estimate_lower_kwh q)"

definition upper_usage_kwh :: "energy_quality \<Rightarrow> decimal" where
  "upper_usage_kwh q =
     dec_add (dec_add (eq_measured_kwh q) (eq_recovered_kwh q)) (eq_estimate_upper_kwh q)"

definition fully_resolved :: "energy_quality \<Rightarrow> bool" where
  "fully_resolved q \<longleftrightarrow> eq_unknown_gap_count q = 0"

datatype calculation_state = Exact | Estimated | Partial | Unavailable

definition billing_calculation_state :: "bool \<Rightarrow> bool \<Rightarrow> bool \<Rightarrow> calculation_state" where
  "billing_calculation_state has_blocking_reason has_estimated_energy tou_gap_unallocated =
     (if has_blocking_reason then Unavailable
      else if tou_gap_unallocated then Partial
      else if has_estimated_energy then Estimated
      else Exact)"

datatype tier_state = Tier_1 | Tier_2 | Estimated_Tier_1 | Estimated_Tier_2 | Not_Confirmed

definition tier_state_for_quality :: "energy_quality \<Rightarrow> decimal \<Rightarrow> tier_state result" where
  "tier_state_for_quality quality threshold_kwh =
     (if threshold_kwh < 0 then Inl (ValueError ''tier threshold must be non-negative'')
      else if eq_unknown_gap_count quality \<noteq> 0 then Inr Not_Confirmed
      else
        let lower_tier = (if lower_usage_kwh quality \<le> threshold_kwh then Tier_1 else Tier_2);
            upper_tier = (if upper_usage_kwh quality \<le> threshold_kwh then Tier_1 else Tier_2)
        in if lower_tier \<noteq> upper_tier then Inr Not_Confirmed
           else if eq_estimated_kwh quality \<noteq> 0
           then Inr (if lower_tier = Tier_1 then Estimated_Tier_1 else Estimated_Tier_2)
           else Inr lower_tier)"

datatype confidence = High | Moderate | Insufficient

definition estimate_confidence ::
  "decimal \<Rightarrow> energy_quality \<Rightarrow> decimal \<Rightarrow> decimal \<Rightarrow> int \<Rightarrow> (confidence \<times> string list) result" where
  "estimate_confidence reading_coverage quality high_coverage minimum_coverage
       unresolved_counter_resets =
     (if \<not> (0 \<le> minimum_coverage \<and> minimum_coverage \<le> high_coverage \<and> high_coverage \<le> 1)
      then Inl (ValueError ''estimate coverage thresholds are invalid'')
      else if unresolved_counter_resets \<noteq> 0 then Inr (Insufficient, [''unresolved_counter_reset''])
      else if eq_unknown_gap_count quality \<noteq> 0 then Inr (Insufficient, [''unknown_gap_energy''])
      else
        let reasons =
              (if eq_recovered_kwh quality \<noteq> 0 then [''cumulative_meter_energy_recovered''] else [])
              @ (if eq_estimated_kwh quality \<noteq> 0
                 then map (\<lambda>m. ''estimated_by_'' @ m) (eq_estimation_methods quality) else [])
        in if high_coverage \<le> reading_coverage
           then Inr (High, reasons @ [''reading_coverage_at_or_above_high_threshold''])
           else if eq_recovered_kwh quality \<noteq> 0 \<and> eq_estimated_kwh quality = 0
           then Inr (High, reasons @ [''cycle_energy_total_fully_recovered''])
           else if eq_estimated_kwh quality = 0 \<and> minimum_coverage \<le> reading_coverage
           then Inr (Moderate, reasons @ [''reading_coverage_at_or_above_minimum_threshold''])
           else if minimum_coverage \<le> reading_coverage
           then Inr (Moderate, reasons @ [''reading_coverage_at_or_above_minimum_threshold''])
           else Inr (Insufficient, [''reading_coverage_below_minimum_threshold'']))"

record tiered_cost_result =
  tc_total_usage_kwh :: decimal
  tc_threshold_kwh :: decimal
  tc_tier_1_usage_kwh :: decimal
  tc_tier_2_usage_kwh :: decimal
  tc_tier_1_cost :: decimal
  tc_tier_2_cost :: decimal
  tc_service_charge :: decimal
  tc_total :: decimal

definition tiered_cost ::
  "decimal \<Rightarrow> decimal \<Rightarrow> decimal \<Rightarrow> decimal \<Rightarrow> decimal \<Rightarrow> decimal \<Rightarrow> tiered_cost_result result" where
  "tiered_cost usage_kwh threshold_kwh tier_1_rate tier_2_rate service_days daily_service_charge =
     (if Min {usage_kwh, threshold_kwh, tier_1_rate, tier_2_rate, service_days, daily_service_charge} < 0
      then Inl (ValueError ''tiered billing inputs must be non-negative'')
      else
        let tier_1_usage = min usage_kwh threshold_kwh;
            tier_2_usage = max 0 (dec_sub usage_kwh threshold_kwh);
            tier_1_cost = dec_mul tier_1_usage tier_1_rate;
            tier_2_cost = dec_mul tier_2_usage tier_2_rate;
            service_charge = dec_mul service_days daily_service_charge
        in Inr \<lparr>tc_total_usage_kwh = usage_kwh, tc_threshold_kwh = threshold_kwh,
                tc_tier_1_usage_kwh = tier_1_usage, tc_tier_2_usage_kwh = tier_2_usage,
                tc_tier_1_cost = tier_1_cost, tc_tier_2_cost = tier_2_cost,
                tc_service_charge = service_charge,
                tc_total = dec_add (dec_add tier_1_cost tier_2_cost) service_charge\<rparr>)"

record projection =
  pj_available :: bool
  pj_confidence :: "confidence option"
  pj_confidence_reasons :: "string list"
  pj_projected :: "tiered_cost_result option"

definition projection_quality :: "decimal \<Rightarrow> decimal \<Rightarrow> int \<Rightarrow> energy_quality" where
  "projection_quality reliable_usage_kwh estimated_energy_kwh unknown_count = \<lparr>
     eq_measured_kwh = max 0 (dec_sub reliable_usage_kwh estimated_energy_kwh),
     eq_recovered_kwh = 0,
     eq_estimated_kwh = estimated_energy_kwh,
     eq_estimate_lower_kwh = estimated_energy_kwh,
     eq_estimate_upper_kwh = estimated_energy_kwh,
     eq_unknown_gap_count = unknown_count,
     eq_unknown_gap_seconds = 0,
     eq_estimation_methods =
       (if estimated_energy_kwh \<noteq> 0 then [''short_gap_neighbor_interpolation''] else [])\<rparr>"

record projection_inputs =
  pi_reliable_usage_kwh :: decimal
  pi_reliable_elapsed_hours :: decimal
  pi_total_cycle_days :: int
  pi_threshold_kwh :: decimal
  pi_tier_1_rate :: decimal
  pi_tier_2_rate :: decimal
  pi_daily_service_charge :: decimal
  pi_reading_coverage :: decimal
  pi_unresolved_counter_resets :: int
  pi_unresolved_connection_gaps :: int
  pi_estimated_energy_kwh :: decimal
  pi_unknown_gap_count :: "int option"
  pi_minimum_reliable_hours :: decimal
  pi_high_coverage :: decimal
  pi_minimum_coverage :: decimal

definition projected_usage :: "projection_inputs \<Rightarrow> decimal result" where
  "projected_usage i =
     bindE (dec_divE (pi_reliable_usage_kwh i) (dec_div (pi_reliable_elapsed_hours i) 24))
       (\<lambda>per_day. Inr (dec_mul per_day (of_int (pi_total_cycle_days i))))"

definition billing_projection :: "projection_inputs \<Rightarrow> projection result" where
  "billing_projection i =
     (let reasons0 =
            (if pi_total_cycle_days i \<le> 0 then [''billing_cycle_schedule_invalid''] else [])
            @ (if pi_reliable_elapsed_hours i < pi_minimum_reliable_hours i
               then [''fewer_than_minimum_reliable_hours''] else []);
          unknown_count =
            (case pi_unknown_gap_count i of None \<Rightarrow> pi_unresolved_connection_gaps i | Some n \<Rightarrow> n);
          quality = projection_quality (pi_reliable_usage_kwh i) (pi_estimated_energy_kwh i)
                      unknown_count
      in bindE (estimate_confidence (pi_reading_coverage i) quality (pi_high_coverage i)
                  (pi_minimum_coverage i) (pi_unresolved_counter_resets i))
         (\<lambda>(conf, conf_reasons).
            let reasons = reasons0 @ (if conf = Insufficient then conf_reasons else []) in
            if reasons \<noteq> [] then
              Inr \<lparr>pj_available = False, pj_confidence = None, pj_confidence_reasons = reasons,
                   pj_projected = None\<rparr>
            else
              bindE (projected_usage i) (\<lambda>usage.
              bindE (tiered_cost usage (pi_threshold_kwh i) (pi_tier_1_rate i) (pi_tier_2_rate i)
                       (of_int (pi_total_cycle_days i)) (pi_daily_service_charge i)) (\<lambda>projected.
                let early = (if pi_reliable_elapsed_hours i < 72
                             then [''fewer_than_3_reliable_days''] else []);
                    all_reasons = foldl (\<lambda>rs r. if r \<in> set rs then rs else rs @ [r]) early conf_reasons
                in Inr \<lparr>pj_available = True, pj_confidence = Some conf,
                        pj_confidence_reasons =
                          (if all_reasons = [] then [''reliable_whole_home_coverage'']
                           else all_reasons),
                        pj_projected = Some projected\<rparr>))))"

subsection \<open>Facts\<close>

lemma tiered_cost_Inr_iff:
  "tiered_cost u t r1 r2 d c = Inr k \<longleftrightarrow>
     0 \<le> u \<and> 0 \<le> t \<and> 0 \<le> r1 \<and> 0 \<le> r2 \<and> 0 \<le> d \<and> 0 \<le> c \<and>
     k = \<lparr>tc_total_usage_kwh = u, tc_threshold_kwh = t,
          tc_tier_1_usage_kwh = min u t, tc_tier_2_usage_kwh = max 0 (dec_sub u t),
          tc_tier_1_cost = dec_mul (min u t) r1,
          tc_tier_2_cost = dec_mul (max 0 (dec_sub u t)) r2,
          tc_service_charge = dec_mul d c,
          tc_total = dec_add (dec_add (dec_mul (min u t) r1) (dec_mul (max 0 (dec_sub u t)) r2))
                       (dec_mul d c)\<rparr>"
  by (auto simp: tiered_cost_def Let_def not_less)

lemma tier_2_usage_pos_iff: "0 < max 0 (dec_sub u t) \<longleftrightarrow> t < u"
proof (cases "t < u")
  case True
  then show ?thesis using dec_round_pos [of "u - t"] by (simp add: dec_sub_def)
next
  case False
  then have "dec_sub u t \<le> dec_sub t t" by (intro dec_ops_mono) auto
  then show ?thesis using False by (simp add: dec_sub_def)
qed

lemma tiered_cost_mono:
  assumes "tiered_cost u t r1 r2 d c = Inr k" "tiered_cost u' t r1 r2 d c = Inr k'" "u \<le> u'"
  shows "tc_total k \<le> tc_total k'"
  using assms dec_ops_mono(3) [OF assms(3), of t]
  by (auto simp: tiered_cost_Inr_iff intro!: dec_ops_mono)

lemma tier_state_confirmed:
  assumes "tier_state_for_quality q t = Inr s" "lower_usage_kwh q \<le> u" "u \<le> upper_usage_kwh q"
  shows "s \<in> {Tier_1, Estimated_Tier_1} \<Longrightarrow> u \<le> t" "s \<in> {Tier_2, Estimated_Tier_2} \<Longrightarrow> t < u"
  using assms by (auto simp: tier_state_for_quality_def Let_def split: if_splits)

fun confidence_rank :: "confidence \<Rightarrow> int" where
  "confidence_rank Insufficient = 0"
| "confidence_rank Moderate = 1"
| "confidence_rank High = 2"

lemma estimate_confidence_mono:
  assumes "estimate_confidence c q hi lo resets = Inr (a, ra)"
    "estimate_confidence c' q hi lo resets = Inr (b, rb)" "c \<le> c'"
  shows "confidence_rank a \<le> confidence_rank b"
  using assms by (auto simp: estimate_confidence_def Let_def split: if_splits)

lemma estimate_confidence_reasons:
  "estimate_confidence c q hi lo resets = Inr (a, ra) \<Longrightarrow> ra \<noteq> []"
  by (auto simp: estimate_confidence_def Let_def split: if_splits)

end
