(* ===== verification/Cost_Demo.thy ===== *)
theory Cost_Demo
  imports Cost_Uniform Cost_Charges Tiered_Billing
begin

text \<open>
  A small tariff on which the statements about the cost engine are evaluated: two tiers that
  meet at 10 kWh, in a zone whose clock is UTC. An instant is given in microseconds, the
  energy in milliwatt-hours.
\<close>

definition demo_tz :: zoneinfo where
  "demo_tz name = (if name = ''UTC'' then Some (\<lambda>_. 0) else None)"

definition demo_period :: "string \<Rightarrow> decimal \<Rightarrow> decimal \<Rightarrow> decimal option \<Rightarrow> price_period" where
  "demo_period name price lo hi = \<lparr>
     pp_season = ''all'', pp_day_type = ''all'', pp_name = name, pp_start_minute = 0,
     pp_end_minute = 1440, pp_price_per_kwh = price, pp_tier_start_kwh = lo,
     pp_tier_end_kwh = hi, pp_boundary_inclusive = True, pp_threshold_basis = None\<rparr>"

definition demo_rate :: "price_period list \<Rightarrow> dated_price list \<Rightarrow> rate_version" where
  "demo_rate periods dated = \<lparr>
     rv_id = ''demo'', rv_timezone = ''UTC'', rv_effective_start = Aware 0,
     rv_effective_end = None, rv_periods = periods, rv_rate_plan_id = None,
     rv_dated_prices = dated, rv_season_definitions = [], rv_summer_months = [6, 7, 8, 9],
     rv_holiday_treatment = ''not_applicable'', rv_holiday_calendar = None,
     rv_event_calendar = None, rv_baseline_credit_per_kwh = 0,
     rv_tier_threshold_kwh_per_day = None, rv_tier_threshold_season = None,
     rv_tier_threshold_source_kwh = None, rv_tier1_boundary_inclusive = True,
     rv_daily_fixed_charge = 1 / 4, rv_monthly_fixed_charge = 0, rv_minimum_charge = 0,
     rv_meter_charge = 0, rv_other_fixed_charge = 0, rv_fixed_charges = [],
     rv_cca_adjustment_per_kwh = 0, rv_surcharge_percent = 0,
     rv_algorithm_version = ''cost-v1'', rv_holidays = {}\<rparr>"

definition demo_tiers :: rate_version where
  "demo_tiers = demo_rate
     [demo_period ''tier 1'' (3 / 10) 0 (Some 10), demo_period ''tier 2'' (2 / 5) 10 None] []"

definition demo_flat :: rate_version where
  "demo_flat = demo_rate [demo_period ''flat'' (3 / 10) 0 None] []"

definition demo_dated :: rate_version where
  "demo_dated = demo_rate []
     [\<lparr>dp_start_utc = Aware 0, dp_end_utc = Aware 60000000, dp_name = ''a'', dp_price_per_kwh = 1 / 5\<rparr>,
      \<lparr>dp_start_utc = Aware 60000000, dp_end_utc = Aware 900000000, dp_name = ''b'',
       dp_price_per_kwh = 1 / 2\<rparr>]"

definition demo_context :: cost_context where
  "demo_context = default_cost_context \<lparr>cc_cumulative_cycle_kwh_before := 9\<rparr>"

end
