(* ===== verification/Cost_Properties.thy ===== *)
theory Cost_Properties
  imports Cost_Demo
begin

text \<open>
  The properties of the cost engine and of tiered billing, each with an instance on the
  demonstration tariff where it has hypotheses.
\<close>

subsection \<open>The price in force\<close>

text \<open>C16. An undated rate resolves an instant to one of its own periods: that period matches the
  local season, the day types, the local minute and the cumulative usage, no applicable period
  is more specific, and the most specific applicable periods are either that one alone or the
  two tiers that meet at the cumulative usage.\<close>
theorem period_for_sound:
  assumes "rv_dated_prices rate = []"
    and "period_for tz rate t cumulative context incremental = Inr p"
  shows "\<exists>local season day_types cs lo hi.
    astimezone tz (rv_timezone rate) t = Inr local
    \<and> season_for_local rate local = Inr season
    \<and> day_type_priority rate local context = Inr day_types
    \<and> collectE (tier_candidate_of rate context cumulative season day_types (wall_minute local))
        (rv_periods rate) = Inr cs
    \<and> p \<in> set (rv_periods rate)
    \<and> pp_season p \<in> {season, ''all''} \<and> pp_day_type p \<in> set day_types
    \<and> pp_start_minute p \<le> wall_minute local \<and> wall_minute local < pp_end_minute p
    \<and> effective_tier_bounds rate p context = Inr (lo, hi)
    \<and> lo \<le> cumulative \<and> (\<forall>e. hi = Some e \<longrightarrow> cumulative \<le> e)
    \<and> (\<forall>c\<in>set cs. specificity season day_types c \<le> specificity season day_types (p, lo, hi))
    \<and> (most_specific season day_types cs = [(p, lo, hi)]
       \<or> (\<exists>lower upper. set (most_specific season day_types cs) = {lower, upper}
            \<and> snd (snd lower) = Some cumulative \<and> fst (snd upper) = cumulative
            \<and> (p, lo, hi) = (if incremental then upper else lower)))"
proof -
  obtain local season day_types cs c where r: "astimezone tz (rv_timezone rate) t = Inr local"
    "season_for_local rate local = Inr season" "day_type_priority rate local context = Inr day_types"
    "collectE (tier_candidate_of rate context cumulative season day_types (wall_minute local))
       (rv_periods rate) = Inr cs"
    "settle_boundary rate context cumulative incremental (most_specific season day_types cs) = [c]"
    "p = fst c"
    using period_for_undatedD [OF assms] by metis
  obtain lo hi where c: "c = (p, lo, hi)" using r(6) by (cases c) auto
  have "c \<in> set (most_specific season day_types cs)"
    using settle_boundary_subset r(5) by (metis list.set_intros(1) subsetD)
  moreover from this have "c \<in> set cs" using most_specific_subset by fast
  then obtain q where q: "q \<in> set (rv_periods rate)"
    "tier_candidate_of rate context cumulative season day_types (wall_minute local) q = Inr (Some c)"
    using collectE_Inr_setD [OF r(4)] by blast
  moreover note tier_candidate_of_SomeD [OF q(2) [unfolded c]]
  moreover have "most_specific season day_types cs = [c]
      \<or> (\<exists>lower upper. set (most_specific season day_types cs) = {lower, upper}
          \<and> snd (snd lower) = Some cumulative \<and> fst (snd upper) = cumulative
          \<and> c = (if incremental then upper else lower))"
    using settle_boundary_single [OF r(5)] by blast
  ultimately show ?thesis using r(1-4) most_specific_maximal unfolding c by blast
qed

theorem period_for_sound_witness:
  "\<exists>local season day_types cs lo hi.
    astimezone demo_tz ''UTC'' 0 = Inr local
    \<and> season_for_local demo_tiers local = Inr season
    \<and> day_type_priority demo_tiers local demo_context = Inr day_types
    \<and> collectE (tier_candidate_of demo_tiers demo_context 10 season day_types (wall_minute local))
        (rv_periods demo_tiers) = Inr cs
    \<and> specificity season day_types (demo_period ''tier 2'' (2 / 5) 10 None, lo, hi)
        \<in> specificity season day_types ` set cs"
proof -
  let ?p = "demo_period ''tier 2'' (2 / 5) 10 None"
  have "rv_dated_prices demo_tiers = []"
    "period_for demo_tz demo_tiers 0 10 demo_context True = Inr ?p"
    by code_simp+
  from period_for_sound [OF this] most_specific_subset
  have "\<exists>local season day_types cs lo hi.
    astimezone demo_tz (rv_timezone demo_tiers) 0 = Inr local
    \<and> season_for_local demo_tiers local = Inr season
    \<and> day_type_priority demo_tiers local demo_context = Inr day_types
    \<and> collectE (tier_candidate_of demo_tiers demo_context 10 season day_types (wall_minute local))
        (rv_periods demo_tiers) = Inr cs \<and> (?p, lo, hi) \<in> set cs"
    by (smt (verit, best) insert_iff list.simps(15) subsetD)
  moreover have "rv_timezone demo_tiers = ''UTC''" by (simp add: demo_tiers_def demo_rate_def)
  ultimately show ?thesis by (metis image_eqI)
qed

text \<open>C29. A rate with dated prices uses exactly the dated price whose half-open UTC interval holds
  the instant, and fails when none or more than one does.\<close>
theorem period_for_dated_iff:
  assumes "rv_dated_prices rate \<noteq> []"
    and "\<forall>d\<in>set (rv_dated_prices rate). dp_start_utc d = Aware (s d) \<and> dp_end_utc d = Aware (e d)"
  shows "period_for tz rate t cumulative context incremental = Inr p \<longleftrightarrow>
    (\<exists>d. filter (\<lambda>d. s d \<le> t \<and> t < e d) (rv_dated_prices rate) = [d]
       \<and> p = period_of_dated_price d)"
proof -
  have "filterE (dated_price_matches t) ds = Inr (filter (\<lambda>d. s d \<le> t \<and> t < e d) ds)"
    if "\<forall>d\<in>set ds. dp_start_utc d = Aware (s d) \<and> dp_end_utc d = Aware (e d)" for ds
    using that by (induction ds) (auto simp: dated_price_matches_def)
  from this [OF assms(2)] show ?thesis
    using assms(1) by (auto simp: period_for_def bindE_simps)
qed

theorem period_for_dated_iff_witness:
  "period_for demo_tz demo_dated 60000000 9 demo_context True
     = Inr (period_of_dated_price (rv_dated_prices demo_dated ! 1))"
proof -
  define s e :: "dated_price \<Rightarrow> instant"
    where "s d = (if dp_name d = ''a'' then 0 else 60000000)"
      and "e d = (if dp_name d = ''a'' then 60000000 else 900000000)" for d
  have "rv_dated_prices demo_dated \<noteq> []"
    "\<forall>d\<in>set (rv_dated_prices demo_dated). dp_start_utc d = Aware (s d) \<and> dp_end_utc d = Aware (e d)"
    by (auto simp: demo_dated_def demo_rate_def s_def e_def)
  from period_for_dated_iff [OF this] show ?thesis
    by (auto simp: demo_dated_def demo_rate_def s_def e_def)
qed




subsection \<open>Apportionment\<close>

text \<open>C30. Splitting an interval's energy over its pieces loses nothing: the shares add up to the
  sensor's total, each is at least the floor of its proportional share, and each is nonnegative.\<close>
theorem allocate_integer_energy_conserves:
  assumes "0 \<le> total_mwh" "\<forall>d\<in>set durations_us. 0 \<le> d"
    and "allocate_integer_energy total_mwh durations_us = Inr out"
  shows "sum_list out = total_mwh
    \<and> list_all2 (\<lambda>d v. total_mwh * d div sum_list durations_us \<le> v) durations_us out
    \<and> (\<forall>v\<in>set out. 0 \<le> v)"
proof -
  let ?D = "sum_list durations_us"
  have D: "0 < ?D" and out: "out = energy_shares total_mwh ?D total_mwh durations_us"
    using assms(3) by (auto simp: allocate_integer_energy_def Let_def split: if_splits)
  then have "durations_us \<noteq> []" by auto
  then show ?thesis
    using energy_shares_sum energy_shares_at_least [OF D, of total_mwh durations_us total_mwh]
      energy_shares_nonneg [OF D assms(1,2), of total_mwh] unfolding out by simp
qed

theorem allocate_integer_energy_conserves_witness:
  "allocate_integer_energy 100 [20, 60, 10] = Inr [22, 66, 12] \<and> sum_list [22, 66, 12 :: int] = 100"
proof -
  have "allocate_integer_energy 100 [20, 60, 10] = Inr [22, 66, 12]" by code_simp
  with allocate_integer_energy_conserves [of 100 "[20, 60, 10]"] show ?thesis by auto
qed

text \<open>C17. Microdollars are rounded once: the allocation adds up to the half-even rounding of the
  decimal sum, every value gets its floor or one more, and the extra microdollars go to the
  largest remainders.\<close>
theorem allocate_microdollars_apportions:
  assumes "\<forall>v\<in>set vs. 0 \<le> v" "sum_list (map (\<lambda>v. \<lfloor>v\<rfloor> + 1) vs) < 10 ^ 28"
  shows "\<exists>out. allocate_microdollars vs = Inr out
    \<and> sum_list out = round_half_even (dec_sum vs) \<and> length out = length vs
    \<and> (\<forall>i<length vs. out ! i = \<lfloor>vs ! i\<rfloor> \<or> out ! i = \<lfloor>vs ! i\<rfloor> + 1)
    \<and> (\<forall>i<length vs. \<forall>j<length vs. out ! i = \<lfloor>vs ! i\<rfloor> + 1 \<longrightarrow> out ! j = \<lfloor>vs ! j\<rfloor> \<longrightarrow>
         dec_sub (vs ! j) (of_int \<lfloor>vs ! j\<rfloor>) \<le> dec_sub (vs ! i) (of_int \<lfloor>vs ! i\<rfloor>))"
proof -
  obtain out where out: "allocate_microdollars vs = Inr out"
    "sum_list out = round_half_even (dec_sum vs)"
    using allocate_microdollars_total [OF assms] by blast
  then show ?thesis
    using allocate_microdollars_length allocate_microdollars_each allocate_microdollars_largest
    by (intro exI [of _ out] conjI allI impI) blast+
qed

theorem allocate_microdollars_apportions_witness:
  "allocate_microdollars [1 / 2, 3 / 2, 9 / 4] = Inr [1, 1, 2]
     \<and> sum_list [1, 1, 2] = round_half_even (dec_sum [1 / 2, 3 / 2, 9 / 4])"
proof -
  have out: "allocate_microdollars [1 / 2, 3 / 2, 9 / 4] = Inr [1, 1, 2]" by code_simp
  have "sum_list (map (\<lambda>v. \<lfloor>v\<rfloor> + 1) [1 / 2, 3 / 2, 9 / 4 :: rat]) < 10 ^ 28" by code_simp
  moreover have "\<forall>v\<in>set [1 / 2, 3 / 2, 9 / 4 :: rat]. 0 \<le> v" by simp
  ultimately show ?thesis
    using allocate_microdollars_apportions [of "[1 / 2, 3 / 2, 9 / 4]"] out by auto
qed

subsection \<open>Priced intervals\<close>

lemma demo_price: "dec_add (3 / 10) 0 = 3 / 10"
  unfolding dec_add_def using dec_round_grid [of 3 "- 1"] by (simp add: power_int_minus)

lemma demo_exact_price: "exact_price 3000000 (3 / 10)"
proof -
  have "(3 / 10 :: rat) = of_int 3 * 10 powi (- 1) \<and> (0::int) \<le> 3 \<and> (3000000::int) * 3 < 10 ^ 28"
    by (simp add: power_int_minus)
  moreover have "(3000000::int) < 10 ^ 28" by simp
  ultimately show ?thesis unfolding exact_price_def by blast
qed

lemma demo_flat_priced:
  "\<exists>r. price_sensor_interval demo_tz (Aware 0) (Aware 90000000) 3000000 demo_flat (Some demo_context)
     = Inr r \<and> cr_total_microdollars r = 900000"
proof -
  have flat: "flat_rate demo_flat (demo_period ''flat'' (3 / 10) 0 None)"
    by (simp add: flat_rate_def demo_flat_def demo_rate_def demo_period_def)
  have "uniform_price demo_tz demo_flat demo_context 0 90000000 (3 / 10)"
    using flat_rate_uniform [OF flat, of demo_tz _ demo_context]
    by (simp add: demo_tz_def demo_flat_def demo_rate_def demo_period_def demo_price
          demo_context_def default_cost_context_def)
  moreover have "check_sensor_interval demo_flat (Aware 0) (Aware 90000000) 3000000 = Inr (0, 90000000)"
    by (simp add: check_sensor_interval_def demo_flat_def demo_rate_def)
  ultimately show ?thesis
    using price_interval_uniform [of demo_flat "Aware 0" "Aware 90000000" 3000000 0 90000000
        demo_tz demo_context "3 / 10"] demo_exact_price flat round_half_even_of_int [of 900000]
    by (simp add: flat_rate_def demo_context_def default_cost_context_def)
qed

text \<open>C14. Pricing conserves what the sensor measured: the slices follow one another inside the
  interval and carry all its energy, their costs and credits add up to the result's cost and
  credit, and the total is their difference.\<close>
theorem price_sensor_interval_conserves:
  assumes "price_sensor_interval tz (Aware start) (Aware end_t) energy_mwh rate context0 = Inr r"
  shows "slices_between start (cr_slices r) end_t
    \<and> cr_energy_mwh r = energy_mwh
    \<and> sum_list (map rs_energy_mwh (cr_slices r)) = energy_mwh
    \<and> sum_list (map sl_cost_microdollars (cr_slices r)) = cr_energy_cost_microdollars r
    \<and> sum_list (map sl_credit_microdollars (cr_slices r)) = cr_credit_microdollars r
    \<and> cr_total_microdollars r = cr_energy_cost_microdollars r - cr_credit_microdollars r"
proof (rule priced_interval_columns [OF assms])
  fix s e inner st costs credits
  assume "check_sensor_interval rate (Aware start) (Aware end_t) energy_mwh = Inr (s, e)"
    and run: "pricing_run tz rate (case context0 of None \<Rightarrow> default_cost_context | Some c \<Rightarrow> c)
      s e inner energy_mwh st"
    and cols: "map raw_slice.truncate (cr_slices r) = ps_slices st"
    and rest: "map sl_cost_microdollars (cr_slices r) = costs"
      "cr_energy_cost_microdollars r = sum_list costs"
      "map sl_credit_microdollars (cr_slices r) = credits"
      "cr_credit_microdollars r = sum_list credits"
      "sum_list (map rs_energy_mwh (cr_slices r)) = energy_mwh" "cr_energy_mwh r = energy_mwh"
      "cr_total_microdollars r = sum_list costs - sum_list credits"
  then have "s = start" "e = end_t" using check_sensor_interval_Inr by blast+
  then have "slices_between start (cr_slices r) end_t"
    using pricing_run_correct(1) [OF run] cols by (metis slices_between_truncate)
  with rest show ?thesis by simp
qed

theorem price_sensor_interval_conserves_witness:
  "\<exists>r. price_sensor_interval demo_tz (Aware 0) (Aware 90000000) 3000000 demo_flat (Some demo_context)
     = Inr r \<and> slices_between 0 (cr_slices r) 90000000
     \<and> sum_list (map rs_energy_mwh (cr_slices r)) = 3000000"
  using demo_flat_priced price_sensor_interval_conserves by blast



text \<open>C28. Pricing accepts only a timezone-aware, nonempty interval with nonnegative energy that lies
  inside the rate version's effective range.\<close>
theorem price_sensor_interval_guarded:
  assumes "price_sensor_interval tz start_utc end_utc energy_mwh rate context0 = Inr r"
  shows "\<exists>start end_t eff_start. start_utc = Aware start \<and> end_utc = Aware end_t
    \<and> rv_effective_start rate = Aware eff_start \<and> start < end_t \<and> 0 \<le> energy_mwh \<and> eff_start \<le> start
    \<and> (\<forall>e. rv_effective_end rate = Some e \<longrightarrow> (\<exists>eff_end. e = Aware eff_end \<and> end_t \<le> eff_end))"
proof (rule priced_interval_columns [OF assms])
  fix start end_t
  assume "check_sensor_interval rate start_utc end_utc energy_mwh = Inr (start, end_t)"
  note check_sensor_interval_Inr [OF this]
  then show ?thesis by blast
qed

theorem price_sensor_interval_guarded_witness:
  "\<exists>r start. price_sensor_interval demo_tz (Aware 0) (Aware 90000000) 3000000 demo_flat
     (Some demo_context) = Inr r \<and> Aware 0 = Aware start \<and> start < 90000000"
  using demo_flat_priced price_sensor_interval_guarded by blast

text \<open>C15. Where one untiered price covers the whole interval, cutting it at every minute, pricing the
  pieces in rounded decimals and apportioning the microdollars gives the same total as the
  reference calculation: energy times price, rounded once. Pricing succeeds there.\<close>
theorem price_sensor_interval_flat_rate:
  assumes "flat_rate rate p" "tz (rv_timezone rate) = Some offset" "cc_scope context \<noteq> ''full_account''"
    and "check_sensor_interval rate start_utc end_utc energy_mwh = Inr (start, end_t)"
    and "q = dec_add (pp_price_per_kwh p) (rv_cca_adjustment_per_kwh rate)"
    and "exact_price energy_mwh q" "of_int energy_mwh * (q + 1) + 1 < 10 ^ 28"
    and "0 \<le> cc_cumulative_cycle_kwh_before context"
  shows "\<exists>r. price_sensor_interval tz start_utc end_utc energy_mwh rate (Some context) = Inr r
    \<and> cr_total_microdollars r = round_half_even (of_int energy_mwh * q)"
proof -
  have "uniform_price tz rate context start end_t q"
    unfolding assms(5) using assms(1-3) by (rule flat_rate_uniform)
  moreover have "rv_dated_prices rate = []" using assms(1) by (simp add: flat_rate_def)
  ultimately show ?thesis using price_interval_uniform [OF assms(4)] assms(6-8) by blast
qed

theorem price_sensor_interval_flat_rate_witness:
  "\<exists>r. price_sensor_interval demo_tz (Aware 0) (Aware 90000000) 3000000 demo_flat (Some demo_context)
     = Inr r \<and> cr_total_microdollars r = round_half_even (of_int 3000000 * (3 / 10))"
proof (rule price_sensor_interval_flat_rate)
  show "flat_rate demo_flat (demo_period ''flat'' (3 / 10) 0 None)"
    "demo_tz (rv_timezone demo_flat) = Some (\<lambda>_. 0)" "cc_scope demo_context \<noteq> ''full_account''"
    "check_sensor_interval demo_flat (Aware 0) (Aware 90000000) 3000000 = Inr (0, 90000000)"
    "0 \<le> cc_cumulative_cycle_kwh_before demo_context"
    by (simp_all add: flat_rate_def demo_flat_def demo_rate_def demo_period_def demo_tz_def
          check_sensor_interval_def demo_context_def default_cost_context_def)
  show "3 / 10 = dec_add (pp_price_per_kwh (demo_period ''flat'' (3 / 10) 0 None))
      (rv_cca_adjustment_per_kwh demo_flat)"
    by (simp add: demo_flat_def demo_rate_def demo_period_def demo_price)
qed (use demo_exact_price in simp_all)

subsection \<open>Account charges\<close>

text \<open>The months a monthly charge is billed for are exactly the distinct calendar months that
  have a day in the billing range.\<close>
theorem touched_calendar_months_distinct:
  assumes "start < end_exclusive"
  shows "touched_calendar_months start end_exclusive
    = int (card ((\<lambda>d. (date_year d, date_month d)) ` {start..end_exclusive - 1}))"
  using assms by (rule touched_calendar_months_count)

theorem touched_calendar_months_distinct_witness:
  "touched_calendar_months (ymd2ord 2026 1 31) (ymd2ord 2026 3 2) = 3
   \<and> card ((\<lambda>d. (date_year d, date_month d)) ` {ymd2ord 2026 1 31..ymd2ord 2026 3 2 - 1}) = 3"
proof -
  have "touched_calendar_months (ymd2ord 2026 1 31) (ymd2ord 2026 3 2) = 3"
    "ymd2ord 2026 1 31 < ymd2ord 2026 3 2"
    by code_simp+
  with touched_calendar_months_distinct show ?thesis by fastforce
qed

text \<open>C32. A full account with a minimum charge pays the larger of its subtotal and the largest
  minimum: fixed charges plus the variable charges equal the maximum of the two, and the top-up
  is never negative. Without a minimum charge only the recurring charges are due.\<close>
theorem fixed_charges_respect_minimum:
  assumes "fixed_charge_microdollars rate s e ''full_account'' meters cycle variable = Inr n"
  shows "\<exists>charges added minimums a. canonical_fixed_charges rate = Inr charges
    \<and> foldE (add_fixed_charge (e - s) (touched_calendar_months s e) meters cycle) charges (0, [])
        = Inr (added, minimums)
    \<and> microdollars added = Inr a \<and> a \<le> n
    \<and> (minimums = [] \<longrightarrow> n = a)
    \<and> (minimums \<noteq> [] \<longrightarrow> (\<exists>v ms. variable = Some v \<and> mapE microdollars minimums = Inr ms
          \<and> v + n = max (v + a) (Max (set ms))))"
  using assms by (rule fixed_charge_microdollars_parts) (fastforce simp: max_def)

definition demo_minimum :: rate_version where
  "demo_minimum = demo_flat \<lparr>rv_fixed_charges := [\<lparr>fc_kind = ''minimum_charge'', fc_amount = Finite 10,
     fc_applies = ''per_account_per_cycle''\<rparr>]\<rparr>"

theorem fixed_charges_respect_minimum_witness:
  "\<exists>charges added minimums a. canonical_fixed_charges demo_minimum = Inr charges
    \<and> foldE (add_fixed_charge 30 (touched_calendar_months 739617 739647) None True) charges (0, [])
        = Inr (added, minimums) \<and> microdollars added = Inr a \<and> a \<le> 6000000"
proof -
  have "fixed_charge_microdollars demo_minimum 739617 739647 ''full_account'' None True (Some 4000000)
      = Inr 6000000" by code_simp
  from fixed_charges_respect_minimum [OF this] show ?thesis by auto
qed



subsection \<open>Tiered billing\<close>



text \<open>More usage never costs less.\<close>
theorem tiered_cost_monotone:
  assumes "tiered_cost u t r1 r2 d c = Inr k" "tiered_cost u' t r1 r2 d c = Inr k'" "u \<le> u'"
  shows "tc_total k \<le> tc_total k'"
  using assms by (rule tiered_cost_mono)

theorem tiered_cost_monotone_witness:
  "\<exists>k k'. tiered_cost 9 10 (3 / 10) (2 / 5) 30 (1 / 4) = Inr k
     \<and> tiered_cost 12 10 (3 / 10) (2 / 5) 30 (1 / 4) = Inr k' \<and> tc_total k \<le> tc_total k'"
proof -
  obtain k k' where k: "tiered_cost 9 10 (3 / 10) (2 / 5) 30 (1 / 4) = Inr k"
    "tiered_cost 12 10 (3 / 10) (2 / 5) 30 (1 / 4) = Inr k'"
    by (simp add: tiered_cost_Inr_iff)
  with tiered_cost_monotone [OF k] show ?thesis by auto
qed

text \<open>C39. A confirmed tier agrees with the bill: when the tier state names a tier, every usage in the
  quality's range is charged in that tier, so the tier-2 usage of its cost is positive exactly
  for a tier-2 state; with an unresolved gap no tier is confirmed.\<close>
theorem tier_state_agrees_with_cost:
  assumes "tier_state_for_quality q t = Inr s" "lower_usage_kwh q \<le> u" "u \<le> upper_usage_kwh q"
    and "tiered_cost u t r1 r2 d c = Inr k" "s \<noteq> Not_Confirmed"
  shows "(0 < tc_tier_2_usage_kwh k \<longleftrightarrow> s \<in> {Tier_2, Estimated_Tier_2}) \<and> fully_resolved q"
proof -
  have k: "tc_tier_2_usage_kwh k = max 0 (dec_sub u t)" using assms(4) by (simp add: tiered_cost_Inr_iff)
  have "fully_resolved q"
    using assms(1,5) by (auto simp: tier_state_for_quality_def fully_resolved_def split: if_splits)
  then show ?thesis
    using tier_state_confirmed [OF assms(1-3)] assms(5) tier_2_usage_pos_iff [of u t] unfolding k
    by (cases s) auto
qed

definition demo_quality :: energy_quality where
  "demo_quality = \<lparr>eq_measured_kwh = 11, eq_recovered_kwh = 0, eq_estimated_kwh = 1,
     eq_estimate_lower_kwh = 0, eq_estimate_upper_kwh = 2, eq_unknown_gap_count = 0,
     eq_unknown_gap_seconds = 0, eq_estimation_methods = [''interpolation'']\<rparr>"

theorem tier_state_agrees_with_cost_witness:
  "\<exists>k. tiered_cost 12 10 (3 / 10) (2 / 5) 30 (1 / 4) = Inr k \<and> 0 < tc_tier_2_usage_kwh k"
proof -
  obtain k where k: "tiered_cost 12 10 (3 / 10) (2 / 5) 30 (1 / 4) = Inr k"
    by (simp add: tiered_cost_Inr_iff)
  have "tier_state_for_quality demo_quality 10 = Inr Estimated_Tier_2"
    "lower_usage_kwh demo_quality \<le> 12" "12 \<le> upper_usage_kwh demo_quality"
    by code_simp+
  from tier_state_agrees_with_cost [OF this k] k show ?thesis by auto
qed

text \<open>Better coverage never lowers the confidence of an estimate, and every verdict carries a
  reason.\<close>
theorem estimate_confidence_monotone:
  assumes "estimate_confidence c q hi lo resets = Inr (a, ra)"
    and "estimate_confidence c' q hi lo resets = Inr (b, rb)" "c \<le> c'"
  shows "confidence_rank a \<le> confidence_rank b \<and> ra \<noteq> [] \<and> rb \<noteq> []"
  using assms estimate_confidence_mono estimate_confidence_reasons by blast

theorem estimate_confidence_monotone_witness:
  "confidence_rank Insufficient \<le> confidence_rank High"
proof -
  have "estimate_confidence (1 / 2) demo_quality (9 / 10) (3 / 4) 0
      = Inr (Insufficient, [''reading_coverage_below_minimum_threshold''])"
    "estimate_confidence 1 demo_quality (9 / 10) (3 / 4) 0
      = Inr (High, [''estimated_by_interpolation'', ''reading_coverage_at_or_above_high_threshold''])"
    by code_simp+
  from estimate_confidence_monotone [OF this] show ?thesis by simp
qed

text \<open>C40. A projection shows a figure only on reliable evidence: it is available exactly when it has
  a projected cost, and then the cycle has days, the reliable hours reach the minimum, no gap
  or counter reset is unresolved and the confidence is not insufficient.\<close>
theorem billing_projection_reliable:
  assumes "billing_projection i = Inr p"
  shows "(pj_available p \<longleftrightarrow> pj_projected p \<noteq> None) \<and> pj_confidence_reasons p \<noteq> []
    \<and> (pj_available p \<longrightarrow> 0 < pi_total_cycle_days i
         \<and> pi_minimum_reliable_hours i \<le> pi_reliable_elapsed_hours i
         \<and> pi_unresolved_counter_resets i = 0
         \<and> (case pi_unknown_gap_count i of None \<Rightarrow> pi_unresolved_connection_gaps i | Some n \<Rightarrow> n) = 0
         \<and> pj_confidence p \<in> {Some High, Some Moderate})"
  using assms
  by (auto simp: billing_projection_def bindE_simps Let_def estimate_confidence_def
        projection_quality_def split: if_splits)

definition demo_projection :: projection_inputs where
  "demo_projection = \<lparr>pi_reliable_usage_kwh = 48, pi_reliable_elapsed_hours = 96,
     pi_total_cycle_days = 30, pi_threshold_kwh = 300, pi_tier_1_rate = 3 / 10,
     pi_tier_2_rate = 2 / 5, pi_daily_service_charge = 1 / 4, pi_reading_coverage = 1,
     pi_unresolved_counter_resets = 0, pi_unresolved_connection_gaps = 0,
     pi_estimated_energy_kwh = 0, pi_unknown_gap_count = None, pi_minimum_reliable_hours = 24,
     pi_high_coverage = 19 / 20, pi_minimum_coverage = 3 / 4\<rparr>"

theorem billing_projection_reliable_witness:
  "\<exists>p. billing_projection demo_projection = Inr p \<and> pj_available p \<and> pj_projected p \<noteq> None"
proof -
  have "dec_div 96 24 = 4" "dec_mul (dec_div 48 4) 30 = 360" by code_simp+
  then have "\<exists>p. billing_projection demo_projection = Inr p \<and> pj_available p"
    by (simp add: billing_projection_def tiered_cost_def Let_def demo_projection_def estimate_confidence_def
        projection_quality_def projected_usage_def dec_divE_def)
  with billing_projection_reliable show ?thesis by blast
qed

end
