(* ===== verification/Device_Schema.thy ===== *)
theory Device_Schema
  imports PM_Json
begin

text \<open>
  The requests a sensor sends (\<open>backend/app/schemas/device.py\<close>): their fields, the field
  constraints and the model validators. A validator is a function into \<open>unit result\<close>; the
  violation of a declared field constraint is a \<open>ValueError\<close> as well. Fields that hold a
  literal type are strings constrained to its values.
\<close>

abbreviation refuse :: "string \<Rightarrow> unit result" where
  "refuse msg \<equiv> Inl (ValueError msg)"

abbreviation field_check :: "bool \<Rightarrow> unit result" where
  "field_check ok \<equiv> require ok (ValueError ''field constraint'')"

subsection \<open>Field constraints\<close>

fun opt_between :: "'a::linorder \<Rightarrow> 'a \<Rightarrow> 'a option \<Rightarrow> bool" where
  "opt_between lo hi None = True"
| "opt_between lo hi (Some x) = (lo \<le> x \<and> x \<le> hi)"

fun opt_ge :: "'a::linorder \<Rightarrow> 'a option \<Rightarrow> bool" where
  "opt_ge lo None = True"
| "opt_ge lo (Some x) = (lo \<le> x)"

definition len_between :: "nat \<Rightarrow> nat \<Rightarrow> 'a list \<Rightarrow> bool" where
  "len_between lo hi xs = (lo \<le> length xs \<and> length xs \<le> hi)"

definition opt_max_len :: "nat \<Rightarrow> string option \<Rightarrow> bool" where
  "opt_max_len n v = (case v of None \<Rightarrow> True | Some s \<Rightarrow> length s \<le> n)"

text \<open>The pattern \<open>^[0-9a-f]{64}$\<close>.\<close>

definition lower_hex :: "char \<Rightarrow> bool" where
  "lower_hex c = (c \<in> set ''0123456789abcdef'')"

definition hex64 :: "string \<Rightarrow> bool" where
  "hex64 s = (length s = 64 \<and> list_all lower_hex s)"

definition pzem_statuses :: "string list" where
  "pzem_statuses = [''ok'', ''timeout'', ''bad_crc'', ''short_frame'', ''wrong_address'', ''invalid'', ''absent'']"

definition storage_statuses :: "string list" where
  "storage_statuses = [''ok'', ''missing'', ''read_only'', ''full'', ''corrupt'', ''degraded'']"

definition time_statuses :: "string list" where
  "time_statuses = [''trusted'', ''untrusted'', ''stepped'', ''disputed'']"

definition energy_selections :: "string list" where
  "energy_selections =
     [''pzem_delta'', ''diagnostic_power_integration'', ''unavailable_reset'', ''unavailable_invalid'']"

definition loss_reasons :: "string list" where
  "loss_reasons = [''time_untrusted'', ''record_crc'', ''segment_corrupt'', ''operator_format'', ''storage_failure'']"

definition result_states :: "string list" where
  "result_states = [''accepted'', ''running'', ''succeeded'', ''failed'', ''awaiting_reboot'',
     ''awaiting_heartbeat'', ''rolled_back'']"

subsection \<open>Measurements and heartbeats\<close>

record electrical =
  el_voltage_v :: "decimal option"
  el_current_a :: "decimal option"
  el_active_power_w :: "decimal option"
  el_frequency_hz :: "decimal option"
  el_power_factor :: "decimal option"

definition electrical_fields :: "'a electrical_scheme \<Rightarrow> decimal option list" where
  "electrical_fields e = [el_voltage_v e, el_current_a e, el_active_power_w e, el_frequency_hz e,
     el_power_factor e]"

definition electrical_in_range :: "'a electrical_scheme \<Rightarrow> bool" where
  "electrical_in_range e \<longleftrightarrow>
     opt_between 0 300 (el_voltage_v e) \<and> opt_between 0 1000 (el_current_a e)
     \<and> opt_between 0 300000 (el_active_power_w e) \<and> opt_between 40 70 (el_frequency_hz e)
     \<and> opt_between 0 1 (el_power_factor e)"

record electrical_measurement = electrical +
  em_measured_at :: "pydatetime option"
  em_monotonic_us :: int
  em_pzem_energy_wh :: "int option"
  em_pzem_status :: string
  em_pzem_error_code :: "string option"

fun lacks_offset :: "pydatetime option \<Rightarrow> bool" where
  "lacks_offset (Some (Naive w)) = True"
| "lacks_offset _ = False"

definition validate_measurement :: "electrical_measurement \<Rightarrow> unit result" where
  "validate_measurement m =
     bindE (field_check (0 \<le> em_monotonic_us m \<and> electrical_in_range m
              \<and> opt_ge 0 (em_pzem_energy_wh m) \<and> em_pzem_status m \<in> set pzem_statuses
              \<and> opt_max_len 80 (em_pzem_error_code m))) (\<lambda>_.
     if lacks_offset (em_measured_at m)
     then refuse ''measurement timestamp must include a UTC offset''
     else if em_pzem_status m \<noteq> ''ok'' \<and> list_ex (\<lambda>v. v \<noteq> None) (electrical_fields m)
     then refuse ''electrical values must be null when PZEM status is not ok''
     else Inr ())"

record command_result =
  cm_command_id :: string
  cm_state :: string
  cm_progress_percent :: int
  cm_result_code :: string
  cm_evidence :: "(string \<times> json) list"

definition validate_command_result :: "command_result \<Rightarrow> unit result" where
  "validate_command_result r =
     field_check (length (cm_command_id r) = 36 \<and> cm_state r \<in> set result_states
       \<and> 0 \<le> cm_progress_percent r \<and> cm_progress_percent r \<le> 100
       \<and> len_between 1 80 (cm_result_code r)
       \<and> list_all (\<lambda>(k, v). case v of JStr _ \<Rightarrow> True | JInt _ \<Rightarrow> True | JBool _ \<Rightarrow> True
                     | JNull \<Rightarrow> True | _ \<Rightarrow> False) (cm_evidence r))"

record heartbeat_request =
  hb_protocol_id :: string
  hb_boot_id :: string
  hb_firmware_version :: string
  hb_firmware_build_id :: "string option"
  hb_measurement :: electrical_measurement
  hb_storage_status :: string
  hb_storage_bytes_total :: "int option"
  hb_storage_bytes_free :: "int option"
  hb_time_status :: string
  hb_wifi_rssi :: "int option"
  hb_ip_address :: "string option"
  hb_backlog :: int
  hb_oldest_sequence :: "int option"
  hb_newest_sequence :: "int option"
  hb_acknowledged_sequence :: int
  hb_free_internal_heap :: "int option"
  hb_largest_internal_block :: "int option"
  hb_task_stack_watermarks :: "(string \<times> int) list"
  hb_reboot_reason :: "string option"
  hb_health_flags :: "string list"
  hb_command_results :: "command_result list"

definition validate_heartbeat :: "heartbeat_request \<Rightarrow> unit result" where
  "validate_heartbeat h =
     bindE (validate_measurement (hb_measurement h)) (\<lambda>_.
     bindE (mapE validate_command_result (hb_command_results h)) (\<lambda>_.
     bindE (field_check (hb_protocol_id h = ''pm-protocol/1.0.0'' \<and> length (hb_boot_id h) = 36
              \<and> len_between 1 80 (hb_firmware_version h)
              \<and> (case hb_firmware_build_id h of None \<Rightarrow> True | Some b \<Rightarrow> hex64 b)
              \<and> hb_storage_status h \<in> set storage_statuses
              \<and> opt_ge 1 (hb_storage_bytes_total h) \<and> opt_ge 0 (hb_storage_bytes_free h)
              \<and> hb_time_status h \<in> set time_statuses \<and> opt_between (- 127) 0 (hb_wifi_rssi h)
              \<and> opt_max_len 45 (hb_ip_address h) \<and> 0 \<le> hb_backlog h
              \<and> opt_ge 1 (hb_oldest_sequence h) \<and> opt_ge 1 (hb_newest_sequence h)
              \<and> 0 \<le> hb_acknowledged_sequence h \<and> opt_ge 0 (hb_free_internal_heap h)
              \<and> opt_ge 0 (hb_largest_internal_block h) \<and> opt_max_len 80 (hb_reboot_reason h)
              \<and> length (hb_health_flags h) \<le> 32 \<and> length (hb_command_results h) \<le> 16)) (\<lambda>_.
     case (hb_storage_bytes_total h, hb_storage_bytes_free h) of
       (Some t, Some f) \<Rightarrow>
         if t = 0 \<or> t < f
         then refuse ''microSD capacity must be positive and free bytes cannot exceed total''
         else Inr ()
     | (None, None) \<Rightarrow> Inr ()
     | _ \<Rightarrow> refuse ''microSD total and free bytes must be reported together'')))"

subsection \<open>Durable readings\<close>

record durable_reading =
  dr_sequence :: int
  dr_reset_generation :: int
  dr_interval_start_utc :: "pydatetime option"
  dr_interval_end_utc :: "pydatetime option"
  dr_monotonic_start_us :: int
  dr_monotonic_end_us :: int
  dr_sample_count :: int
  dr_expected_sample_count :: int
  dr_voltage_mv :: "int option"
  dr_current_ma :: "int option"
  dr_active_power_mw :: "int option"
  dr_frequency_mhz :: "int option"
  dr_power_factor_milli :: "int option"
  dr_pzem_energy_wh :: "int option"
  dr_interval_energy_mwh :: "int option"
  dr_energy_selection :: string
  dr_pzem_status :: string
  dr_time_trusted :: bool
  dr_flags :: "string list"
  dr_record_crc32 :: int

definition unavailable_energy :: "durable_reading \<Rightarrow> bool" where
  "unavailable_energy r = (take 11 (dr_energy_selection r) = ''unavailable'')"

definition durable_reading_fields_ok :: "durable_reading \<Rightarrow> bool" where
  "durable_reading_fields_ok r \<longleftrightarrow>
     0 < dr_sequence r \<and> 0 \<le> dr_reset_generation r \<and> 0 \<le> dr_monotonic_start_us r
     \<and> 0 < dr_monotonic_end_us r \<and> 0 \<le> dr_sample_count r \<and> dr_sample_count r \<le> 3600
     \<and> 0 < dr_expected_sample_count r \<and> dr_expected_sample_count r \<le> 3600
     \<and> opt_between 0 300000 (dr_voltage_mv r) \<and> opt_between 0 1000000 (dr_current_ma r)
     \<and> opt_between 0 300000000 (dr_active_power_mw r) \<and> opt_between 40000 70000 (dr_frequency_mhz r)
     \<and> opt_between 0 1000 (dr_power_factor_milli r) \<and> opt_ge 0 (dr_pzem_energy_wh r)
     \<and> opt_ge 0 (dr_interval_energy_mwh r) \<and> dr_energy_selection r \<in> set energy_selections
     \<and> len_between 1 40 (dr_pzem_status r) \<and> length (dr_flags r) \<le> 32
     \<and> 0 \<le> dr_record_crc32 r \<and> dr_record_crc32 r \<le> 4294967295"

definition validate_reading_time :: "durable_reading \<Rightarrow> unit result" where
  "validate_reading_time r =
     (if dr_time_trusted r then
        (case (dr_interval_start_utc r, dr_interval_end_utc r) of
           (Some (Aware s), Some (Aware e)) \<Rightarrow>
             if e \<le> s then refuse ''UTC interval must be ordered'' else Inr ()
         | (Some _, Some _) \<Rightarrow> refuse ''trusted UTC interval timestamps must include an offset''
         | _ \<Rightarrow> refuse ''trusted records require UTC interval timestamps'')
      else if dr_interval_start_utc r \<noteq> None \<or> dr_interval_end_utc r \<noteq> None
      then refuse ''untrusted records must not fabricate UTC timestamps''
      else Inr ())"

definition validate_durable_reading :: "durable_reading \<Rightarrow> unit result" where
  "validate_durable_reading r =
     bindE (field_check (durable_reading_fields_ok r)) (\<lambda>_.
     if dr_monotonic_end_us r \<le> dr_monotonic_start_us r
     then refuse ''monotonic interval must be ordered''
     else if dr_expected_sample_count r < dr_sample_count r
     then refuse ''sample count cannot exceed expected sample count''
     else bindE (validate_reading_time r) (\<lambda>_.
       if unavailable_energy r \<and> dr_interval_energy_mwh r \<noteq> None
       then refuse ''unavailable energy must be null''
       else if \<not> unavailable_energy r \<and> dr_interval_energy_mwh r = None
       then refuse ''selected PZEM energy evidence requires interval energy''
       else if \<not> unavailable_energy r \<and> dr_pzem_status r \<noteq> ''ok''
       then refuse ''selected PZEM energy evidence requires an ok PZEM status''
       else if dr_energy_selection r = ''diagnostic_power_integration'' \<and> dr_active_power_mw r = None
       then refuse ''diagnostic PZEM power integration requires active power evidence''
       else Inr ()))"

record reading_batch_request =
  rb_protocol_id :: string
  rb_records :: "durable_reading list"

definition validate_reading_batch :: "reading_batch_request \<Rightarrow> unit result" where
  "validate_reading_batch b =
     bindE (mapE validate_durable_reading (rb_records b)) (\<lambda>_.
     bindE (field_check (rb_protocol_id b = ''pm-protocol/1.0.0''
              \<and> len_between 1 500 (rb_records b))) (\<lambda>_.
     let sequences = map dr_sequence (rb_records b) in
     if sequences \<noteq> sort sequences \<or> length sequences \<noteq> card (set sequences)
     then refuse ''records must have strictly increasing unique sequences''
     else Inr ()))"

subsection \<open>Permanent loss\<close>

record permanent_loss_range =
  pl_first_sequence :: int
  pl_last_sequence :: int
  pl_reason_code :: string
  pl_evidence_sha256 :: string

definition validate_loss_range :: "permanent_loss_range \<Rightarrow> unit result" where
  "validate_loss_range r =
     bindE (field_check (0 < pl_first_sequence r \<and> 0 < pl_last_sequence r
              \<and> pl_reason_code r \<in> set loss_reasons \<and> hex64 (pl_evidence_sha256 r))) (\<lambda>_.
     if pl_last_sequence r < pl_first_sequence r then refuse ''loss range must be ordered''
     else Inr ())"

record permanent_loss_request =
  pq_protocol_id :: string
  pq_ranges :: "permanent_loss_range list"

definition validate_loss_request :: "permanent_loss_request \<Rightarrow> unit result" where
  "validate_loss_request q =
     bindE (mapE validate_loss_range (pq_ranges q)) (\<lambda>_.
     bindE (field_check (pq_protocol_id q = ''pm-protocol/1.0.0'' \<and> len_between 1 100 (pq_ranges q))) (\<lambda>_.
     let ordered = sort_key (\<lambda>r. (pl_first_sequence r, pl_last_sequence r)) (pq_ranges q) in
     if list_ex (\<lambda>(prior, current). pl_first_sequence current \<le> pl_last_sequence prior)
          (pairwise ordered)
     then refuse ''permanent-loss ranges must not overlap''
     else Inr ()))"

subsection \<open>Stateless telemetry\<close>

record telemetry_request = electrical +
  tq_telemetry_protocol :: string
  tq_sensor_id :: string
  tq_boot_id :: string
  tq_sample_sequence :: int
  tq_sampled_at :: "pydatetime option"
  tq_uptime_ms :: int
  tq_pzem_energy_wh :: "int option"
  tq_pzem_status :: string
  tq_firmware_version :: string
  tq_firmware_build_id :: string
  tq_time_status :: string
  tq_wifi_rssi :: "int option"
  tq_command_results :: "command_result list"

definition validate_telemetry :: "telemetry_request \<Rightarrow> unit result" where
  "validate_telemetry q =
     bindE (mapE validate_command_result (tq_command_results q)) (\<lambda>_.
     bindE (field_check (tq_telemetry_protocol q = ''pm-telemetry/2.0.0''
              \<and> length (tq_sensor_id q) = 36 \<and> length (tq_boot_id q) = 36 \<and> 0 < tq_sample_sequence q
              \<and> 0 \<le> tq_uptime_ms q \<and> electrical_in_range q \<and> opt_ge 0 (tq_pzem_energy_wh q)
              \<and> tq_pzem_status q \<in> set pzem_statuses \<and> len_between 1 80 (tq_firmware_version q)
              \<and> hex64 (tq_firmware_build_id q) \<and> tq_time_status q \<in> set time_statuses
              \<and> opt_between (- 127) 0 (tq_wifi_rssi q) \<and> length (tq_command_results q) \<le> 16)) (\<lambda>_.
     if lacks_offset (tq_sampled_at q) then refuse ''sample timestamp must include a UTC offset''
     else if tq_pzem_status q = ''ok'' \<and> list_ex (\<lambda>v. v = None) (electrical_fields q)
     then refuse ''an ok PZEM sample requires all instantaneous electrical values''
     else if tq_pzem_status q \<noteq> ''ok''
             \<and> (list_ex (\<lambda>v. v \<noteq> None) (electrical_fields q) \<or> tq_pzem_energy_wh q \<noteq> None)
     then refuse ''invalid PZEM samples must not carry electrical values''
     else Inr ()))"

subsection \<open>What validation guarantees\<close>

lemma validate_durable_readingD:
  assumes "validate_durable_reading r = Inr ()"
  shows "0 < dr_sequence r" "0 \<le> dr_sample_count r" "dr_sample_count r \<le> dr_expected_sample_count r"
    "0 < dr_expected_sample_count r" "opt_ge 0 (dr_interval_energy_mwh r)"
    "dr_time_trusted r \<Longrightarrow> \<exists>s e. dr_interval_start_utc r = Some (Aware s)
        \<and> dr_interval_end_utc r = Some (Aware e) \<and> s < e"
    "\<not> dr_time_trusted r \<Longrightarrow> dr_interval_start_utc r = None \<and> dr_interval_end_utc r = None"
    "unavailable_energy r \<longleftrightarrow> dr_interval_energy_mwh r = None"
  using assms
  by (auto simp: validate_durable_reading_def bindE_simps durable_reading_fields_ok_def
        validate_reading_time_def split: if_splits option.splits pydatetime.splits)

lemma sorted_distinct_strict:
  "sorted xs \<Longrightarrow> distinct xs \<Longrightarrow> sorted_wrt (<) (xs :: 'a::linorder list)"
  by (simp add: strict_sorted_iff)

lemma validate_reading_batchD:
  assumes "validate_reading_batch b = Inr ()"
  shows "rb_records b \<noteq> []" "sorted_wrt (<) (map dr_sequence (rb_records b))"
    "\<forall>r\<in>set (rb_records b). validate_durable_reading r = Inr ()"
proof -
  let ?seqs = "map dr_sequence (rb_records b)"
  obtain us where us: "mapE validate_durable_reading (rb_records b) = Inr us"
    and rest: "len_between 1 500 (rb_records b)" "?seqs = sort ?seqs" "length ?seqs = card (set ?seqs)"
    using assms by (auto simp: validate_reading_batch_def bindE_simps Let_def split: if_splits)
  show "rb_records b \<noteq> []" using rest(1) by (auto simp: len_between_def)
  have "sorted ?seqs" "distinct ?seqs" using rest(2,3) by (metis sorted_sort, metis card_distinct)
  then show "sorted_wrt (<) ?seqs" by (rule sorted_distinct_strict)
  show "\<forall>r\<in>set (rb_records b). validate_durable_reading r = Inr ()"
    using mapE_Inr_ballD [OF us] by simp
qed

lemma validate_loss_rangeD:
  "validate_loss_range r = Inr () \<Longrightarrow> 0 < pl_first_sequence r \<and> pl_first_sequence r \<le> pl_last_sequence r"
  by (auto simp: validate_loss_range_def bindE_simps split: if_splits)

end
