(* ===== verification/Telemetry_Store.thy ===== *)
theory Telemetry_Store
  imports Device_Schema
begin

text \<open>
  The tables that the two ingestion paths share (\<open>backend/app/models.py\<close>) as a record of
  lists of rows, with the columns the modelled operations read or write. A row id drawn by
  \<open>new_uuid\<close> is the number of its draw, since the program uses only that drawn ids differ;
  devices, homes and accounts have the ids they were created with. Check and unique constraints
  are tested when a row is inserted or updated, where a violation makes the flush raise
  \<open>IntegrityError\<close>. Timestamps of stored rows are instants. The fixed scale of a numeric
  column is not modelled: a stored decimal is the value that was assigned.
\<close>

type_synonym row_id = nat

subsection \<open>Rows\<close>

record device =
  dv_id :: string
  dv_home_id :: string
  dv_circuit_id :: "string option"
  dv_include_in_aggregate :: bool
  dv_firmware_version :: "string option"
  dv_revoked_at :: "instant option"
  dv_last_heartbeat_at :: "instant option"
  dv_contiguous_ack :: int
  dv_maximum_sequence :: int
  dv_reset_generation :: int

record raw_reading =
  rr_id :: row_id
  rr_device_id :: string
  rr_record :: durable_reading
  rr_payload_sha256 :: string

abbreviation rr_sequence :: "raw_reading \<Rightarrow> int" where
  "rr_sequence r \<equiv> dr_sequence (rr_record r)"

record loss_range =
  lr_device_id :: string
  lr_first_sequence :: int
  lr_last_sequence :: int
  lr_reason_code :: string
  lr_evidence_sha256 :: string

record normalized_interval =
  ni_id :: row_id
  ni_device_id :: string
  ni_raw_reading_id :: "row_id option"
  ni_start_utc :: instant
  ni_end_utc :: instant
  ni_energy_mwh :: "int option"
  ni_average_power_mw :: "int option"
  ni_completeness :: decimal
  ni_energy_selection :: string
  ni_algorithm_version :: string
  ni_source_authenticated :: bool
  ni_source_kind :: string
  ni_minimum_power_mw :: "int option"
  ni_maximum_power_mw :: "int option"
  ni_ending_voltage_mv :: "int option"
  ni_ending_current_ma :: "int option"
  ni_average_frequency_mhz :: "int option"
  ni_average_power_factor_milli :: "int option"
  ni_received_sample_count :: int
  ni_expected_sample_count :: int
  ni_gap_status :: string
  ni_finalized :: bool
  ni_last_received_at :: "instant option"

record utility_account =
  ua_id :: string
  ua_home_id :: string
  ua_timezone :: string
  ua_billing_day :: int
  ua_estimate_min_coverage :: decimal
  ua_max_estimatable_gap_seconds :: int

record interval_cost_selection =
  is_normalized_interval_id :: row_id
  is_interval_cost_id :: row_id

text \<open>A priced interval; its row keeps the interval from being deleted.\<close>

record interval_cost =
  ic_normalized_interval_id :: row_id
  ic_energy_mwh :: int
  ic_energy_cost_microdollars :: int
  ic_credit_microdollars :: int

record billing_estimate_selection =
  bs_utility_account_id :: string
  bs_estimate_kind :: string
  bs_scope_kind :: string
  bs_scope_id :: string
  bs_billing_estimate_id :: row_id

record telemetry_setting =
  ts_home_id :: string
  ts_config_version :: int
  ts_telemetry_interval_seconds :: int
  ts_history_interval_seconds :: int
  ts_retention_days :: "int option"

record telemetry_sample = electrical +
  sm_id :: row_id
  sm_device_id :: string
  sm_boot_id :: string
  sm_sample_sequence :: int
  sm_telemetry_protocol :: string
  sm_sampled_at :: "instant option"
  sm_received_at :: instant
  sm_effective_at :: instant
  sm_sensor_time_trusted :: bool
  sm_uptime_ms :: int
  sm_pzem_energy_wh :: "int option"
  sm_pzem_status :: string
  sm_firmware_version :: string
  sm_firmware_build_id :: string
  sm_time_status :: string
  sm_wifi_rssi :: "int option"
  sm_payload_sha256 :: string

record device_telemetry_state =
  dt_device_id :: string
  dt_latest_sample_id :: row_id
  dt_latest_server_received_at :: instant
  dt_latest_sensor_sampled_at :: "instant option"
  dt_sensor_time_trusted :: bool
  dt_timestamp_source :: string
  dt_telemetry_protocol :: string
  dt_firmware_version :: string
  dt_firmware_build_id :: string

record telemetry_cutover =
  tc_device_id :: string
  tc_old_protocol :: string
  tc_new_protocol :: string
  tc_cutover_at :: instant
  tc_first_sample_id :: row_id
  tc_firmware_version :: string
  tc_firmware_build_id :: string

record energy_event =
  ee_home_id :: string
  ee_device_id :: string
  ee_sample_id :: row_id
  ee_event_type :: string
  ee_gap_start_utc :: "instant option"
  ee_gap_end_utc :: "instant option"
  ee_prior_energy_wh :: "int option"
  ee_current_energy_wh :: "int option"
  ee_recovered_energy_mwh :: "int option"
  ee_billing_status :: string
  ee_evidence :: "(string \<times> json) list"

record alert =
  al_home_id :: string
  al_device_id :: string
  al_alert_type :: string
  al_severity :: string
  al_state :: string
  al_opened_at :: instant
  al_evidence :: "(string \<times> json) list"

record circuit =
  ci_id :: string
  ci_home_id :: string
  ci_is_home_total :: bool
  ci_is_billing_source :: bool
  ci_non_overlapping_confirmed :: bool
  ci_aggregate_mode :: string

record cycle_adjustment =
  ca_utility_account_id :: string
  ca_cycle_start_utc :: instant
  ca_energy_mwh :: int
  ca_reason :: string
  ca_evidence :: "(string \<times> json) list"

text \<open>The devices are kept by id, with the list of the ids that are in use.\<close>

record store =
  st_device_ids :: "string list"
  st_devices :: "string \<Rightarrow> device option"
  st_homes :: "string list"
  st_accounts :: "utility_account list"
  st_circuits :: "circuit list"
  st_adjustments :: "cycle_adjustment list"
  st_readings :: "raw_reading list"
  st_losses :: "loss_range list"
  st_intervals :: "normalized_interval list"
  st_interval_costs :: "interval_cost list"
  st_cost_selections :: "interval_cost_selection list"
  st_billing_selections :: "billing_estimate_selection list"
  st_settings :: "telemetry_setting list"
  st_samples :: "telemetry_sample list"
  st_states :: "device_telemetry_state list"
  st_cutovers :: "telemetry_cutover list"
  st_events :: "energy_event list"
  st_alerts :: "alert list"
  st_next_id :: row_id

subsection \<open>Constraints\<close>

definition raw_reading_constraints :: "store \<Rightarrow> raw_reading \<Rightarrow> bool" where
  "raw_reading_constraints s r \<longleftrightarrow>
     \<not> list_ex (\<lambda>x. rr_device_id x = rr_device_id r \<and> rr_sequence x = rr_sequence r) (st_readings s)
     \<and> 0 < rr_sequence r
     \<and> 0 \<le> dr_sample_count (rr_record r) \<and> 0 < dr_expected_sample_count (rr_record r)
     \<and> dr_sample_count (rr_record r) \<le> dr_expected_sample_count (rr_record r)
     \<and> opt_ge 0 (dr_interval_energy_mwh (rr_record r))"

definition loss_constraints :: "store \<Rightarrow> loss_range \<Rightarrow> bool" where
  "loss_constraints s l \<longleftrightarrow>
     \<not> list_ex (\<lambda>x. lr_device_id x = lr_device_id l \<and> lr_first_sequence x = lr_first_sequence l
          \<and> lr_last_sequence x = lr_last_sequence l) (st_losses s)
     \<and> 0 < lr_first_sequence l \<and> lr_first_sequence l \<le> lr_last_sequence l"

text \<open>The row constraints of \<open>normalized_intervals\<close>.\<close>

definition interval_constraints :: "normalized_interval \<Rightarrow> bool" where
  "interval_constraints i \<longleftrightarrow>
     ni_start_utc i < ni_end_utc i \<and> opt_ge 0 (ni_energy_mwh i)
     \<and> 0 \<le> ni_completeness i \<and> ni_completeness i \<le> 1 \<and> ni_source_authenticated i
     \<and> ni_source_kind i \<in> {''legacy_durable'', ''stateless_v2''}
     \<and> (ni_source_kind i = ''legacy_durable'' \<longleftrightarrow> ni_raw_reading_id i \<noteq> None)
     \<and> 0 \<le> ni_received_sample_count i \<and> 0 < ni_expected_sample_count i
     \<and> ni_received_sample_count i \<le> ni_expected_sample_count i
     \<and> ni_gap_status i \<in> {''complete'', ''partial'', ''connection_gap''}"

text \<open>Its unique constraints: one interval per reading, one stateless bucket per start.\<close>

definition interval_unique :: "store \<Rightarrow> normalized_interval \<Rightarrow> bool" where
  "interval_unique s i \<longleftrightarrow>
     \<not> list_ex (\<lambda>x. ni_raw_reading_id i \<noteq> None \<and> ni_raw_reading_id x = ni_raw_reading_id i
          \<or> ni_source_kind i = ''stateless_v2'' \<and> ni_source_kind x = ''stateless_v2''
            \<and> ni_device_id x = ni_device_id i \<and> ni_start_utc x = ni_start_utc i) (st_intervals s)"

definition telemetry_setting_constraints :: "telemetry_setting \<Rightarrow> bool" where
  "telemetry_setting_constraints t \<longleftrightarrow>
     ts_telemetry_interval_seconds t \<in> {2, 5, 10, 15, 30, 60}
     \<and> ts_history_interval_seconds t \<in> {15, 30, 60, 300, 900}
     \<and> (case ts_retention_days t of None \<Rightarrow> True | Some d \<Rightarrow> d \<in> {30, 90, 180, 365})
     \<and> 0 < ts_config_version t"

definition telemetry_sample_constraints :: "store \<Rightarrow> telemetry_sample \<Rightarrow> bool" where
  "telemetry_sample_constraints s x \<longleftrightarrow>
     \<not> list_ex (\<lambda>y. sm_device_id y = sm_device_id x \<and> sm_boot_id y = sm_boot_id x
          \<and> sm_sample_sequence y = sm_sample_sequence x) (st_samples s)
     \<and> 0 < sm_sample_sequence x \<and> 0 \<le> sm_uptime_ms x \<and> opt_ge 0 (sm_pzem_energy_wh x)"

definition energy_event_constraints :: "energy_event \<Rightarrow> bool" where
  "energy_event_constraints e \<longleftrightarrow>
     ee_event_type e \<in> {''connection_gap_recovered'', ''connection_gap_unresolved'', ''counter_reset''}
     \<and> ee_billing_status e \<in> {''included'', ''unresolved'', ''excluded''}
     \<and> opt_ge 0 (ee_recovered_energy_mwh e)"

subsection \<open>Row operations\<close>

definition put_device :: "device \<Rightarrow> store \<Rightarrow> store" where
  "put_device d s = s \<lparr>st_devices := (st_devices s)(dv_id d := Some d)\<rparr>"

definition insert_reading :: "raw_reading \<Rightarrow> store \<Rightarrow> store result" where
  "insert_reading r s =
     (if raw_reading_constraints s r
      then Inr (s \<lparr>st_readings := st_readings s @ [r], st_next_id := Suc (st_next_id s)\<rparr>)
      else Inl IntegrityError)"

definition insert_loss :: "loss_range \<Rightarrow> store \<Rightarrow> store result" where
  "insert_loss l s =
     (if loss_constraints s l then Inr (s \<lparr>st_losses := st_losses s @ [l]\<rparr>) else Inl IntegrityError)"

definition insert_interval :: "normalized_interval \<Rightarrow> store \<Rightarrow> store result" where
  "insert_interval i s =
     (if interval_constraints i \<and> interval_unique s i
      then Inr (s \<lparr>st_intervals := st_intervals s @ [i], st_next_id := Suc (st_next_id s)\<rparr>)
      else Inl IntegrityError)"

definition insert_sample :: "telemetry_sample \<Rightarrow> store \<Rightarrow> store result" where
  "insert_sample x s =
     (if telemetry_sample_constraints s x
      then Inr (s \<lparr>st_samples := st_samples s @ [x], st_next_id := Suc (st_next_id s)\<rparr>)
      else Inl IntegrityError)"

definition insert_event :: "energy_event \<Rightarrow> store \<Rightarrow> store result" where
  "insert_event e s =
     (if energy_event_constraints e then Inr (s \<lparr>st_events := st_events s @ [e]\<rparr>)
      else Inl IntegrityError)"

text \<open>A changed row replaces the one with its id when it is flushed.\<close>

definition update_interval :: "normalized_interval \<Rightarrow> store \<Rightarrow> store result" where
  "update_interval i s =
     (if interval_constraints i
      then Inr (s \<lparr>st_intervals := map (\<lambda>x. if ni_id x = ni_id i then i else x) (st_intervals s)\<rparr>)
      else Inl IntegrityError)"

text \<open>\<open>select ... where id = device_id and revoked_at is null ... with_for_update\<close>.\<close>

definition get_device_for_update :: "store \<Rightarrow> string \<Rightarrow> device result" where
  "get_device_for_update s device_id =
     (case st_devices s device_id of
        Some d \<Rightarrow> if dv_revoked_at d = None then Inr d else Inl (NotFound ''active device does not exist'')
      | None \<Rightarrow> Inl (NotFound ''active device does not exist''))"

text \<open>The two statements that drop mutable cost selections.\<close>

definition delete_cost_selections :: "(row_id \<Rightarrow> bool) \<Rightarrow> store \<Rightarrow> store" where
  "delete_cost_selections affected s = s \<lparr>st_cost_selections :=
     filter (\<lambda>x. \<not> affected (is_normalized_interval_id x)) (st_cost_selections s)\<rparr>"

definition delete_billing_selections :: "string \<Rightarrow> store \<Rightarrow> store" where
  "delete_billing_selections home_id s = s \<lparr>st_billing_selections :=
     filter (\<lambda>x. \<not> list_ex (\<lambda>a. ua_home_id a = home_id \<and> ua_id a = bs_utility_account_id x)
                   (st_accounts s)) (st_billing_selections s)\<rparr>"

text \<open>Devices are stored under their own id.\<close>

definition store_keys :: "store \<Rightarrow> bool" where
  "store_keys s \<longleftrightarrow> (\<forall>k d. st_devices s k = Some d \<longrightarrow> dv_id d = k)"

lemma get_device_for_update_Inr [bindE_simps]:
  "get_device_for_update s k = Inr d \<longleftrightarrow> st_devices s k = Some d \<and> dv_revoked_at d = None"
  by (auto simp: get_device_for_update_def split: option.splits)

lemma store_keys_put_device: "store_keys s \<Longrightarrow> store_keys (put_device d s)"
  by (auto simp: store_keys_def put_device_def)

end
