(* ===== verification/Ingestion.thy ===== *)
theory Ingestion
  imports Telemetry_Store
begin

text \<open>
  \<open>backend/app/services/ingestion.py\<close>: the sequence-numbered ingestion of durable readings,
  the evidence of permanent loss, and the acknowledgement cursor with its gaps. An operation
  returns the exception it raises, in which case the request's transaction is rolled back, or
  its result with the new store. The payload hash is a parameter.
\<close>

subsection \<open>Coverage and the cursor\<close>

definition coverage :: "store \<Rightarrow> string \<Rightarrow> int \<Rightarrow> (int \<times> int) list" where
  "coverage s device_id after =
     sort (map (\<lambda>q. (q, q)) (sort (filter (\<lambda>q. after < q)
              (map rr_sequence (filter (\<lambda>r. rr_device_id r = device_id) (st_readings s)))))
           @ map (\<lambda>l. (lr_first_sequence l, lr_last_sequence l))
               (sort_key lr_first_sequence (filter (\<lambda>l. lr_device_id l = device_id
                  \<and> after < lr_last_sequence l) (st_losses s))))"

fun advance_over :: "int \<Rightarrow> (int \<times> int) list \<Rightarrow> int" where
  "advance_over cursor [] = cursor"
| "advance_over cursor ((start, end_v) # rs) =
     (if end_v \<le> cursor then advance_over cursor rs
      else if cursor + 1 < start then cursor
      else advance_over (max cursor end_v) rs)"

definition advance_contiguous_cursor :: "store \<Rightarrow> device \<Rightarrow> (int \<times> store) result" where
  "advance_contiguous_cursor s d =
     (let cursor = advance_over (dv_contiguous_ack d) (coverage s (dv_id d) (dv_contiguous_ack d)) in
      if cursor < dv_contiguous_ack d
      then Inl (IntegrityConflict ''acknowledgement regression is forbidden'')
      else Inr (cursor, put_device (d \<lparr>dv_contiguous_ack := cursor\<rparr>) s))"

text \<open>The scan of \<open>find_gaps\<close>: the gaps collected so far and the next expected sequence.\<close>

fun gap_scan :: "nat \<Rightarrow> int \<Rightarrow> (int \<times> int) list \<Rightarrow> int \<Rightarrow> (int \<times> int) list \<Rightarrow> (int \<times> int) list" where
  "gap_scan limit maximum gaps expected [] =
     (if expected \<le> maximum \<and> length gaps < limit then gaps @ [(expected, maximum)] else gaps)"
| "gap_scan limit maximum gaps expected ((start, end_v) # rs) =
     (if expected < start then
        let gaps' = gaps @ [(expected, start - 1)] in
        if limit \<le> length gaps' then gaps'
        else gap_scan limit maximum gaps' (max expected (end_v + 1)) rs
      else gap_scan limit maximum gaps (max expected (end_v + 1)) rs)"

definition find_gaps :: "store \<Rightarrow> device \<Rightarrow> nat \<Rightarrow> (int \<times> int) list" where
  "find_gaps s d limit =
     (if dv_maximum_sequence d \<le> dv_contiguous_ack d then []
      else gap_scan limit (dv_maximum_sequence d) [] (dv_contiguous_ack d + 1)
             (coverage s (dv_id d) (dv_contiguous_ack d)))"

record ingestion_result =
  ir_accepted :: nat
  ir_identical_retries :: nat
  ir_highest_contiguous_sequence :: int
  ir_gaps :: "(int \<times> int) list"

text \<open>The end both operations share: advance the cursor, list at most 100 gaps.\<close>

definition acknowledge :: "nat \<Rightarrow> nat \<Rightarrow> device \<Rightarrow> store \<Rightarrow> (ingestion_result \<times> store) result" where
  "acknowledge accepted identical d s =
     bindE (advance_contiguous_cursor s d) (\<lambda>(acknowledgement, s').
       Inr (\<lparr>ir_accepted = accepted, ir_identical_retries = identical,
             ir_highest_contiguous_sequence = acknowledgement,
             ir_gaps = find_gaps s' (d \<lparr>dv_contiguous_ack := acknowledgement\<rparr>) 100\<rparr>, s'))"

subsection \<open>Readings\<close>

definition max_future_time_us :: int where
  "max_future_time_us = 300 * second_us"

text \<open>The interval a trusted reading with energy contributes.\<close>

definition normalized_of_record :: "row_id \<Rightarrow> row_id \<Rightarrow> string \<Rightarrow> durable_reading
    \<Rightarrow> normalized_interval option result" where
  "normalized_of_record new_id reading_id device_id r =
     (case (dr_time_trusted r, dr_interval_energy_mwh r, dr_interval_start_utc r,
            dr_interval_end_utc r, unavailable_energy r) of
        (True, Some energy, Some start_dt, Some end_dt, False) \<Rightarrow>
          let start = aware_utc start_dt; end_t = aware_utc end_dt; duration_us = end_t - start in
          bindE (dec_divE (of_int (dr_sample_count r)) (of_int (dr_expected_sample_count r)))
            (\<lambda>completeness.
          Inr (Some \<lparr>ni_id = new_id, ni_device_id = device_id, ni_raw_reading_id = Some reading_id,
            ni_start_utc = start, ni_end_utc = end_t, ni_energy_mwh = Some energy,
            ni_average_power_mw =
              (if 0 < duration_us then Some (energy * 3600000000 div duration_us) else None),
            ni_completeness = completeness, ni_energy_selection = dr_energy_selection r,
            ni_algorithm_version = ''normalize-v1'', ni_source_authenticated = True,
            ni_source_kind = ''legacy_durable'', ni_minimum_power_mw = None,
            ni_maximum_power_mw = None, ni_ending_voltage_mv = None, ni_ending_current_ma = None,
            ni_average_frequency_mhz = None, ni_average_power_factor_milli = None,
            ni_received_sample_count = 1, ni_expected_sample_count = 1,
            ni_gap_status = ''complete'', ni_finalized = True, ni_last_received_at = None\<rparr>))
      | _ \<Rightarrow> Inr None)"

record batch_state =
  bt_store :: store
  bt_accepted :: nat
  bt_identical :: nat
  bt_earliest :: "instant option"

definition earliest_of :: "instant option \<Rightarrow> instant \<Rightarrow> instant option" where
  "earliest_of e t = (case e of None \<Rightarrow> Some t | Some x \<Rightarrow> Some (if t < x then t else x))"

definition store_reading :: "string \<Rightarrow> string \<Rightarrow> durable_reading \<Rightarrow> batch_state \<Rightarrow> batch_state result" where
  "store_reading device_id payload_hash r b =
     (let s = bt_store b; reading_id = st_next_id s in
      bindE (insert_reading \<lparr>rr_id = reading_id, rr_device_id = device_id, rr_record = r,
                             rr_payload_sha256 = payload_hash\<rparr> s) (\<lambda>s1.
      bindE (normalized_of_record (st_next_id s1) reading_id device_id r) (\<lambda>ni.
      case ni of
        None \<Rightarrow> Inr (b \<lparr>bt_store := s1, bt_accepted := Suc (bt_accepted b)\<rparr>)
      | Some i \<Rightarrow>
          bindE (insert_interval i s1) (\<lambda>s2.
            Inr (b \<lparr>bt_store := s2, bt_accepted := Suc (bt_accepted b),
                    bt_earliest := earliest_of (bt_earliest b) (ni_start_utc i)\<rparr>)))))"

definition ingest_record ::
  "(durable_reading \<Rightarrow> string) \<Rightarrow> device \<Rightarrow> instant \<Rightarrow> raw_reading list \<Rightarrow> loss_range list
     \<Rightarrow> durable_reading \<Rightarrow> batch_state \<Rightarrow> batch_state result" where
  "ingest_record reading_payload_hash d accepted_now existing loss_ranges r b =
     (if (case dr_interval_end_utc r of None \<Rightarrow> False
          | Some e \<Rightarrow> accepted_now + max_future_time_us < aware_utc e)
      then Inl (IntegrityConflict ''reading timestamp is unacceptably far in the future'')
      else
        let payload_hash = reading_payload_hash r in
        case find (\<lambda>x. rr_sequence x = dr_sequence r) existing of
          Some prior \<Rightarrow>
            if rr_payload_sha256 prior \<noteq> payload_hash
            then Inl (IntegrityConflict ''sequence was previously committed with different content'')
            else Inr (b \<lparr>bt_identical := Suc (bt_identical b)\<rparr>)
        | None \<Rightarrow>
            if dr_reset_generation r \<noteq> dv_reset_generation d
            then Inl (IntegrityConflict ''sequence belongs to another reset generation'')
            else if list_ex (\<lambda>l. lr_first_sequence l \<le> dr_sequence r
                              \<and> dr_sequence r \<le> lr_last_sequence l) loss_ranges
            then Inl (IntegrityConflict ''sequence is covered by authenticated permanent-loss evidence'')
            else store_reading (dv_id d) payload_hash r b)"

text \<open>The mutable selections that a newly inserted interval puts out of date.\<close>

definition invalidate_from :: "string \<Rightarrow> instant option \<Rightarrow> store \<Rightarrow> store" where
  "invalidate_from home_id earliest s =
     (case earliest of None \<Rightarrow> s
      | Some t \<Rightarrow>
          delete_billing_selections home_id
            (delete_cost_selections (\<lambda>i. list_ex (\<lambda>n. ni_id n = i \<and> t \<le> ni_start_utc n
               \<and> (case st_devices s (ni_device_id n) of None \<Rightarrow> False
                   | Some x \<Rightarrow> dv_home_id x = home_id)) (st_intervals s)) s))"

definition ingest_batch ::
  "(durable_reading \<Rightarrow> string) \<Rightarrow> string \<Rightarrow> reading_batch_request \<Rightarrow> instant \<Rightarrow> store
     \<Rightarrow> (ingestion_result \<times> store) result" where
  "ingest_batch reading_payload_hash device_id batch now s =
     bindE (get_device_for_update s device_id) (\<lambda>d.
     let sequences = map dr_sequence (rb_records batch);
         existing = filter (\<lambda>r. rr_device_id r = device_id \<and> rr_sequence r \<in> set sequences)
                      (st_readings s)
     in if sequences = [] then Inl (ValueError ''max() iterable argument is empty'')
     else
     let loss_ranges = filter (\<lambda>l. lr_device_id l = device_id
           \<and> lr_first_sequence l \<le> Max (set sequences) \<and> Min (set sequences) \<le> lr_last_sequence l)
           (st_losses s)
     in bindE (foldE (ingest_record reading_payload_hash d now existing loss_ranges)
                 (rb_records batch)
                 \<lparr>bt_store = s, bt_accepted = 0, bt_identical = 0, bt_earliest = None\<rparr>) (\<lambda>b.
     let d' = d \<lparr>dv_maximum_sequence := max (dv_maximum_sequence d) (Max (set sequences))\<rparr>;
         s' = invalidate_from (dv_home_id d) (bt_earliest b) (put_device d' (bt_store b))
     in acknowledge (bt_accepted b) (bt_identical b) d' s'))"

subsection \<open>Permanent loss\<close>

definition loss_item :: "string \<Rightarrow> permanent_loss_range \<Rightarrow> nat \<times> device \<times> store
    \<Rightarrow> (nat \<times> device \<times> store) result" where
  "loss_item device_id item acc =
     (case acc of (accepted, d, s) \<Rightarrow>
      if list_ex (\<lambda>r. rr_device_id r = device_id \<and> pl_first_sequence item \<le> rr_sequence r
           \<and> rr_sequence r \<le> pl_last_sequence item) (st_readings s)
      then Inl (IntegrityConflict ''permanent-loss range overlaps a committed reading'')
      else
        (case find (\<lambda>l. lr_device_id l = device_id \<and> lr_first_sequence l = pl_first_sequence item
                 \<and> lr_last_sequence l = pl_last_sequence item) (st_losses s) of
           Some prior \<Rightarrow>
             if lr_evidence_sha256 prior \<noteq> pl_evidence_sha256 item
                \<or> lr_reason_code prior \<noteq> pl_reason_code item
             then Inl (IntegrityConflict ''permanent-loss range conflicts with prior evidence'')
             else Inr (accepted, d, s)
         | None \<Rightarrow>
             if list_ex (\<lambda>l. lr_device_id l = device_id \<and> lr_first_sequence l \<le> pl_last_sequence item
                  \<and> pl_first_sequence item \<le> lr_last_sequence l) (st_losses s)
             then Inl (IntegrityConflict ''permanent-loss range overlaps prior evidence'')
             else
               bindE (insert_loss \<lparr>lr_device_id = device_id,
                        lr_first_sequence = pl_first_sequence item,
                        lr_last_sequence = pl_last_sequence item,
                        lr_reason_code = pl_reason_code item,
                        lr_evidence_sha256 = pl_evidence_sha256 item\<rparr> s) (\<lambda>s'.
                 Inr (Suc accepted, d \<lparr>dv_maximum_sequence :=
                        max (dv_maximum_sequence d) (pl_last_sequence item)\<rparr>, s'))))"

definition record_permanent_loss ::
  "string \<Rightarrow> permanent_loss_range list \<Rightarrow> store \<Rightarrow> (ingestion_result \<times> store) result" where
  "record_permanent_loss device_id ranges s =
     bindE (get_device_for_update s device_id) (\<lambda>d.
     bindE (foldE (loss_item device_id) ranges (0, d, s)) (\<lambda>(accepted, d', s').
       acknowledge accepted 0 d' (put_device d' s')))"

subsection \<open>What is covered\<close>

definition in_ranges :: "(int \<times> int) list \<Rightarrow> int \<Rightarrow> bool" where
  "in_ranges rs n \<longleftrightarrow> (\<exists>(x, y)\<in>set rs. x \<le> n \<and> n \<le> y)"

lemma in_ranges_simps [simp]:
  "in_ranges [] n \<longleftrightarrow> False"
  "in_ranges ((x, y) # rs) n \<longleftrightarrow> x \<le> n \<and> n \<le> y \<or> in_ranges rs n"
  "in_ranges (rs @ rs') n \<longleftrightarrow> in_ranges rs n \<or> in_ranges rs' n"
  by (auto simp: in_ranges_def)

text \<open>A sequence number is covered by a stored reading or by evidence of its loss.\<close>

definition covered :: "store \<Rightarrow> string \<Rightarrow> int \<Rightarrow> bool" where
  "covered s device_id n \<longleftrightarrow>
     (\<exists>r\<in>set (st_readings s). rr_device_id r = device_id \<and> rr_sequence r = n) \<or>
     (\<exists>l\<in>set (st_losses s). lr_device_id l = device_id \<and> lr_first_sequence l \<le> n
        \<and> n \<le> lr_last_sequence l)"

lemma coverage_covered: "a < n \<Longrightarrow> in_ranges (coverage s device_id a) n \<longleftrightarrow> covered s device_id n"
  by (auto simp: in_ranges_def coverage_def covered_def)

lemma coverage_sorted: "sorted (map fst (coverage s device_id a))"
proof -
  have "sorted (coverage s device_id a)" by (simp add: coverage_def)
  then show ?thesis unfolding sorted_map
    by (rule sorted_wrt_mono_rel [rotated]) (auto simp: less_eq_prod_def)
qed

text \<open>The cursor stops at the last sequence of the contiguous run it starts.\<close>

lemma advance_over_correct:
  assumes "sorted (map fst rs)"
  shows "c \<le> advance_over c rs \<and> (\<forall>n. c < n \<and> n \<le> advance_over c rs \<longrightarrow> in_ranges rs n)
    \<and> \<not> in_ranges rs (advance_over c rs + 1)"
  using assms
proof (induction c rs rule: advance_over.induct)
  case (2 c x y rs)
  have later: "\<forall>(x', y')\<in>set rs. x \<le> x'" using "2.prems" by auto
  consider "y \<le> c" | "c < y" "c + 1 < x" | "c < y" "x \<le> c + 1" by linarith
  then show ?case
  proof cases
    case 1
    then show ?thesis using 2 by auto
  next
    case 2
    then show ?thesis using later by (auto simp: in_ranges_def)
  next
    case 3
    then have "max c y = y" by simp
    with 3 "2.IH"(2) "2.prems" have ih: "y \<le> advance_over y rs"
      "\<forall>n. y < n \<and> n \<le> advance_over y rs \<longrightarrow> in_ranges rs n" "\<not> in_ranges rs (advance_over y rs + 1)"
      by auto
    have "in_ranges ((x, y) # rs) n" if "c < n" "n \<le> advance_over y rs" for n
      using that ih(2) 3 by (cases "n \<le> y") auto
    then show ?thesis using 3 ih \<open>max c y = y\<close> by auto
  qed
qed auto

subsection \<open>The gaps\<close>

text \<open>All gaps between \<open>expected\<close> and \<open>maximum\<close>, without a limit.\<close>

fun all_gaps :: "int \<Rightarrow> int \<Rightarrow> (int \<times> int) list \<Rightarrow> (int \<times> int) list" where
  "all_gaps maximum expected [] = (if expected \<le> maximum then [(expected, maximum)] else [])"
| "all_gaps maximum expected ((start, end_v) # rs) =
     (if expected < start then [(expected, start - 1)] else [])
     @ all_gaps maximum (max expected (end_v + 1)) rs"

lemma gap_scan_take:
  "length gaps < limit \<Longrightarrow>
     gap_scan limit maximum gaps expected rs = take limit (gaps @ all_gaps maximum expected rs)"
  by (induction limit maximum gaps expected rs rule: gap_scan.induct) (auto simp: Let_def take_Cons')

lemma find_gaps_take:
  "0 < limit \<Longrightarrow> find_gaps s d limit =
     (if dv_maximum_sequence d \<le> dv_contiguous_ack d then []
      else take limit (all_gaps (dv_maximum_sequence d) (dv_contiguous_ack d + 1)
        (coverage s (dv_id d) (dv_contiguous_ack d))))"
  by (simp add: find_gaps_def gap_scan_take)

lemma all_gaps_exact:
  assumes "sorted (map fst rs)" "\<forall>(x, y)\<in>set rs. x \<le> y \<and> y \<le> maximum"
  shows "in_ranges (all_gaps maximum expected rs) n \<longleftrightarrow>
    expected \<le> n \<and> n \<le> maximum \<and> \<not> in_ranges rs n"
  using assms
proof (induction maximum expected rs rule: all_gaps.induct)
  case (2 maximum expected x y rs)
  have later: "\<forall>(x', y')\<in>set rs. x \<le> x'" using "2.prems"(1) by auto
  have ih: "in_ranges (all_gaps maximum (max expected (y + 1)) rs) n \<longleftrightarrow>
      max expected (y + 1) \<le> n \<and> n \<le> maximum \<and> \<not> in_ranges rs n"
    using "2.prems" by (intro "2.IH") auto
  have "n < x \<Longrightarrow> \<not> in_ranges rs n" using later by (auto simp: in_ranges_def)
  then show ?case using ih "2.prems"(2) by auto
qed auto

text \<open>Gaps are nonempty, in order and apart from each other.\<close>

lemma all_gaps_lower: "(a, b) \<in> set (all_gaps maximum expected rs) \<Longrightarrow> expected \<le> a \<and> a \<le> b"
  by (induction maximum expected rs rule: all_gaps.induct) (auto split: if_splits)

lemma all_gaps_ordered:
  assumes "\<forall>(x, y)\<in>set rs. x \<le> y"
  shows "sorted_wrt (\<lambda>(a, b) (c, d). b + 1 < c) (all_gaps maximum expected rs)"
  using assms
proof (induction maximum expected rs rule: all_gaps.induct)
  case (2 maximum expected x y rs)
  then show ?case by (fastforce dest: all_gaps_lower)
qed auto

subsection \<open>The evidence invariant\<close>

definition readings_ok :: "store \<Rightarrow> bool" where
  "readings_ok s \<longleftrightarrow>
     distinct (map (\<lambda>r. (rr_device_id r, rr_sequence r)) (st_readings s))
     \<and> (\<forall>r\<in>set (st_readings s). 0 < rr_sequence r)"

definition losses_ok :: "store \<Rightarrow> bool" where
  "losses_ok s \<longleftrightarrow>
     (\<forall>l\<in>set (st_losses s). 0 < lr_first_sequence l \<and> lr_first_sequence l \<le> lr_last_sequence l)
     \<and> (\<forall>l\<in>set (st_losses s). \<forall>l'\<in>set (st_losses s). l \<noteq> l' \<longrightarrow> lr_device_id l = lr_device_id l' \<longrightarrow>
          lr_last_sequence l < lr_first_sequence l' \<or> lr_last_sequence l' < lr_first_sequence l)"

definition evidence_disjoint :: "store \<Rightarrow> bool" where
  "evidence_disjoint s \<longleftrightarrow>
     (\<forall>r\<in>set (st_readings s). \<forall>l\<in>set (st_losses s). rr_device_id r = lr_device_id l \<longrightarrow>
        \<not> (lr_first_sequence l \<le> rr_sequence r \<and> rr_sequence r \<le> lr_last_sequence l))"

definition evidence_bounded :: "store \<Rightarrow> bool" where
  "evidence_bounded s \<longleftrightarrow>
     (\<forall>k d. st_devices s k = Some d \<longrightarrow>
        dv_contiguous_ack d \<le> dv_maximum_sequence d
        \<and> (\<forall>n. covered s k n \<longrightarrow> n \<le> dv_maximum_sequence d))"

definition evidence_inv :: "store \<Rightarrow> bool" where
  "evidence_inv s \<longleftrightarrow>
     store_keys s \<and> readings_ok s \<and> losses_ok s \<and> evidence_disjoint s \<and> evidence_bounded s"

text \<open>What acknowledging does, on a store in which the device's evidence is bounded.\<close>

definition ack_of :: "store \<Rightarrow> device \<Rightarrow> int" where
  "ack_of s d = advance_over (dv_contiguous_ack d) (coverage s (dv_id d) (dv_contiguous_ack d))"

lemma ack_of_correct:
  "dv_contiguous_ack d \<le> ack_of s d"
  "dv_contiguous_ack d < n \<Longrightarrow> n \<le> ack_of s d \<Longrightarrow> covered s (dv_id d) n"
  "\<not> covered s (dv_id d) (ack_of s d + 1)"
proof -
  let ?rs = "coverage s (dv_id d) (dv_contiguous_ack d)"
  note adv = advance_over_correct [OF coverage_sorted, of "dv_contiguous_ack d" s "dv_id d" "dv_contiguous_ack d"]
  show "dv_contiguous_ack d \<le> ack_of s d" using adv by (simp add: ack_of_def)
  show "dv_contiguous_ack d < n \<Longrightarrow> n \<le> ack_of s d \<Longrightarrow> covered s (dv_id d) n"
    using adv coverage_covered by (metis ack_of_def)
  show "\<not> covered s (dv_id d) (ack_of s d + 1)"
    using adv coverage_covered [of "dv_contiguous_ack d" "ack_of s d + 1" s "dv_id d"]
    by (simp add: ack_of_def)
qed

lemma acknowledge_eq:
  "acknowledge accepted identical d s =
     (let d' = d \<lparr>dv_contiguous_ack := ack_of s d\<rparr> in
      Inr (\<lparr>ir_accepted = accepted, ir_identical_retries = identical,
            ir_highest_contiguous_sequence = ack_of s d,
            ir_gaps = find_gaps (put_device d' s) d' 100\<rparr>, put_device d' s))"
  using ack_of_correct(1) [of d s]
  by (simp add: acknowledge_def advance_contiguous_cursor_def ack_of_def Let_def)

lemma covered_put_device [simp]: "covered (put_device d s) k n = covered s k n"
  by (simp add: covered_def put_device_def)

lemma coverage_put_device [simp]: "coverage (put_device d s) k a = coverage s k a"
  by (simp add: coverage_def put_device_def)

lemma put_device_same_tables:
  "readings_ok (put_device d s) = readings_ok s" "losses_ok (put_device d s) = losses_ok s"
  "evidence_disjoint (put_device d s) = evidence_disjoint s"
  by (simp_all add: readings_ok_def losses_ok_def evidence_disjoint_def put_device_def)

lemma evidence_bounded_put_device:
  assumes "evidence_bounded s" "dv_contiguous_ack d \<le> dv_maximum_sequence d"
    and "\<And>n. covered s (dv_id d) n \<Longrightarrow> n \<le> dv_maximum_sequence d"
  shows "evidence_bounded (put_device d s)"
  using assms by (auto simp: evidence_bounded_def put_device_def covered_def)

lemma acknowledge_inv:
  assumes "evidence_inv s" "st_devices s (dv_id d) = Some d"
    and "acknowledge accepted identical d s = Inr (r, t)"
  shows "evidence_inv t"
proof -
  let ?d = "d \<lparr>dv_contiguous_ack := ack_of s d\<rparr>"
  have t: "t = put_device ?d s" using assms(3) by (simp add: acknowledge_eq Let_def)
  have b: "dv_contiguous_ack d \<le> dv_maximum_sequence d"
    "\<And>n. covered s (dv_id d) n \<Longrightarrow> n \<le> dv_maximum_sequence d"
    using assms(1,2) by (auto simp: evidence_inv_def evidence_bounded_def)
  have "ack_of s d \<le> dv_maximum_sequence d"
    using b ack_of_correct(1) [of d s] ack_of_correct(2) [of d "ack_of s d" s]
    by (cases "dv_contiguous_ack d < ack_of s d") auto
  then have "evidence_bounded t"
    using assms(1) b unfolding t by (intro evidence_bounded_put_device) (auto simp: evidence_inv_def)
  then show ?thesis
    using assms(1) store_keys_put_device unfolding t evidence_inv_def put_device_same_tables by blast
qed

subsection \<open>The batch loop\<close>

definition reading_row :: "row_id \<Rightarrow> string \<Rightarrow> string \<Rightarrow> durable_reading \<Rightarrow> raw_reading" where
  "reading_row i device_id h r =
     \<lparr>rr_id = i, rr_device_id = device_id, rr_record = r, rr_payload_sha256 = h\<rparr>"

text \<open>What a stored reading changes: one row, at most one interval, the counters.\<close>

lemma store_reading_effect:
  assumes "store_reading device_id h r b = Inr b'"
  obtains ni where
    "raw_reading_constraints (bt_store b) (reading_row (st_next_id (bt_store b)) device_id h r)"
    "st_readings (bt_store b') = st_readings (bt_store b) @ [reading_row (st_next_id (bt_store b)) device_id h r]"
    "normalized_of_record (Suc (st_next_id (bt_store b))) (st_next_id (bt_store b)) device_id r = Inr ni"
    "st_intervals (bt_store b') = st_intervals (bt_store b) @ (case ni of None \<Rightarrow> [] | Some i \<Rightarrow> [i])"
    "\<forall>i. ni = Some i \<longrightarrow> interval_constraints i"
    "bt_earliest b' = (case ni of None \<Rightarrow> bt_earliest b | Some i \<Rightarrow> earliest_of (bt_earliest b) (ni_start_utc i))"
    "st_losses (bt_store b') = st_losses (bt_store b)" "st_devices (bt_store b') = st_devices (bt_store b)"
    "st_accounts (bt_store b') = st_accounts (bt_store b)"
    "st_cost_selections (bt_store b') = st_cost_selections (bt_store b)"
    "st_billing_selections (bt_store b') = st_billing_selections (bt_store b)"
    "bt_accepted b' = Suc (bt_accepted b)" "bt_identical b' = bt_identical b"
    "st_next_id (bt_store b) < st_next_id (bt_store b')"
proof -
  let ?s = "bt_store b"
  let ?row = "reading_row (st_next_id ?s) device_id h r"
  obtain ni where ok: "raw_reading_constraints ?s ?row"
    and ni: "normalized_of_record (Suc (st_next_id ?s)) (st_next_id ?s) device_id r = Inr ni"
    using assms by (auto simp: store_reading_def Let_def bindE_simps insert_reading_def
        reading_row_def split: if_splits)
  show thesis
    by (rule that [OF ok _ ni], insert assms ok ni; cases ni)
       (auto simp: store_reading_def Let_def bindE_simps insert_reading_def insert_interval_def
         reading_row_def split: if_splits)
qed

lemma ingest_record_cases:
  assumes "ingest_record hash d now existing loss_ranges r b = Inr b'"
  obtains prior where "find (\<lambda>x. rr_sequence x = dr_sequence r) existing = Some prior"
      "rr_payload_sha256 prior = hash r" "b' = b \<lparr>bt_identical := Suc (bt_identical b)\<rparr>"
  | "find (\<lambda>x. rr_sequence x = dr_sequence r) existing = None"
      "dr_reset_generation r = dv_reset_generation d"
      "\<forall>l\<in>set loss_ranges. \<not> (lr_first_sequence l \<le> dr_sequence r \<and> dr_sequence r \<le> lr_last_sequence l)"
      "store_reading (dv_id d) (hash r) r b = Inr b'"
  using assms
  by (auto simp: ingest_record_def Let_def list_ex_iff split: if_splits option.splits)

text \<open>What the loop keeps about the store it builds from \<open>s0\<close>.\<close>

definition batch_inv :: "device \<Rightarrow> store \<Rightarrow> int set \<Rightarrow> batch_state \<Rightarrow> bool" where
  "batch_inv d s0 seqs b \<longleftrightarrow>
     st_losses (bt_store b) = st_losses s0 \<and> st_devices (bt_store b) = st_devices s0
     \<and> readings_ok (bt_store b) \<and> evidence_disjoint (bt_store b)
     \<and> (\<exists>new. st_readings (bt_store b) = st_readings s0 @ new
          \<and> (\<forall>r\<in>set new. rr_device_id r = dv_id d \<and> rr_sequence r \<in> seqs))"

definition batch_losses :: "store \<Rightarrow> string \<Rightarrow> int set \<Rightarrow> loss_range list" where
  "batch_losses s device_id seqs = filter (\<lambda>l. lr_device_id l = device_id
     \<and> lr_first_sequence l \<le> Max seqs \<and> Min seqs \<le> lr_last_sequence l) (st_losses s)"

lemma batch_losses_complete:
  assumes "\<forall>l\<in>set (batch_losses s device_id seqs). \<not> (lr_first_sequence l \<le> n \<and> n \<le> lr_last_sequence l)"
    and "finite seqs" "n \<in> seqs" "l \<in> set (st_losses s)" "lr_device_id l = device_id"
  shows "\<not> (lr_first_sequence l \<le> n \<and> n \<le> lr_last_sequence l)"
proof
  assume in_l: "lr_first_sequence l \<le> n \<and> n \<le> lr_last_sequence l"
  moreover have "n \<le> Max seqs" "Min seqs \<le> n" using assms(2,3) by auto
  ultimately have "l \<in> set (batch_losses s device_id seqs)"
    using assms(4,5) by (auto simp: batch_losses_def intro: order_trans)
  with in_l assms(1) show False by blast
qed

lemma readings_ok_snoc:
  assumes "readings_ok s" "raw_reading_constraints s row" "st_readings t = st_readings s @ [row]"
  shows "readings_ok t"
  using assms by (auto simp: readings_ok_def raw_reading_constraints_def list_ex_iff)

lemma ingest_record_inv:
  assumes "ingest_record hash d now existing (batch_losses s0 (dv_id d) seqs) r b = Inr b'"
    and "batch_inv d s0 seqs b" "finite seqs" "dr_sequence r \<in> seqs"
  shows "batch_inv d s0 seqs b'"
  using assms(1)
proof (cases rule: ingest_record_cases)
  case (1 prior)
  then show ?thesis using assms(2) by (simp add: batch_inv_def)
next
  case 2
  from 2(4) show ?thesis
  proof (rule store_reading_effect)
    let ?row = "reading_row (st_next_id (bt_store b)) (dv_id d) (hash r) r"
    assume row: "raw_reading_constraints (bt_store b) ?row"
      and rs: "st_readings (bt_store b') = st_readings (bt_store b) @ [?row]"
      and same: "st_losses (bt_store b') = st_losses (bt_store b)"
        "st_devices (bt_store b') = st_devices (bt_store b)"
    have "readings_ok (bt_store b')"
      using readings_ok_snoc [OF _ row rs] assms(2) by (simp add: batch_inv_def)
    moreover have "evidence_disjoint (bt_store b')"
      using assms(2) batch_losses_complete [OF 2(3) assms(3,4)]
      by (auto simp: evidence_disjoint_def batch_inv_def rs same reading_row_def)
    moreover have "\<exists>new. st_readings (bt_store b') = st_readings s0 @ new
        \<and> (\<forall>r\<in>set new. rr_device_id r = dv_id d \<and> rr_sequence r \<in> seqs)"
      using assms(2,4) by (auto simp: batch_inv_def rs reading_row_def)
    ultimately show ?thesis using assms(2) by (simp add: batch_inv_def same)
  qed
qed

lemma invalidate_from_frame [simp]:
  "st_readings (invalidate_from h e s) = st_readings s" "st_losses (invalidate_from h e s) = st_losses s"
  "st_devices (invalidate_from h e s) = st_devices s" "st_intervals (invalidate_from h e s) = st_intervals s"
  "st_accounts (invalidate_from h e s) = st_accounts s" "st_samples (invalidate_from h e s) = st_samples s"
  by (auto simp: invalidate_from_def delete_cost_selections_def delete_billing_selections_def
      split: option.splits)

text \<open>The parts of a successful batch.\<close>

lemma ingest_batch_Inr:
  assumes "ingest_batch hash device_id batch now s = Inr (res, t)"
  obtains d b where
    "st_devices s device_id = Some d" "dv_revoked_at d = None" "rb_records batch \<noteq> []"
    "foldE (ingest_record hash d now
        (filter (\<lambda>r. rr_device_id r = device_id \<and> rr_sequence r \<in> dr_sequence ` set (rb_records batch))
          (st_readings s))
        (batch_losses s device_id (dr_sequence ` set (rb_records batch)))) (rb_records batch)
      \<lparr>bt_store = s, bt_accepted = 0, bt_identical = 0, bt_earliest = None\<rparr> = Inr b"
    "acknowledge (bt_accepted b) (bt_identical b)
      (d \<lparr>dv_maximum_sequence := max (dv_maximum_sequence d) (Max (dr_sequence ` set (rb_records batch)))\<rparr>)
      (invalidate_from (dv_home_id d) (bt_earliest b)
        (put_device (d \<lparr>dv_maximum_sequence :=
            max (dv_maximum_sequence d) (Max (dr_sequence ` set (rb_records batch)))\<rparr>) (bt_store b)))
      = Inr (res, t)"
  using assms
  by (auto simp: ingest_batch_def Let_def bindE_simps batch_losses_def split: if_splits)

lemma foldE_ingest_inv:
  assumes "foldE (ingest_record hash d now existing (batch_losses s (dv_id d) (dr_sequence ` set rs))) rs
      \<lparr>bt_store = s, bt_accepted = 0, bt_identical = 0, bt_earliest = None\<rparr> = Inr b"
    and "readings_ok s" "evidence_disjoint s"
  shows "batch_inv d s (dr_sequence ` set rs) b"
  using assms(1)
proof (rule foldE_invariant)
  show "batch_inv d s (dr_sequence ` set rs)
      \<lparr>bt_store = s, bt_accepted = 0, bt_identical = 0, bt_earliest = None\<rparr>"
    using assms(2,3) by (simp add: batch_inv_def)
qed (auto intro: ingest_record_inv)

lemma covered_extend:
  assumes "st_readings t = st_readings s @ new" "st_losses t = st_losses s"
    and "\<forall>r\<in>set new. rr_device_id r = k \<and> rr_sequence r \<in> seqs"
  shows "covered t k' n \<Longrightarrow> covered s k' n \<or> k' = k \<and> n \<in> seqs"
  using assms by (auto simp: covered_def)

lemma coverage_bounds:
  assumes "evidence_inv s" "st_devices s k = Some d" "(x, y) \<in> set (coverage s k a)"
  shows "x \<le> y \<and> y \<le> dv_maximum_sequence d"
proof -
  have bnd: "covered s k n \<Longrightarrow> n \<le> dv_maximum_sequence d" for n
    using assms(1,2) by (auto simp: evidence_inv_def evidence_bounded_def)
  consider r where "r \<in> set (st_readings s)" "rr_device_id r = k" "x = rr_sequence r" "y = rr_sequence r"
    | l where "l \<in> set (st_losses s)" "lr_device_id l = k" "x = lr_first_sequence l" "y = lr_last_sequence l"
    using assms(3) by (auto simp: coverage_def)
  then show ?thesis
  proof cases
    case 1
    then show ?thesis using bnd [of y] by (auto simp: covered_def)
  next
    case 2
    moreover have "x \<le> y" using 2 assms(1) by (auto simp: evidence_inv_def losses_ok_def)
    ultimately show ?thesis using bnd [of y] by (auto simp: covered_def)
  qed
qed

text \<open>Raising a device's maximum to cover what was added keeps the evidence bounded.\<close>

lemma evidence_bounded_grow:
  assumes "evidence_bounded s" "st_devices s k = Some d" "dv_id d = k" "st_devices u = st_devices s"
    and grow: "\<And>k' n. covered u k' n \<Longrightarrow> covered s k' n \<or> k' = k \<and> n \<le> m"
  shows "evidence_bounded (put_device (d \<lparr>dv_maximum_sequence := max (dv_maximum_sequence d) m\<rparr>) u)"
  unfolding evidence_bounded_def covered_put_device
proof (intro allI impI)
  fix k' d'
  assume d': "st_devices (put_device (d \<lparr>dv_maximum_sequence := max (dv_maximum_sequence d) m\<rparr>) u) k' = Some d'"
  have old: "dv_contiguous_ack x \<le> dv_maximum_sequence x \<and> (\<forall>n. covered s j n \<longrightarrow> n \<le> dv_maximum_sequence x)"
    if "st_devices s j = Some x" for j x
    using assms(1) that by (auto simp: evidence_bounded_def)
  show "dv_contiguous_ack d' \<le> dv_maximum_sequence d' \<and> (\<forall>n. covered u k' n \<longrightarrow> n \<le> dv_maximum_sequence d')"
  proof (cases "k' = k")
    case True
    then have "d' = d \<lparr>dv_maximum_sequence := max (dv_maximum_sequence d) m\<rparr>"
      using d' assms(3) by (simp add: put_device_def)
    then show ?thesis using old [OF assms(2)] grow True by (auto simp: le_max_iff_disj)
  next
    case False
    then have "st_devices s k' = Some d'" using d' assms(3,4) by (simp add: put_device_def)
    then show ?thesis using old grow False by blast
  qed
qed

lemma evidence_inv_frame:
  assumes "st_readings t = st_readings s" "st_losses t = st_losses s" "st_devices t = st_devices s"
  shows "evidence_inv t = evidence_inv s"
  using assms by (simp add: evidence_inv_def store_keys_def readings_ok_def losses_ok_def
      evidence_disjoint_def evidence_bounded_def covered_def)

lemma ingest_batch_inv:
  assumes "evidence_inv s" "ingest_batch hash device_id batch now s = Inr (res, t)"
  shows "evidence_inv t"
  using assms(2)
proof (rule ingest_batch_Inr)
  fix d :: device and b :: batch_state
  let ?seqs = "dr_sequence ` set (rb_records batch)"
  let ?d = "d \<lparr>dv_maximum_sequence := max (dv_maximum_sequence d) (Max ?seqs)\<rparr>"
  let ?s = "invalidate_from (dv_home_id d) (bt_earliest b) (put_device ?d (bt_store b))"
  assume d: "st_devices s device_id = Some d"
    and run: "foldE (ingest_record hash d now
        (filter (\<lambda>r. rr_device_id r = device_id \<and> rr_sequence r \<in> ?seqs) (st_readings s))
        (batch_losses s device_id ?seqs)) (rb_records batch)
      \<lparr>bt_store = s, bt_accepted = 0, bt_identical = 0, bt_earliest = None\<rparr> = Inr b"
    and ack: "acknowledge (bt_accepted b) (bt_identical b) ?d ?s = Inr (res, t)"
  have id: "dv_id d = device_id" using assms(1) d by (simp add: evidence_inv_def store_keys_def)
  have inv: "batch_inv d s ?seqs b"
    using foldE_ingest_inv [OF run [folded id]] assms(1) by (simp add: evidence_inv_def)
  then obtain new where new: "st_readings (bt_store b) = st_readings s @ new"
    "\<forall>r\<in>set new. rr_device_id r = device_id \<and> rr_sequence r \<in> ?seqs"
    "st_losses (bt_store b) = st_losses s" "st_devices (bt_store b) = st_devices s"
    by (auto simp: batch_inv_def id)
  have "n \<le> Max ?seqs" if "n \<in> ?seqs" for n using that by (intro Max_ge) auto
  then have "evidence_bounded (put_device ?d (bt_store b))"
    using assms(1) covered_extend [OF new(1,3,2)] unfolding evidence_inv_def
    by (intro evidence_bounded_grow [OF _ d id new(4)]) blast+
  moreover have "losses_ok (bt_store b)" "store_keys (bt_store b)"
    using assms(1) by (simp_all add: evidence_inv_def losses_ok_def store_keys_def new(3,4))
  ultimately have "evidence_inv (put_device ?d (bt_store b))"
    using inv by (simp add: evidence_inv_def batch_inv_def put_device_same_tables store_keys_put_device)
  then have "evidence_inv ?s" by (simp add: evidence_inv_frame [of ?s "put_device ?d (bt_store b)"])
  moreover have "st_devices ?s (dv_id ?d) = Some ?d" by (simp add: put_device_def)
  ultimately show ?thesis using ack by (rule acknowledge_inv)
qed

subsection \<open>The loss loop\<close>

definition loss_row :: "string \<Rightarrow> permanent_loss_range \<Rightarrow> loss_range" where
  "loss_row device_id item = \<lparr>lr_device_id = device_id, lr_first_sequence = pl_first_sequence item,
     lr_last_sequence = pl_last_sequence item, lr_reason_code = pl_reason_code item,
     lr_evidence_sha256 = pl_evidence_sha256 item\<rparr>"

lemma loss_item_cases:
  assumes "loss_item device_id item (n, d, s) = Inr (n', d', s')"
  obtains prior where "prior \<in> set (st_losses s)" "lr_device_id prior = device_id"
      "lr_first_sequence prior = pl_first_sequence item" "lr_last_sequence prior = pl_last_sequence item"
      "n' = n" "d' = d" "s' = s"
  | "\<forall>r\<in>set (st_readings s). rr_device_id r = device_id \<longrightarrow>
        \<not> (pl_first_sequence item \<le> rr_sequence r \<and> rr_sequence r \<le> pl_last_sequence item)"
      "\<forall>l\<in>set (st_losses s). lr_device_id l = device_id \<longrightarrow>
        \<not> (lr_first_sequence l \<le> pl_last_sequence item \<and> pl_first_sequence item \<le> lr_last_sequence l)"
      "loss_constraints s (loss_row device_id item)"
      "n' = Suc n" "s' = s \<lparr>st_losses := st_losses s @ [loss_row device_id item]\<rparr>"
      "d' = d \<lparr>dv_maximum_sequence := max (dv_maximum_sequence d) (pl_last_sequence item)\<rparr>"
proof (cases "find (\<lambda>l. lr_device_id l = device_id \<and> lr_first_sequence l = pl_first_sequence item
    \<and> lr_last_sequence l = pl_last_sequence item) (st_losses s)")
  case (Some prior)
  then have "n' = n \<and> d' = d \<and> s' = s"
    using assms by (simp add: loss_item_def split: if_splits)
  then show thesis using find_SomeD [OF Some] that(1) by blast
next
  case None
  have no_reading: "\<not> list_ex (\<lambda>r. rr_device_id r = device_id \<and> pl_first_sequence item \<le> rr_sequence r
      \<and> rr_sequence r \<le> pl_last_sequence item) (st_readings s)"
    using assms by (simp add: loss_item_def split: if_splits)
  have no_loss: "\<not> list_ex (\<lambda>l. lr_device_id l = device_id \<and> lr_first_sequence l \<le> pl_last_sequence item
      \<and> pl_first_sequence item \<le> lr_last_sequence l) (st_losses s)"
    using assms no_reading None by (simp add: loss_item_def split: if_splits)
  have "loss_constraints s (loss_row device_id item) \<and> n' = Suc n
      \<and> s' = s \<lparr>st_losses := st_losses s @ [loss_row device_id item]\<rparr>
      \<and> d' = d \<lparr>dv_maximum_sequence := max (dv_maximum_sequence d) (pl_last_sequence item)\<rparr>"
    using assms no_reading no_loss None
    by (simp add: loss_item_def insert_loss_def loss_row_def split: if_splits)
  then show thesis using no_reading no_loss that(2) by (simp add: list_ex_iff)
qed

definition loss_inv :: "string \<Rightarrow> nat \<times> device \<times> store \<Rightarrow> bool" where
  "loss_inv device_id acc \<longleftrightarrow>
     (case acc of (n, d, s) \<Rightarrow> dv_id d = device_id \<and> evidence_inv (put_device d s))"

lemma loss_item_inv:
  assumes "loss_item device_id item acc = Inr acc'" "loss_inv device_id acc"
  shows "loss_inv device_id acc'"
proof -
  obtain n d s n' d' s' where acc: "acc = (n, d, s)" "acc' = (n', d', s')" by (metis surj_pair)
  have id: "dv_id d = device_id" and inv: "evidence_inv (put_device d s)"
    using assms(2) by (auto simp: loss_inv_def acc)
  from assms(1) [unfolded acc] have "loss_inv device_id (n', d', s')"
  proof (cases rule: loss_item_cases)
    case (1 prior)
    then show ?thesis using assms(2) by (simp add: loss_inv_def acc)
  next
    case 2
    let ?u = "s \<lparr>st_devices := (st_devices s)(device_id := Some d), st_losses := st_losses s @ [loss_row device_id item]\<rparr>"
    have put: "put_device d' s' = put_device d' ?u" by (simp add: put_device_def 2 id)
    have "evidence_bounded (put_device d' ?u)" unfolding 2(6)
    proof (rule evidence_bounded_grow [where s = "put_device d s" and k = device_id])
      show "covered (put_device d s) k' n \<or> k' = device_id \<and> n \<le> pl_last_sequence item"
        if "covered ?u k' n" for k' n
        using that by (auto simp: covered_def loss_row_def put_device_def)
    qed (use inv id in \<open>auto simp: evidence_inv_def put_device_def\<close>)
    moreover have "readings_ok (put_device d' ?u)" "losses_ok (put_device d' ?u)"
      "evidence_disjoint (put_device d' ?u)"
      using inv 2(1-3) unfolding put_device_same_tables
      by (auto simp: evidence_inv_def put_device_same_tables readings_ok_def losses_ok_def
          evidence_disjoint_def loss_constraints_def loss_row_def not_le put_device_def)
    moreover have "store_keys (put_device d' ?u)"
      using inv by (auto simp: evidence_inv_def store_keys_def put_device_def 2 id)
    ultimately have "evidence_inv (put_device d' s')" unfolding put evidence_inv_def by blast
    then show ?thesis by (simp add: loss_inv_def 2(6) id)
  qed
  then show ?thesis by (simp add: acc)
qed

lemma record_permanent_loss_inv:
  assumes "evidence_inv s" "record_permanent_loss device_id ranges s = Inr (res, t)"
  shows "evidence_inv t"
proof -
  obtain d n d' s' where d: "st_devices s device_id = Some d"
    and run: "foldE (loss_item device_id) ranges (0, d, s) = Inr (n, d', s')"
    and ack: "acknowledge n 0 d' (put_device d' s') = Inr (res, t)"
    using assms(2) by (auto simp: record_permanent_loss_def bindE_simps)
  have "put_device d s = s" "dv_id d = device_id"
    using d assms(1) by (auto simp: put_device_def evidence_inv_def store_keys_def fun_upd_idem)
  then have "loss_inv device_id (0, d, s)" using assms(1) by (simp add: loss_inv_def)
  then have "loss_inv device_id (n, d', s')"
    using foldE_invariant [OF run] loss_item_inv by blast
  then have "evidence_inv (put_device d' s')" by (simp add: loss_inv_def)
  moreover have "st_devices (put_device d' s') (dv_id d') = Some d'" by (simp add: put_device_def)
  ultimately show ?thesis using ack by (rule acknowledge_inv)
qed

subsection \<open>The two requests as one system\<close>

datatype ingestion_op = Readings reading_batch_request instant | Losses "permanent_loss_range list"

fun run_ingestion ::
  "(durable_reading \<Rightarrow> string) \<Rightarrow> string \<Rightarrow> ingestion_op \<Rightarrow> store \<Rightarrow> (ingestion_result \<times> store) result" where
  "run_ingestion hash device_id (Readings batch now) s = ingest_batch hash device_id batch now s"
| "run_ingestion hash device_id (Losses ranges) s = record_permanent_loss device_id ranges s"

lemma run_ingestion_inv:
  "evidence_inv s \<Longrightarrow> run_ingestion hash device_id op s = Inr (res, t) \<Longrightarrow> evidence_inv t"
  by (cases op) (auto intro: ingest_batch_inv record_permanent_loss_inv)

text \<open>
  What a request changes: the device ends acknowledged over the evidence it has then, its
  acknowledgement was only raised, and rows were only added.
\<close>

definition ingestion_step :: "string \<Rightarrow> store \<Rightarrow> ingestion_result \<Rightarrow> store \<Rightarrow> bool" where
  "ingestion_step device_id s res t \<longleftrightarrow>
     (\<exists>d u e. st_devices s device_id = Some d \<and> dv_revoked_at d = None \<and> dv_id e = dv_id d
        \<and> dv_contiguous_ack e = dv_contiguous_ack d \<and> dv_maximum_sequence d \<le> dv_maximum_sequence e
        \<and> st_devices u = (st_devices s)(dv_id d := Some e)
        \<and> t = put_device (e \<lparr>dv_contiguous_ack := ack_of u e\<rparr>) u
        \<and> ir_highest_contiguous_sequence res = ack_of u e
        \<and> ir_gaps res = find_gaps t (e \<lparr>dv_contiguous_ack := ack_of u e\<rparr>) 100
        \<and> (\<exists>new. st_readings u = st_readings s @ new) \<and> (\<exists>new. st_losses u = st_losses s @ new))"

lemma acknowledge_step:
  assumes "acknowledge n m e u = Inr (res, t)" "st_devices s device_id = Some d" "dv_revoked_at d = None"
    and "dv_id e = dv_id d" "dv_contiguous_ack e = dv_contiguous_ack d"
    and "dv_maximum_sequence d \<le> dv_maximum_sequence e" "st_devices u = (st_devices s)(dv_id d := Some e)"
    and "\<exists>new. st_readings u = st_readings s @ new" "\<exists>new. st_losses u = st_losses s @ new"
  shows "ingestion_step device_id s res t"
  unfolding ingestion_step_def
  by (rule exI [of _ d], rule exI [of _ u], rule exI [of _ e])
     (use assms in \<open>auto simp: acknowledge_eq Let_def\<close>)

lemma ingest_batch_step:
  assumes "evidence_inv s" "ingest_batch hash device_id batch now s = Inr (res, t)"
  shows "ingestion_step device_id s res t"
  using assms(2)
proof (rule ingest_batch_Inr)
  fix d :: device and b :: batch_state
  let ?seqs = "dr_sequence ` set (rb_records batch)"
  let ?d = "d \<lparr>dv_maximum_sequence := max (dv_maximum_sequence d) (Max ?seqs)\<rparr>"
  let ?s = "invalidate_from (dv_home_id d) (bt_earliest b) (put_device ?d (bt_store b))"
  assume d: "st_devices s device_id = Some d" "dv_revoked_at d = None"
    and run: "foldE (ingest_record hash d now
        (filter (\<lambda>r. rr_device_id r = device_id \<and> rr_sequence r \<in> ?seqs) (st_readings s))
        (batch_losses s device_id ?seqs)) (rb_records batch)
      \<lparr>bt_store = s, bt_accepted = 0, bt_identical = 0, bt_earliest = None\<rparr> = Inr b"
    and ack: "acknowledge (bt_accepted b) (bt_identical b) ?d ?s = Inr (res, t)"
  have id: "dv_id d = device_id" using assms(1) d by (simp add: evidence_inv_def store_keys_def)
  have "batch_inv d s ?seqs b"
    using foldE_ingest_inv [OF run [folded id]] assms(1) by (simp add: evidence_inv_def)
  then show ?thesis
    by (intro acknowledge_step [OF ack d]) (auto simp: batch_inv_def put_device_def id)
qed

lemma record_permanent_loss_step:
  assumes "evidence_inv s" "record_permanent_loss device_id ranges s = Inr (res, t)"
  shows "ingestion_step device_id s res t"
proof -
  obtain d n d' s' where d: "st_devices s device_id = Some d" "dv_revoked_at d = None"
    and run: "foldE (loss_item device_id) ranges (0, d, s) = Inr (n, d', s')"
    and ack: "acknowledge n 0 d' (put_device d' s') = Inr (res, t)"
    using assms(2) by (auto simp: record_permanent_loss_def bindE_simps)
  define I where "I = (\<lambda>(n :: nat, e :: device, u :: store). dv_id e = dv_id d \<and> dv_contiguous_ack e = dv_contiguous_ack d
    \<and> dv_maximum_sequence d \<le> dv_maximum_sequence e \<and> st_devices u = st_devices s
    \<and> st_readings u = st_readings s \<and> (\<exists>new. st_losses u = st_losses s @ new))"
  have "I (n, d', s')"
    using run
  proof (rule foldE_invariant)
    fix item acc acc'
    assume "I acc" "loss_item device_id item acc = Inr acc'"
    moreover obtain n1 e1 u1 n2 e2 u2 where "acc = (n1, e1, u1)" "acc' = (n2, e2, u2)" by (metis surj_pair)
    ultimately show "I acc'" by (auto simp: I_def elim!: loss_item_cases)
  qed (simp add: I_def)
  then show ?thesis
    by (intro acknowledge_step [OF ack d]) (auto simp: I_def put_device_def)
qed

lemma run_ingestion_step:
  "evidence_inv s \<Longrightarrow> run_ingestion hash device_id op s = Inr (res, t) \<Longrightarrow> ingestion_step device_id s res t"
  by (cases op) (auto intro: ingest_batch_step record_permanent_loss_step)

text \<open>The device before and after.\<close>

lemma ingestion_step_device:
  assumes "ingestion_step device_id s res t" "store_keys s"
  obtains d d' where "st_devices s device_id = Some d" "st_devices t device_id = Some d'"
    "ir_highest_contiguous_sequence res = dv_contiguous_ack d'"
    "dv_contiguous_ack d \<le> dv_contiguous_ack d'" "dv_maximum_sequence d \<le> dv_maximum_sequence d'"
    "\<forall>n. dv_contiguous_ack d < n \<and> n \<le> dv_contiguous_ack d' \<longrightarrow> covered t device_id n"
    "\<not> covered t device_id (dv_contiguous_ack d' + 1)" "ir_gaps res = find_gaps t d' 100"
proof -
  obtain d u e where s: "st_devices s device_id = Some d" and e: "dv_id e = dv_id d"
    "dv_contiguous_ack e = dv_contiguous_ack d" "dv_maximum_sequence d \<le> dv_maximum_sequence e"
    and t: "t = put_device (e \<lparr>dv_contiguous_ack := ack_of u e\<rparr>) u"
    and r: "ir_highest_contiguous_sequence res = ack_of u e"
      "ir_gaps res = find_gaps t (e \<lparr>dv_contiguous_ack := ack_of u e\<rparr>) 100"
    using assms(1) unfolding ingestion_step_def by blast
  have id: "dv_id d = device_id" using assms(2) s by (simp add: store_keys_def)
  let ?d = "e \<lparr>dv_contiguous_ack := ack_of u e\<rparr>"
  have "st_devices t device_id = Some ?d" using e(1) id by (simp add: t put_device_def)
  then show thesis
    using that [OF s, of ?d] ack_of_correct [where d = e and s = u] e r id by (simp add: t)
qed

subsection \<open>Every record of an accepted batch is stored\<close>

definition stored_as :: "(durable_reading \<Rightarrow> string) \<Rightarrow> string \<Rightarrow> durable_reading \<Rightarrow> store \<Rightarrow> bool" where
  "stored_as hash device_id r s \<longleftrightarrow>
     (\<exists>row\<in>set (st_readings s). rr_device_id row = device_id \<and> rr_sequence row = dr_sequence r
        \<and> rr_payload_sha256 row = hash r)"

lemma store_reading_readings:
  "store_reading device_id h r b = Inr b' \<Longrightarrow> st_readings (bt_store b') =
     st_readings (bt_store b) @ [reading_row (st_next_id (bt_store b)) device_id h r]
     \<and> bt_accepted b' = Suc (bt_accepted b) \<and> bt_identical b' = bt_identical b"
  by (erule store_reading_effect) simp

lemma ingest_record_stores:
  assumes "ingest_record hash d now existing ls r b = Inr b'"
    and "set existing \<subseteq> {x \<in> set (st_readings (bt_store b)). rr_device_id x = dv_id d}"
  shows "stored_as hash (dv_id d) r (bt_store b')"
    "set (st_readings (bt_store b)) \<subseteq> set (st_readings (bt_store b'))"
    "bt_accepted b' + bt_identical b' = Suc (bt_accepted b + bt_identical b)"
  using assms(1)
proof (atomize (full), cases rule: ingest_record_cases)
  case (1 prior)
  then have "prior \<in> set existing" "rr_sequence prior = dr_sequence r" by (auto dest: find_SomeD)
  with assms(2) 1 show "stored_as hash (dv_id d) r (bt_store b') \<and>
      set (st_readings (bt_store b)) \<subseteq> set (st_readings (bt_store b')) \<and>
      bt_accepted b' + bt_identical b' = Suc (bt_accepted b + bt_identical b)"
    by (auto simp: stored_as_def)
next
  case 2
  from store_reading_readings [OF 2(4)]
  show "stored_as hash (dv_id d) r (bt_store b') \<and>
      set (st_readings (bt_store b)) \<subseteq> set (st_readings (bt_store b')) \<and>
      bt_accepted b' + bt_identical b' = Suc (bt_accepted b + bt_identical b)"
    by (auto simp: stored_as_def reading_row_def)
qed

lemma ingest_records_store:
  assumes "foldE (ingest_record hash d now existing ls) rs b = Inr b'"
    and "set existing \<subseteq> {x \<in> set (st_readings (bt_store b)). rr_device_id x = dv_id d}"
  shows "\<forall>r\<in>set rs. stored_as hash (dv_id d) r (bt_store b')"
    "bt_accepted b' + bt_identical b' = bt_accepted b + bt_identical b + length rs"
proof -
  let ?I = "\<lambda>b. set existing \<subseteq> {x \<in> set (st_readings (bt_store b)). rr_device_id x = dv_id d}"
  show "\<forall>r\<in>set rs. stored_as hash (dv_id d) r (bt_store b')"
    by (rule foldE_established [OF assms(1), of ?I])
       (use assms(2) ingest_record_stores in \<open>auto simp: stored_as_def, blast+\<close>)
  show "bt_accepted b' + bt_identical b' = bt_accepted b + bt_identical b + length rs"
    using assms
  proof (induction rs arbitrary: b)
    case (Cons r rs)
    then obtain u where u: "ingest_record hash d now existing ls r b = Inr u"
      "foldE (ingest_record hash d now existing ls) rs u = Inr b'" by (auto simp: bindE_simps)
    show ?case using Cons.IH [OF u(2)] ingest_record_stores [OF u(1) Cons.prems(2)] Cons.prems(2) by auto
  qed simp
qed

text \<open>A record that is stored with its own hash is counted as a retry and changes nothing.\<close>

lemma ingest_record_retry:
  assumes "find (\<lambda>x. rr_sequence x = dr_sequence r) existing = Some prior"
    and "rr_payload_sha256 prior = hash r"
    and "\<And>e. dr_interval_end_utc r = Some e \<Longrightarrow> aware_utc e \<le> now + max_future_time_us"
  shows "ingest_record hash d now existing ls r b = Inr (b \<lparr>bt_identical := Suc (bt_identical b)\<rparr>)"
  using assms by (force simp: ingest_record_def Let_def split: option.splits)

lemma ingest_records_retry:
  assumes "\<And>r. r \<in> set rs \<Longrightarrow> \<exists>prior. find (\<lambda>x. rr_sequence x = dr_sequence r) existing = Some prior
      \<and> rr_payload_sha256 prior = hash r"
    and "\<And>r e. r \<in> set rs \<Longrightarrow> dr_interval_end_utc r = Some e \<Longrightarrow> aware_utc e \<le> now + max_future_time_us"
  shows "foldE (ingest_record hash d now existing ls) rs b
    = Inr (b \<lparr>bt_identical := bt_identical b + length rs\<rparr>)"
  using assms
proof (induction rs arbitrary: b)
  case (Cons r rs)
  obtain prior where "find (\<lambda>x. rr_sequence x = dr_sequence r) existing = Some prior"
    "rr_payload_sha256 prior = hash r" using Cons.prems(1) [of r] by auto
  then have "ingest_record hash d now existing ls r b = Inr (b \<lparr>bt_identical := Suc (bt_identical b)\<rparr>)"
    by (rule ingest_record_retry) (rule Cons.prems(2) [of r], simp_all)
  moreover have "foldE (ingest_record hash d now existing ls) rs c
      = Inr (c \<lparr>bt_identical := bt_identical c + length rs\<rparr>)" for c
    by (rule Cons.IH) (use Cons.prems in auto)
  ultimately show ?case by simp
qed simp

lemma ingest_record_not_future:
  "ingest_record hash d now existing ls r b = Inr b' \<Longrightarrow> dr_interval_end_utc r = Some e
     \<Longrightarrow> aware_utc e \<le> now + max_future_time_us"
  by (auto simp: ingest_record_def split: if_splits)

lemma ingest_records_not_future:
  "foldE (ingest_record hash d now existing ls) rs b = Inr b' \<Longrightarrow> r \<in> set rs \<Longrightarrow>
     dr_interval_end_utc r = Some e \<Longrightarrow> aware_utc e \<le> now + max_future_time_us"
  by (induction rs arbitrary: b) (auto simp: bindE_simps dest: ingest_record_not_future)

lemma stored_as_found:
  assumes "stored_as hash k r s" "readings_ok s" "dr_sequence r \<in> seqs"
  shows "\<exists>prior. find (\<lambda>x. rr_sequence x = dr_sequence r)
      (filter (\<lambda>x. rr_device_id x = k \<and> rr_sequence x \<in> seqs) (st_readings s)) = Some prior
    \<and> rr_payload_sha256 prior = hash r"
proof -
  let ?ex = "filter (\<lambda>x. rr_device_id x = k \<and> rr_sequence x \<in> seqs) (st_readings s)"
  obtain row where row: "row \<in> set ?ex" "rr_sequence row = dr_sequence r" "rr_payload_sha256 row = hash r"
    using assms(1,3) by (auto simp: stored_as_def)
  then obtain prior where prior: "find (\<lambda>x. rr_sequence x = dr_sequence r) ?ex = Some prior"
    using find_NoneD by (cases "find (\<lambda>x. rr_sequence x = dr_sequence r) ?ex") blast+
  have "inj_on (\<lambda>r. (rr_device_id r, rr_sequence r)) (set (st_readings s))"
    using assms(2) by (simp add: readings_ok_def distinct_map)
  then have "prior = row" using find_SomeD [OF prior] row by (auto dest: inj_onD)
  then show ?thesis using prior row(3) by auto
qed

text \<open>A cursor that is already exact stays where it is.\<close>

lemma ack_of_fixpoint: "\<not> covered s (dv_id d) (dv_contiguous_ack d + 1) \<Longrightarrow> ack_of s d = dv_contiguous_ack d"
  using ack_of_correct(1) [where d = d and s = s]
    ack_of_correct(2) [where d = d and s = s and n = "dv_contiguous_ack d + 1"] by force

text \<open>A batch whose records are all stored, on a device whose cursor is exact.\<close>

lemma ingest_batch_repeat:
  assumes e: "st_devices t k = Some e" "dv_revoked_at e = None" "dv_id e = k"
    and max: "rb_records batch \<noteq> []" "Max (dr_sequence ` set (rb_records batch)) \<le> dv_maximum_sequence e"
    and stored: "\<forall>r\<in>set (rb_records batch). stored_as hash k r t" "readings_ok t"
    and future: "\<And>r x. r \<in> set (rb_records batch) \<Longrightarrow> dr_interval_end_utc r = Some x
      \<Longrightarrow> aware_utc x \<le> now + max_future_time_us"
    and exact: "\<not> covered t k (dv_contiguous_ack e + 1)"
  shows "ingest_batch hash k batch now t
    = Inr (\<lparr>ir_accepted = 0, ir_identical_retries = length (rb_records batch),
            ir_highest_contiguous_sequence = dv_contiguous_ack e, ir_gaps = find_gaps t e 100\<rparr>, t)"
proof -
  let ?seqs = "dr_sequence ` set (rb_records batch)"
  have same: "put_device e t = t" using e by (simp add: put_device_def fun_upd_idem)
  have max': "e \<lparr>dv_maximum_sequence := max (dv_maximum_sequence e) (Max ?seqs)\<rparr> = e"
    using max(2) by (simp add: max_def)
  have ack: "ack_of t e = dv_contiguous_ack e" using exact e(3) by (intro ack_of_fixpoint) simp
  have retry: "foldE (ingest_record hash e now
      (filter (\<lambda>r. rr_device_id r = k \<and> rr_sequence r \<in> ?seqs) (st_readings t)) ls) (rb_records batch) c
    = Inr (c \<lparr>bt_identical := bt_identical c + length (rb_records batch)\<rparr>)" for c ls
    using stored stored_as_found [of hash k _ t ?seqs] future by (intro ingest_records_retry) auto
  have "ingest_batch hash k batch now t = acknowledge 0 (length (rb_records batch)) e (put_device e t)"
    using e max(1) retry max'
    by (simp add: ingest_batch_def get_device_for_update_def invalidate_from_def Let_def)
  then show ?thesis using same by (simp add: acknowledge_eq ack Let_def)
qed

subsection \<open>Selections put out of date\<close>

definition batch_intervals_inv :: "store \<Rightarrow> batch_state \<Rightarrow> bool" where
  "batch_intervals_inv s0 b \<longleftrightarrow>
     (\<exists>new. st_intervals (bt_store b) = st_intervals s0 @ new
        \<and> (\<forall>i\<in>set new. \<exists>e. bt_earliest b = Some e \<and> e \<le> ni_start_utc i))
     \<and> st_devices (bt_store b) = st_devices s0 \<and> st_accounts (bt_store b) = st_accounts s0
     \<and> st_cost_selections (bt_store b) = st_cost_selections s0
     \<and> st_billing_selections (bt_store b) = st_billing_selections s0"

lemma earliest_of_le: "\<exists>e. earliest_of x t = Some e \<and> e \<le> t \<and> (\<forall>y. x = Some y \<longrightarrow> e \<le> y)"
  by (cases x) (auto simp: earliest_of_def)

lemma ingest_record_intervals:
  assumes "ingest_record hash d now existing ls r b = Inr b'" "batch_intervals_inv s0 b"
  shows "batch_intervals_inv s0 b'"
  using assms(1)
proof (cases rule: ingest_record_cases)
  case (1 prior)
  then show ?thesis using assms(2) by (simp add: batch_intervals_inv_def)
next
  case 2
  from 2(4) show ?thesis
  proof (rule store_reading_effect)
    fix ni
    assume ints: "st_intervals (bt_store b') = st_intervals (bt_store b) @ (case ni of None \<Rightarrow> [] | Some i \<Rightarrow> [i])"
      and early: "bt_earliest b' = (case ni of None \<Rightarrow> bt_earliest b
        | Some i \<Rightarrow> earliest_of (bt_earliest b) (ni_start_utc i))"
      and same: "st_devices (bt_store b') = st_devices (bt_store b)"
        "st_accounts (bt_store b') = st_accounts (bt_store b)"
        "st_cost_selections (bt_store b') = st_cost_selections (bt_store b)"
        "st_billing_selections (bt_store b') = st_billing_selections (bt_store b)"
    obtain new where new: "st_intervals (bt_store b) = st_intervals s0 @ new"
      "\<forall>i\<in>set new. \<exists>e. bt_earliest b = Some e \<and> e \<le> ni_start_utc i"
      using assms(2) by (auto simp: batch_intervals_inv_def)
    have "\<forall>i\<in>set (new @ (case ni of None \<Rightarrow> [] | Some i \<Rightarrow> [i])). \<exists>e. bt_earliest b' = Some e \<and> e \<le> ni_start_utc i"
    proof (cases ni)
      case (Some i)
      obtain e where "earliest_of (bt_earliest b) (ni_start_utc i) = Some e" "e \<le> ni_start_utc i"
        "\<forall>y. bt_earliest b = Some y \<longrightarrow> e \<le> y"
        using earliest_of_le by blast
      then show ?thesis using Some new(2) early by (auto intro: order_trans)
    qed (use new(2) early in simp)
    then show ?thesis
      using assms(2) ints new(1) by (auto simp: batch_intervals_inv_def same)
  qed
qed

lemma ingest_records_intervals:
  "foldE (ingest_record hash d now existing ls) rs \<lparr>bt_store = s, bt_accepted = 0, bt_identical = 0,
     bt_earliest = None\<rparr> = Inr b \<Longrightarrow> batch_intervals_inv s b"
  by (erule foldE_invariant) (simp add: batch_intervals_inv_def, rule ingest_record_intervals)

lemma invalidate_from_drops:
  assumes "x \<in> set (st_cost_selections (invalidate_from home (Some e) s))"
    and "n \<in> set (st_intervals s)" "ni_id n = is_normalized_interval_id x"
    and "st_devices s (ni_device_id n) = Some y" "dv_home_id y = home"
  shows "ni_start_utc n < e"
  using assms
  by (force simp: invalidate_from_def delete_cost_selections_def delete_billing_selections_def list_ex_iff)

end
