(* ===== verification/Store_Demo.thy ===== *)
theory Store_Demo
  imports Telemetry_Store
begin

text \<open>A store with one device in one home, where concrete runs start.\<close>

definition demo_device :: device where
  "demo_device = \<lparr>dv_id = ''d1'', dv_home_id = ''h1'', dv_circuit_id = Some ''c1'',
     dv_include_in_aggregate = True, dv_firmware_version = None,
     dv_revoked_at = None, dv_last_heartbeat_at = None, dv_contiguous_ack = 0,
     dv_maximum_sequence = 0, dv_reset_generation = 0\<rparr>"

definition demo_store :: store where
  "demo_store = \<lparr>st_device_ids = [''d1''],
     st_devices = (\<lambda>k. if k = ''d1'' then Some demo_device else None), st_homes = [''h1''],
     st_accounts = [], st_circuits = [], st_adjustments = [], st_readings = [], st_losses = [], st_intervals = [], st_interval_costs = [],
     st_cost_selections = [],
     st_billing_selections = [], st_settings = [], st_samples = [], st_states = [],
     st_cutovers = [], st_events = [], st_alerts = [], st_next_id = 0\<rparr>"

lemma demo_device_stored: "st_devices demo_store ''d1'' = Some demo_device"
  by (simp add: demo_store_def)

end
