(* ===== verification/Ingestion_Properties.thy ===== *)
theory Ingestion_Properties
  imports Ingestion Store_Demo
begin

text \<open>
  The properties of durable ingestion: the acknowledgement and the gaps against the evidence
  that is stored, the invariant and the monotonicity of every run, retries, and the selections
  that a backlog puts out of date.
\<close>

subsection \<open>A demonstration store\<close>

definition demo_reading :: "int \<Rightarrow> instant \<Rightarrow> durable_reading" where
  "demo_reading n t = \<lparr>dr_sequence = n, dr_reset_generation = 0,
     dr_interval_start_utc = Some (Aware t), dr_interval_end_utc = Some (Aware (t + minute_us)),
     dr_monotonic_start_us = 0, dr_monotonic_end_us = 60000000, dr_sample_count = 60,
     dr_expected_sample_count = 60, dr_voltage_mv = None, dr_current_ma = None,
     dr_active_power_mw = None, dr_frequency_mhz = None, dr_power_factor_milli = None,
     dr_pzem_energy_wh = None, dr_interval_energy_mwh = Some 1500,
     dr_energy_selection = ''pzem_delta'', dr_pzem_status = ''ok'', dr_time_trusted = True,
     dr_flags = [], dr_record_crc32 = 0\<rparr>"

definition demo_batch :: reading_batch_request where
  "demo_batch = \<lparr>rb_protocol_id = ''pm-protocol/1.0.0'',
     rb_records = [demo_reading 1 0, demo_reading 2 minute_us, demo_reading 5 (4 * minute_us)]\<rparr>"

definition demo_hash :: "durable_reading \<Rightarrow> string" where
  "demo_hash r = (if dr_sequence r = 1 then ''a'' else if dr_sequence r = 2 then ''b'' else ''c'')"

definition demo_ingested :: "(ingestion_result \<times> store) result" where
  "demo_ingested = ingest_batch demo_hash ''d1'' demo_batch 0 demo_store"

lemma demo_store_inv: "evidence_inv demo_store"
  by (simp add: evidence_inv_def store_keys_def readings_ok_def losses_ok_def evidence_disjoint_def
      evidence_bounded_def covered_def demo_store_def demo_device_def)

lemma demo_ingested_result:
  "map_sum id fst demo_ingested = Inr \<lparr>ir_accepted = 3, ir_identical_retries = 0,
     ir_highest_contiguous_sequence = 2, ir_gaps = [(3, 4)]\<rparr>"
  by code_simp

lemma demo_run:
  obtains t where "run_ingestion demo_hash ''d1'' (Readings demo_batch 0) demo_store
    = Inr (\<lparr>ir_accepted = 3, ir_identical_retries = 0, ir_highest_contiguous_sequence = 2,
            ir_gaps = [(3, 4)]\<rparr>, t)"
  using demo_ingested_result by (cases demo_ingested) (auto simp: demo_ingested_def)

subsection \<open>Acknowledgement and gaps\<close>

text \<open>C1. After a request the acknowledgement is exact: it is what the response reports, it was not
  lowered, every sequence number it newly covers is stored or has evidence of permanent loss,
  and the next one has neither.\<close>
theorem ingestion_acknowledges_exactly:
  assumes "evidence_inv s" "run_ingestion hash device_id op s = Inr (res, t)"
    and "st_devices s device_id = Some d"
  shows "\<exists>d'. st_devices t device_id = Some d'
    \<and> ir_highest_contiguous_sequence res = dv_contiguous_ack d'
    \<and> dv_contiguous_ack d \<le> dv_contiguous_ack d'
    \<and> (\<forall>n. dv_contiguous_ack d < n \<and> n \<le> dv_contiguous_ack d' \<longrightarrow> covered t device_id n)
    \<and> \<not> covered t device_id (dv_contiguous_ack d' + 1)"
proof -
  have "store_keys s" using assms(1) by (simp add: evidence_inv_def)
  with run_ingestion_step [OF assms(1,2)] show ?thesis
    using assms(3) by (elim ingestion_step_device) auto
qed

theorem ingestion_acknowledges_exactly_witness:
  "\<exists>res t. run_ingestion demo_hash ''d1'' (Readings demo_batch 0) demo_store = Inr (res, t)
     \<and> ir_highest_contiguous_sequence res = 2 \<and> covered t ''d1'' 1 \<and> covered t ''d1'' 2
     \<and> \<not> covered t ''d1'' 3"
proof (rule demo_run)
  fix t
  assume run: "run_ingestion demo_hash ''d1'' (Readings demo_batch 0) demo_store
    = Inr (\<lparr>ir_accepted = 3, ir_identical_retries = 0, ir_highest_contiguous_sequence = 2,
            ir_gaps = [(3, 4)]\<rparr>, t)"
  from ingestion_acknowledges_exactly [OF demo_store_inv run demo_device_stored]
  have "covered t ''d1'' 1 \<and> covered t ''d1'' 2 \<and> \<not> covered t ''d1'' 3"
    by (auto simp: demo_device_def)
  with run show ?thesis by auto
qed

text \<open>C2. The gaps of the response are exact: they are nonempty, in order and apart, each lies above
  the acknowledgement and below the highest known sequence and holds no evidence, and when fewer
  than the limit of 100 are listed, every missing sequence number is in one.\<close>
theorem ingestion_gaps_exact:
  assumes "evidence_inv s" "run_ingestion hash device_id op s = Inr (res, t)"
    and "st_devices t device_id = Some d'"
  shows "length (ir_gaps res) \<le> 100
    \<and> sorted_wrt (\<lambda>(a, b) (c, d). b + 1 < c) (ir_gaps res) \<and> (\<forall>(a, b)\<in>set (ir_gaps res). a \<le> b)
    \<and> (\<forall>n. in_ranges (ir_gaps res) n \<longrightarrow>
         dv_contiguous_ack d' < n \<and> n \<le> dv_maximum_sequence d' \<and> \<not> covered t device_id n)
    \<and> (length (ir_gaps res) < 100 \<longrightarrow>
         (\<forall>n. dv_contiguous_ack d' < n \<and> n \<le> dv_maximum_sequence d' \<and> \<not> covered t device_id n
            \<longrightarrow> in_ranges (ir_gaps res) n))"
proof -
  have inv: "evidence_inv t" using run_ingestion_inv [OF assms(1,2)] .
  have id: "dv_id d' = device_id" using inv assms(3) by (simp add: evidence_inv_def store_keys_def)
  have "store_keys s" using assms(1) by (simp add: evidence_inv_def)
  with run_ingestion_step [OF assms(1,2)] have gaps: "ir_gaps res = find_gaps t d' 100"
    using assms(3) by (elim ingestion_step_device) auto
  let ?rs = "coverage t device_id (dv_contiguous_ack d')"
  let ?all = "all_gaps (dv_maximum_sequence d') (dv_contiguous_ack d' + 1) ?rs"
  have rs: "\<forall>(x, y)\<in>set ?rs. x \<le> y \<and> y \<le> dv_maximum_sequence d'"
    using inv assms(3) coverage_bounds by blast
  then have ne: "\<forall>(x, y)\<in>set ?rs. x \<le> y" by auto
  have exact: "in_ranges ?all n \<longleftrightarrow> dv_contiguous_ack d' < n \<and> n \<le> dv_maximum_sequence d'
      \<and> \<not> covered t device_id n" for n
    using all_gaps_exact [OF coverage_sorted rs, of "dv_contiguous_ack d' + 1" n]
      coverage_covered [of "dv_contiguous_ack d'" n t device_id] by auto
  show ?thesis
  proof (cases "dv_maximum_sequence d' \<le> dv_contiguous_ack d'")
    case True
    then show ?thesis by (auto simp: gaps find_gaps_def)
  next
    case False
    then have take: "ir_gaps res = take 100 ?all" by (simp add: gaps find_gaps_take id)
    have "in_ranges (take 100 ?all) n \<Longrightarrow> in_ranges ?all n" for n
      by (auto simp: in_ranges_def dest: in_set_takeD)
    moreover have "length (take 100 ?all) < 100 \<Longrightarrow> take 100 ?all = ?all" by simp
    ultimately show ?thesis
      unfolding take using exact all_gaps_ordered [OF ne] all_gaps_lower sorted_wrt_take
      by (smt (verit, best) case_prodI2 in_set_takeD length_take min.cobounded2)
  qed
qed

theorem ingestion_gaps_exact_witness:
  "\<exists>res t d'. run_ingestion demo_hash ''d1'' (Readings demo_batch 0) demo_store = Inr (res, t)
     \<and> st_devices t ''d1'' = Some d' \<and> ir_gaps res = [(3, 4)]
     \<and> 4 \<le> dv_maximum_sequence d' \<and> \<not> covered t ''d1'' 4"
proof (rule demo_run)
  fix t
  assume run: "run_ingestion demo_hash ''d1'' (Readings demo_batch 0) demo_store
    = Inr (\<lparr>ir_accepted = 3, ir_identical_retries = 0, ir_highest_contiguous_sequence = 2,
            ir_gaps = [(3, 4)]\<rparr>, t)"
  obtain d' where d': "st_devices t ''d1'' = Some d'"
    using run_ingestion_step [OF demo_store_inv run] demo_device_stored
    by (auto simp: ingestion_step_def put_device_def demo_device_def)
  from ingestion_gaps_exact [OF demo_store_inv run d'] show ?thesis using run d' by auto
qed

subsection \<open>Runs of requests\<close>

definition fresh_store :: "store \<Rightarrow> bool" where
  "fresh_store s \<longleftrightarrow> store_keys s \<and> st_readings s = [] \<and> st_losses s = []
     \<and> (\<forall>k d. st_devices s k = Some d \<longrightarrow> dv_contiguous_ack d = 0 \<and> dv_maximum_sequence d = 0)"

definition ingestion_rel :: "(durable_reading \<Rightarrow> string) \<Rightarrow> store \<Rightarrow> store \<Rightarrow> bool" where
  "ingestion_rel hash s t \<longleftrightarrow> (\<exists>device_id op res. run_ingestion hash device_id op s = Inr (res, t))"

text \<open>Everything a device was acknowledged is covered by evidence.\<close>

definition ack_inv :: "store \<Rightarrow> bool" where
  "ack_inv s \<longleftrightarrow> evidence_inv s \<and>
     (\<forall>k d n. st_devices s k = Some d \<longrightarrow> 1 \<le> n \<longrightarrow> n \<le> dv_contiguous_ack d \<longrightarrow> covered s k n)"

definition ack_level :: "string \<Rightarrow> store \<Rightarrow> int" where
  "ack_level k s = (case st_devices s k of None \<Rightarrow> 0 | Some d \<Rightarrow> dv_contiguous_ack d)"

lemma ingestion_step_covered_mono:
  assumes "ingestion_step device_id s res t" "covered s k n"
  shows "covered t k n"
  using assms by (auto simp: ingestion_step_def covered_def put_device_def)

lemma ingestion_step_other:
  assumes "ingestion_step device_id s res t" "store_keys s" "k \<noteq> device_id"
  shows "st_devices t k = st_devices s k"
  using assms by (auto simp: ingestion_step_def put_device_def store_keys_def)

lemma ingestion_rel_ack_inv:
  assumes "ack_inv s" "ingestion_rel hash s t"
  shows "ack_inv t"
proof -
  obtain device_id op res where run: "run_ingestion hash device_id op s = Inr (res, t)"
    using assms(2) by (auto simp: ingestion_rel_def)
  have inv: "evidence_inv s" using assms(1) by (simp add: ack_inv_def)
  note step = run_ingestion_step [OF inv run]
  have "covered t k n" if dev: "st_devices t k = Some d'" "1 \<le> n" "n \<le> dv_contiguous_ack d'" for k d' n
  proof (cases "k = device_id")
    case True
    have "store_keys s" using inv by (simp add: evidence_inv_def)
    with step obtain d where d: "st_devices s device_id = Some d"
      "\<forall>n. dv_contiguous_ack d < n \<and> n \<le> dv_contiguous_ack d' \<longrightarrow> covered t device_id n"
      using dev(1) True by (elim ingestion_step_device) auto
    show ?thesis
    proof (cases "n \<le> dv_contiguous_ack d")
      case le: True
      then have "covered s k n" using assms(1) d(1) that(2) True by (auto simp: ack_inv_def)
      then show ?thesis by (rule ingestion_step_covered_mono [OF step])
    qed (use d(2) that(3) True in auto)
  next
    case False
    then have "st_devices s k = Some d'"
      using ingestion_step_other [OF step _ False] that(1) inv by (simp add: evidence_inv_def)
    then show ?thesis
      using assms(1) that(2,3) ingestion_step_covered_mono [OF step] by (auto simp: ack_inv_def)
  qed
  then show ?thesis using run_ingestion_inv [OF inv run] by (simp add: ack_inv_def)
qed

lemma ingestion_rel_level:
  assumes "ack_inv s" "ingestion_rel hash s t"
  shows "ack_level k s \<le> ack_level k t"
proof -
  obtain device_id op res where run: "run_ingestion hash device_id op s = Inr (res, t)"
    using assms(2) by (auto simp: ingestion_rel_def)
  have inv: "evidence_inv s" using assms(1) by (simp add: ack_inv_def)
  note step = run_ingestion_step [OF inv run]
  show ?thesis
  proof (cases "k = device_id")
    case True
    have "store_keys s" using inv by (simp add: evidence_inv_def)
    with step show ?thesis using True by (elim ingestion_step_device) (auto simp: ack_level_def)
  next
    case False
    then show ?thesis
      using ingestion_step_other [OF step] inv by (simp add: ack_level_def evidence_inv_def)
  qed
qed

interpretation ingestion: monotone_system fresh_store "ingestion_rel hash" ack_inv "ack_level k" for hash k
proof unfold_locales
  show "ack_inv s" if "fresh_store s" for s
    using that by (auto simp: fresh_store_def ack_inv_def evidence_inv_def readings_ok_def losses_ok_def
        evidence_disjoint_def evidence_bounded_def covered_def)
qed (auto intro: ingestion_rel_ack_inv ingestion_rel_level)


lemma demo_store_fresh: "fresh_store demo_store"
  by (simp add: fresh_store_def store_keys_def demo_store_def demo_device_def)


text \<open>C21. Over any run of requests a device's acknowledgement never goes back, and no stored reading
  or loss evidence is ever dropped or changed.\<close>
theorem acknowledgement_never_regresses:
  assumes "(ingestion_rel hash)\<^sup>*\<^sup>* s t" "ack_inv s"
  shows "ack_level k s \<le> ack_level k t \<and> set (st_readings s) \<subseteq> set (st_readings t)
    \<and> set (st_losses s) \<subseteq> set (st_losses t)"
proof -
  have "set (st_readings s) \<subseteq> set (st_readings t) \<and> set (st_losses s) \<subseteq> set (st_losses t)"
    using assms
  proof (induction rule: rtranclp_induct)
    case (step t u)
    have "evidence_inv t" using ingestion.steps_inv [OF step(1)] step.prems by (simp add: ack_inv_def)
    then obtain device_id res where "ingestion_step device_id t res u"
      using step(2) run_ingestion_step unfolding ingestion_rel_def by blast
    then show ?case using step.IH [OF step.prems] by (auto simp: ingestion_step_def put_device_def)
  qed simp
  then show ?thesis using ingestion.steps_level [OF assms] by blast
qed

theorem acknowledgement_never_regresses_witness:
  "\<exists>t. (ingestion_rel demo_hash)\<^sup>*\<^sup>* demo_store t \<and> ack_level ''d1'' demo_store \<le> ack_level ''d1'' t"
proof (rule demo_run)
  fix t
  assume run: "run_ingestion demo_hash ''d1'' (Readings demo_batch 0) demo_store
    = Inr (\<lparr>ir_accepted = 3, ir_identical_retries = 0, ir_highest_contiguous_sequence = 2,
            ir_gaps = [(3, 4)]\<rparr>, t)"
  have "ingestion_rel demo_hash demo_store t" using run unfolding ingestion_rel_def by blast
  then have "(ingestion_rel demo_hash)\<^sup>*\<^sup>* demo_store t" by blast
  moreover have "ack_inv demo_store" using demo_store_fresh by (rule ingestion.initial_inv)
  ultimately show ?thesis using acknowledgement_never_regresses by blast
qed

subsection \<open>Batches\<close>

text \<open>C22. A batch is accepted as a whole: when it succeeds every one of its records is stored for the
  device under its sequence number with the hash of its content, and the accepted and the
  repeated records add up to the batch.\<close>
theorem ingest_batch_stores_all:
  assumes "evidence_inv s" "ingest_batch hash device_id batch now s = Inr (res, t)"
  shows "(\<forall>r\<in>set (rb_records batch). stored_as hash device_id r t)
    \<and> ir_accepted res + ir_identical_retries res = length (rb_records batch)"
  using assms(2)
proof (rule ingest_batch_Inr)
  fix d :: device and b :: batch_state
  let ?seqs = "dr_sequence ` set (rb_records batch)"
  assume d: "st_devices s device_id = Some d"
    and run: "foldE (ingest_record hash d now
        (filter (\<lambda>r. rr_device_id r = device_id \<and> rr_sequence r \<in> ?seqs) (st_readings s))
        (batch_losses s device_id ?seqs)) (rb_records batch)
      \<lparr>bt_store = s, bt_accepted = 0, bt_identical = 0, bt_earliest = None\<rparr> = Inr b"
    and ack: "acknowledge (bt_accepted b) (bt_identical b)
      (d \<lparr>dv_maximum_sequence := max (dv_maximum_sequence d) (Max ?seqs)\<rparr>)
      (invalidate_from (dv_home_id d) (bt_earliest b)
        (put_device (d \<lparr>dv_maximum_sequence := max (dv_maximum_sequence d) (Max ?seqs)\<rparr>) (bt_store b)))
      = Inr (res, t)"
  have id: "dv_id d = device_id" using assms(1) d by (simp add: evidence_inv_def store_keys_def)
  have "\<forall>r\<in>set (rb_records batch). stored_as hash device_id r (bt_store b)"
    "bt_accepted b + bt_identical b = length (rb_records batch)"
    using ingest_records_store [OF run] by (auto simp: id)
  then show ?thesis using ack by (auto simp: acknowledge_eq Let_def stored_as_def put_device_def)
qed

theorem ingest_batch_stores_all_witness:
  "\<exists>res t. ingest_batch demo_hash ''d1'' demo_batch 0 demo_store = Inr (res, t)
     \<and> stored_as demo_hash ''d1'' (demo_reading 5 (4 * minute_us)) t"
proof (rule demo_run)
  fix t
  assume "run_ingestion demo_hash ''d1'' (Readings demo_batch 0) demo_store
    = Inr (\<lparr>ir_accepted = 3, ir_identical_retries = 0, ir_highest_contiguous_sequence = 2,
            ir_gaps = [(3, 4)]\<rparr>, t)"
  then have run: "ingest_batch demo_hash ''d1'' demo_batch 0 demo_store
    = Inr (\<lparr>ir_accepted = 3, ir_identical_retries = 0, ir_highest_contiguous_sequence = 2,
            ir_gaps = [(3, 4)]\<rparr>, t)" by simp
  with ingest_batch_stores_all [OF demo_store_inv run] show ?thesis by (auto simp: demo_batch_def)
qed

text \<open>C4. Retrying an accepted batch is harmless: the second delivery succeeds, stores nothing, counts
  every record as a repeat, and reports the same acknowledgement and gaps from the same store.\<close>
theorem ingest_batch_idempotent:
  assumes "evidence_inv s" "ingest_batch hash device_id batch now s = Inr (res, t)" "now \<le> now'"
  shows "ingest_batch hash device_id batch now' t
    = Inr (res \<lparr>ir_accepted := 0, ir_identical_retries := length (rb_records batch)\<rparr>, t)"
  using assms(2)
proof (rule ingest_batch_Inr)
  fix d :: device and b :: batch_state
  let ?seqs = "dr_sequence ` set (rb_records batch)"
  let ?d = "d \<lparr>dv_maximum_sequence := max (dv_maximum_sequence d) (Max ?seqs)\<rparr>"
  let ?u = "invalidate_from (dv_home_id d) (bt_earliest b) (put_device ?d (bt_store b))"
  assume d: "st_devices s device_id = Some d" "dv_revoked_at d = None" "rb_records batch \<noteq> []"
    and run: "foldE (ingest_record hash d now
        (filter (\<lambda>r. rr_device_id r = device_id \<and> rr_sequence r \<in> ?seqs) (st_readings s))
        (batch_losses s device_id ?seqs)) (rb_records batch)
      \<lparr>bt_store = s, bt_accepted = 0, bt_identical = 0, bt_earliest = None\<rparr> = Inr b"
    and ack: "acknowledge (bt_accepted b) (bt_identical b) ?d ?u = Inr (res, t)"
  have id: "dv_id d = device_id" using assms(1) d by (simp add: evidence_inv_def store_keys_def)
  have inv: "evidence_inv t" using ingest_batch_inv [OF assms(1,2)] .
  define e where "e = ?d \<lparr>dv_contiguous_ack := ack_of ?u ?d\<rparr>"
  have t: "t = put_device e ?u" and res: "ir_highest_contiguous_sequence res = dv_contiguous_ack e"
    "ir_gaps res = find_gaps t e 100" using ack by (auto simp: acknowledge_eq Let_def e_def)
  have dev: "st_devices t device_id = Some e" "dv_revoked_at e = None" "dv_id e = device_id"
    using d by (simp_all add: t put_device_def id e_def)
  have max: "Max ?seqs \<le> dv_maximum_sequence e" by (simp add: e_def)
  have "\<not> covered t device_id (dv_contiguous_ack e + 1)"
    using ack_of_correct(3) [where d = ?d and s = ?u] by (simp add: t e_def id)
  moreover have "\<forall>r\<in>set (rb_records batch). stored_as hash device_id r (bt_store b)"
    using ingest_records_store(1) [OF run] by (auto simp: id)
  then have "\<forall>r\<in>set (rb_records batch). stored_as hash device_id r t"
    by (simp add: t stored_as_def put_device_def)
  moreover have "readings_ok t" using inv by (simp add: evidence_inv_def)
  moreover have "aware_utc x \<le> now' + max_future_time_us"
    if "r \<in> set (rb_records batch)" "dr_interval_end_utc r = Some x" for r x
    using ingest_records_not_future [OF run that] assms(3) by simp
  ultimately have "ingest_batch hash device_id batch now' t
      = Inr (\<lparr>ir_accepted = 0, ir_identical_retries = length (rb_records batch),
              ir_highest_contiguous_sequence = dv_contiguous_ack e, ir_gaps = find_gaps t e 100\<rparr>, t)"
    by (intro ingest_batch_repeat [OF dev d(3) max]) auto
  then show ?thesis using res by simp
qed

theorem ingest_batch_idempotent_witness:
  "\<exists>res t. ingest_batch demo_hash ''d1'' demo_batch 0 demo_store = Inr (res, t)
     \<and> ingest_batch demo_hash ''d1'' demo_batch 60000000 t
         = Inr (res \<lparr>ir_accepted := 0, ir_identical_retries := 3\<rparr>, t)"
proof (rule demo_run)
  fix t
  assume "run_ingestion demo_hash ''d1'' (Readings demo_batch 0) demo_store
    = Inr (\<lparr>ir_accepted = 3, ir_identical_retries = 0, ir_highest_contiguous_sequence = 2,
            ir_gaps = [(3, 4)]\<rparr>, t)"
  then have run: "ingest_batch demo_hash ''d1'' demo_batch 0 demo_store
    = Inr (\<lparr>ir_accepted = 3, ir_identical_retries = 0, ir_highest_contiguous_sequence = 2,
            ir_gaps = [(3, 4)]\<rparr>, t)" by simp
  with ingest_batch_idempotent [OF demo_store_inv run, of 60000000] show ?thesis
    by (auto simp: demo_batch_def)
qed

text \<open>C23. A backlog puts later prices out of date: after a batch no cost selection of the home's
  intervals starts at or after an interval the batch inserted, so that tiers are rebuilt in
  order, and no billing estimate of the home stays selected once an interval was inserted.\<close>
theorem ingest_batch_invalidates_later_costs:
  assumes "evidence_inv s" "ingest_batch hash device_id batch now s = Inr (res, t)"
    and "st_devices s device_id = Some d"
    and "i \<in> set (st_intervals t)" "i \<notin> set (st_intervals s)"
  shows "(\<forall>x n y. x \<in> set (st_cost_selections t) \<longrightarrow> n \<in> set (st_intervals t) \<longrightarrow>
      ni_id n = is_normalized_interval_id x \<longrightarrow> st_devices t (ni_device_id n) = Some y \<longrightarrow>
      dv_home_id y = dv_home_id d \<longrightarrow> ni_start_utc n < ni_start_utc i)
    \<and> (\<forall>x a. x \<in> set (st_billing_selections t) \<longrightarrow> a \<in> set (st_accounts t) \<longrightarrow>
      ua_home_id a = dv_home_id d \<longrightarrow> ua_id a \<noteq> bs_utility_account_id x)"
  using assms(2)
proof (rule ingest_batch_Inr)
  fix d0 :: device and b :: batch_state
  let ?seqs = "dr_sequence ` set (rb_records batch)"
  let ?d = "d0 \<lparr>dv_maximum_sequence := max (dv_maximum_sequence d0) (Max ?seqs)\<rparr>"
  let ?p = "put_device ?d (bt_store b)"
  let ?u = "invalidate_from (dv_home_id d0) (bt_earliest b) ?p"
  assume d0: "st_devices s device_id = Some d0"
    and run: "foldE (ingest_record hash d0 now
        (filter (\<lambda>r. rr_device_id r = device_id \<and> rr_sequence r \<in> ?seqs) (st_readings s))
        (batch_losses s device_id ?seqs)) (rb_records batch)
      \<lparr>bt_store = s, bt_accepted = 0, bt_identical = 0, bt_earliest = None\<rparr> = Inr b"
    and ack: "acknowledge (bt_accepted b) (bt_identical b) ?d ?u = Inr (res, t)"
  define f where "f = ?d \<lparr>dv_contiguous_ack := ack_of ?u ?d\<rparr>"
  have t: "t = put_device f ?u" using ack by (auto simp: acknowledge_eq Let_def f_def)
  have f: "dv_id f = dv_id d0" "dv_home_id f = dv_home_id d0" by (simp_all add: f_def)
  obtain e where e: "bt_earliest b = Some e" "e \<le> ni_start_utc i"
    using ingest_records_intervals [OF run] assms(4,5)
    by (fastforce simp: batch_intervals_inv_def t put_device_def)
  have home: "\<exists>z. st_devices ?p k = Some z \<and> dv_home_id z = dv_home_id y"
    if "st_devices t k = Some y" for k y
    using that f by (auto simp: t put_device_def split: if_splits)
  have "ni_start_utc n < ni_start_utc i" if sel: "x \<in> set (st_cost_selections t)" "n \<in> set (st_intervals t)"
    "ni_id n = is_normalized_interval_id x" "st_devices t (ni_device_id n) = Some y"
    "dv_home_id y = dv_home_id d" for x n y
  proof -
    obtain z where "st_devices ?p (ni_device_id n) = Some z" "dv_home_id z = dv_home_id d0"
      using home [OF sel(4)] sel(5) d0 assms(3) by auto
    moreover have "x \<in> set (st_cost_selections (invalidate_from (dv_home_id d0) (Some e) ?p))"
      "n \<in> set (st_intervals ?p)"
      using sel(1,2) by (simp_all add: t put_device_def e)
    ultimately show ?thesis using invalidate_from_drops sel(3) e(2) by fastforce
  qed
  moreover have "ua_id a \<noteq> bs_utility_account_id x" if "x \<in> set (st_billing_selections t)"
    "a \<in> set (st_accounts t)" "ua_home_id a = dv_home_id d" for x a
    using that d0 assms(3) by (auto simp: t put_device_def e invalidate_from_def
        delete_cost_selections_def delete_billing_selections_def list_ex_iff)
  ultimately show ?thesis by blast
qed

theorem ingest_batch_invalidates_later_costs_witness:
  "\<exists>res t i. ingest_batch demo_hash ''d1'' demo_batch 0 demo_store = Inr (res, t)
     \<and> i \<in> set (st_intervals t)
     \<and> (\<forall>x n y. x \<in> set (st_cost_selections t) \<longrightarrow> n \<in> set (st_intervals t) \<longrightarrow>
          ni_id n = is_normalized_interval_id x \<longrightarrow> st_devices t (ni_device_id n) = Some y \<longrightarrow>
          dv_home_id y = dv_home_id demo_device \<longrightarrow> ni_start_utc n < ni_start_utc i)"
proof -
  have "map_sum id (\<lambda>(r, t). map ni_start_utc (st_intervals t)) demo_ingested = Inr [0, 60000000, 240000000]"
    by code_simp
  then obtain res t where run: "ingest_batch demo_hash ''d1'' demo_batch 0 demo_store = Inr (res, t)"
    and ints: "map ni_start_utc (st_intervals t) = [0, 60000000, 240000000]"
    by (cases demo_ingested) (auto simp: demo_ingested_def)
  from ints obtain i where "i \<in> set (st_intervals t)" by (cases "st_intervals t") auto
  moreover have "i \<notin> set (st_intervals demo_store)" by (simp add: demo_store_def)
  ultimately show ?thesis
    using ingest_batch_invalidates_later_costs [OF demo_store_inv run demo_device_stored, of i] run by blast
qed

text \<open>C24. A validated reading never trips a constraint of the interval table: if it is trusted and has
  energy it yields an interval over its own span with its energy, the floor of its average
  power and a completeness between 0 and 1; otherwise it yields none.\<close>
theorem validated_reading_normalizes:
  assumes "validate_durable_reading r = Inr ()"
  shows "if dr_time_trusted r \<and> \<not> unavailable_energy r
    then \<exists>i start end_t energy. normalized_of_record new_id reading_id device_id r = Inr (Some i)
      \<and> interval_constraints i \<and> dr_interval_start_utc r = Some (Aware start)
      \<and> dr_interval_end_utc r = Some (Aware end_t) \<and> dr_interval_energy_mwh r = Some energy
      \<and> ni_start_utc i = start \<and> ni_end_utc i = end_t \<and> ni_energy_mwh i = Some energy
      \<and> ni_raw_reading_id i = Some reading_id
      \<and> ni_average_power_mw i = Some (energy * 3600000000 div (end_t - start))
    else normalized_of_record new_id reading_id device_id r = Inr None"
proof (cases "dr_time_trusted r \<and> \<not> unavailable_energy r")
  case True
  note v = validate_durable_readingD [OF assms]
  obtain start end_t where se: "dr_interval_start_utc r = Some (Aware start)"
    "dr_interval_end_utc r = Some (Aware end_t)" "start < end_t" using v(6) True by blast
  obtain energy where en: "dr_interval_energy_mwh r = Some energy" using v(8) True by blast
  let ?c = "dec_div (of_int (dr_sample_count r)) (of_int (dr_expected_sample_count r))"
  have "0 \<le> ?c" "?c \<le> 1" using dec_ratio_unit v(2,3,4) by auto
  then show ?thesis
    using True se en v(4,5)
    by (simp add: normalized_of_record_def dec_divE_def interval_constraints_def Let_def)
next
  case False
  then show ?thesis
    by (auto simp: normalized_of_record_def split: bool.splits option.splits)
qed

theorem validated_reading_normalizes_witness:
  "\<exists>i. normalized_of_record 8 7 ''d1'' (demo_reading 1 0) = Inr (Some i) \<and> interval_constraints i
     \<and> ni_average_power_mw i = Some 90000"
proof -
  have "validate_durable_reading (demo_reading 1 0) = Inr ()" by code_simp
  from validated_reading_normalizes [OF this, of 8 7 "''d1''"] show ?thesis
    by (auto simp: demo_reading_def unavailable_energy_def)
qed

end
