(* ===== verification/Stateless_Telemetry.thy ===== *)
theory Stateless_Telemetry
  imports Telemetry_Store
begin

text \<open>
  \<open>backend/app/services/stateless_telemetry.py\<close>: one independent telemetry sample at a time.
  A sample is stored once, its counter difference becomes energy of a history bucket or
  evidence of a connection gap, and the device's live state follows the newest sample. An
  operation returns its exception, after which the transaction is rolled back, or the new store.
  The digest of a payload and the time zones are parameters.
\<close>

subsection \<open>Results and settings\<close>

record stateless_result =
  sr_status :: string
  sr_received_at :: instant
  sr_timestamp_source :: string
  sr_config_version :: int
  sr_telemetry_interval_seconds :: int
  sr_advances_live_state :: bool

text \<open>
  The measurement content is hashed without the command results, which may differ on a retry;
  \<open>digest\<close> is the canonical JSON followed by SHA-256.
\<close>

definition stateless_payload_hash :: "(telemetry_request \<Rightarrow> string) \<Rightarrow> telemetry_request \<Rightarrow> string" where
  "stateless_payload_hash digest q = digest (q \<lparr>tq_command_results := []\<rparr>)"

definition default_telemetry_setting :: "string \<Rightarrow> telemetry_setting" where
  "default_telemetry_setting home_id = \<lparr>ts_home_id = home_id, ts_config_version = 1,
     ts_telemetry_interval_seconds = 5, ts_history_interval_seconds = 60,
     ts_retention_days = Some 365\<rparr>"

definition telemetry_settings_for_home ::
  "string \<Rightarrow> store \<Rightarrow> (telemetry_setting \<times> store) result" where
  "telemetry_settings_for_home home_id s =
     (if home_id \<notin> set (st_homes s) then Inl (NotFound ''home does not exist'')
      else case find (\<lambda>t. ts_home_id t = home_id) (st_settings s) of
             Some t \<Rightarrow> Inr (t, s)
           | None \<Rightarrow> let t = default_telemetry_setting home_id
                     in Inr (t, s \<lparr>st_settings := st_settings s @ [t]\<rparr>))"

subsection \<open>Arithmetic\<close>

definition history_bucket :: "instant \<Rightarrow> int \<Rightarrow> instant \<times> instant" where
  "history_bucket t seconds =
     (let epoch_seconds = t div second_us;
          start = (epoch_seconds - epoch_seconds mod seconds) * second_us
      in (start, start + seconds * second_us))"

definition scaled :: "decimal option \<Rightarrow> int \<Rightarrow> int option" where
  "scaled v multiplier = map_option (\<lambda>x. dec_int (dec_mul x (of_int multiplier))) v"

definition incremental_average :: "int option \<Rightarrow> int \<Rightarrow> int option \<Rightarrow> int option" where
  "incremental_average prior n current =
     (case current of None \<Rightarrow> prior
      | Some c \<Rightarrow>
          (case prior of None \<Rightarrow> Some c
           | Some p \<Rightarrow> if n \<le> 0 then Some c else Some ((p * n + c) div (n + 1))))"

definition cycle_key :: "zoneinfo \<Rightarrow> instant \<Rightarrow> utility_account \<Rightarrow> (int \<times> int) result" where
  "cycle_key tz t account =
     bindE (astimezone tz (ua_timezone account) t) (\<lambda>local.
       let d = wall_date local; year = date_year d; month = date_month d in
       if date_day d < ua_billing_day account
       then Inr (if month - 1 = 0 then (year - 1, 12) else (year, month - 1))
       else Inr (year, month))"

definition completeness_of :: "normalized_interval \<Rightarrow> decimal" where
  "completeness_of i =
     min 1 (dec_div (of_int (ni_received_sample_count i)) (of_int (ni_expected_sample_count i)))"

definition gap_status_of :: "normalized_interval \<Rightarrow> string" where
  "gap_status_of i =
     (if ni_gap_status i \<noteq> ''connection_gap''
      then (if ni_expected_sample_count i \<le> ni_received_sample_count i then ''complete'' else ''partial'')
      else ni_gap_status i)"

subsection \<open>Finalizing\<close>

definition finalize_row :: "normalized_interval \<Rightarrow> normalized_interval" where
  "finalize_row i = i \<lparr>ni_finalized := True, ni_completeness := completeness_of i,
     ni_gap_status := gap_status_of i\<rparr>"

definition finalize_prior_buckets :: "string \<Rightarrow> instant \<Rightarrow> store \<Rightarrow> store" where
  "finalize_prior_buckets device_id current_start s = s \<lparr>st_intervals :=
     map (\<lambda>i. if ni_device_id i = device_id \<and> ni_source_kind i = ''stateless_v2''
                 \<and> \<not> ni_finalized i \<and> ni_start_utc i < current_start
              then finalize_row i else i) (st_intervals s)\<rparr>"

definition due_for_finalizing :: "instant \<Rightarrow> normalized_interval \<Rightarrow> bool" where
  "due_for_finalizing t i \<longleftrightarrow>
     ni_source_kind i = ''stateless_v2'' \<and> \<not> ni_finalized i \<and> ni_end_utc i \<le> t"

definition finalize_stateless_history :: "instant \<Rightarrow> store \<Rightarrow> nat \<times> store" where
  "finalize_stateless_history t s =
     (length (filter (due_for_finalizing t) (st_intervals s)),
      s \<lparr>st_intervals := map (\<lambda>i. if due_for_finalizing t i then finalize_row i else i)
           (st_intervals s)\<rparr>)"

definition invalidate_mutable_cost_selections :: "device \<Rightarrow> row_id \<Rightarrow> store \<Rightarrow> store" where
  "invalidate_mutable_cost_selections d interval_id s =
     delete_billing_selections (dv_home_id d) (delete_cost_selections (\<lambda>i. i = interval_id) s)"

subsection \<open>Energy evidence\<close>

definition event_of :: "device \<Rightarrow> telemetry_sample \<Rightarrow> string \<Rightarrow> instant \<Rightarrow> int option \<Rightarrow> int option
    \<Rightarrow> int option \<Rightarrow> string \<Rightarrow> (string \<times> json) list \<Rightarrow> energy_event" where
  "event_of d x kind gap_start prior current recovered status evidence = \<lparr>
     ee_home_id = dv_home_id d, ee_device_id = dv_id d, ee_sample_id = sm_id x,
     ee_event_type = kind, ee_gap_start_utc = Some gap_start, ee_gap_end_utc = Some (sm_effective_at x),
     ee_prior_energy_wh = prior, ee_current_energy_wh = current,
     ee_recovered_energy_mwh = recovered, ee_billing_status = status, ee_evidence = evidence\<rparr>"

definition reset_alert :: "device \<Rightarrow> telemetry_sample \<Rightarrow> int \<Rightarrow> int \<Rightarrow> alert" where
  "reset_alert d x prior_total current_total = \<lparr>
     al_home_id = dv_home_id d, al_device_id = dv_id d,
     al_alert_type = ''pzem_energy_counter_reset'', al_severity = ''warning'', al_state = ''open'', al_opened_at = sm_received_at x,
     al_evidence = [(''prior_energy_wh'', JInt prior_total), (''current_energy_wh'', JInt current_total),
       (''sample_id'', JInt (int (sm_id x)))]\<rparr>"

definition crosses_cycle ::
  "zoneinfo \<Rightarrow> store \<Rightarrow> device \<Rightarrow> instant \<Rightarrow> instant \<Rightarrow> bool result" where
  "crosses_cycle tz s d baseline_at effective_at =
     (case find (\<lambda>a. ua_home_id a = dv_home_id d) (st_accounts s) of
        None \<Rightarrow> Inr False
      | Some account \<Rightarrow>
          bindE (cycle_key tz baseline_at account) (\<lambda>k1.
          bindE (cycle_key tz effective_at account) (\<lambda>k2. Inr (k1 \<noteq> k2))))"

definition current_counter :: "telemetry_sample \<Rightarrow> int option" where
  "current_counter x = (if sm_pzem_status x = ''ok'' then sm_pzem_energy_wh x else None)"

definition has_connection_gap ::
  "telemetry_sample \<Rightarrow> telemetry_sample \<Rightarrow> telemetry_sample option \<Rightarrow> int \<Rightarrow> bool" where
  "has_connection_gap x previous_delivery previous_energy interval_seconds \<longleftrightarrow>
     (let threshold = interval_seconds * 2 * second_us in
      threshold < sm_effective_at x - sm_effective_at previous_delivery
      \<or> (case previous_energy of None \<Rightarrow> False
          | Some p \<Rightarrow> current_counter x \<noteq> None \<and> threshold < sm_effective_at x - sm_effective_at p))"

definition record_energy_evidence ::
  "zoneinfo \<Rightarrow> device \<Rightarrow> telemetry_sample \<Rightarrow> telemetry_sample option \<Rightarrow> telemetry_sample option
     \<Rightarrow> int \<Rightarrow> store \<Rightarrow> (int option \<times> bool \<times> store) result" where
  "record_energy_evidence tz d x previous_delivery previous_energy interval_seconds s =
     (case previous_delivery of
        None \<Rightarrow> Inr (None, False, s)
      | Some pd \<Rightarrow>
          let prior_total = Option.bind previous_energy sm_pzem_energy_wh;
              current_total = current_counter x;
              connection_gap = has_connection_gap x pd previous_energy interval_seconds;
              baseline_at = (case previous_energy of Some p \<Rightarrow> sm_effective_at p
                             | None \<Rightarrow> sm_effective_at pd);
              delta_mwh = (case (prior_total, current_total) of
                             (Some p, Some c) \<Rightarrow> Some ((c - p) * 1000) | _ \<Rightarrow> None)
          in case (prior_total, current_total) of
               (Some p, Some c) \<Rightarrow>
                 if c < p then
                   bindE (insert_event (event_of d x ''counter_reset'' baseline_at (Some p) (Some c) None
                       ''excluded'' [(''negative_delta_prevented'', JBool True),
                         (''new_baseline_established'', JBool True)]) s) (\<lambda>s'.
                     Inr (None, connection_gap, s' \<lparr>st_alerts := st_alerts s' @ [reset_alert d x p c]\<rparr>))
                 else if \<not> connection_gap then Inr (delta_mwh, False, s)
                 else
                   bindE (crosses_cycle tz s d baseline_at (sm_effective_at x)) (\<lambda>crosses.
                   let recovered = (if crosses then None else delta_mwh) in
                   bindE (insert_event (event_of d x
                       (if recovered \<noteq> None then ''connection_gap_recovered'' else ''connection_gap_unresolved'')
                       (baseline_at + interval_seconds * second_us) (Some p) (Some c) recovered
                       (if recovered \<noteq> None then ''included'' else ''unresolved'')
                       [(''power_curve_fabricated'', JBool False), (''crosses_billing_cycle'', JBool crosses),
                        (''counter_delta_available'', JBool True)]) s) (\<lambda>s'.
                     Inr (None, True, s')))
             | (None, Some c) \<Rightarrow>
                 if \<not> connection_gap then Inr (None, False, s)
                 else
                   bindE (crosses_cycle tz s d baseline_at (sm_effective_at x)) (\<lambda>crosses.
                   bindE (insert_event (event_of d x ''connection_gap_unresolved''
                       (baseline_at + interval_seconds * second_us) None (Some c) None ''unresolved''
                       [(''power_curve_fabricated'', JBool False), (''crosses_billing_cycle'', JBool crosses),
                        (''counter_delta_available'', JBool False)]) s) (\<lambda>s'.
                     Inr (None, True, s')))
             | (_, None) \<Rightarrow> Inr (None, connection_gap, s))"

subsection \<open>History buckets\<close>

definition expected_samples :: "telemetry_setting \<Rightarrow> int" where
  "expected_samples t =
     max 1 (- ((- ts_history_interval_seconds t) div ts_telemetry_interval_seconds t))"

definition new_bucket :: "row_id \<Rightarrow> device \<Rightarrow> telemetry_sample \<Rightarrow> telemetry_setting \<Rightarrow> int option \<Rightarrow> bool
    \<Rightarrow> normalized_interval" where
  "new_bucket i d x t energy_mwh connection_gap =
     (let (start, end_t) = history_bucket (sm_effective_at x) (ts_history_interval_seconds t);
          expected = expected_samples t;
          valid = (sm_pzem_status x = ''ok'' \<and> el_active_power_w x \<noteq> None);
          v = (\<lambda>field. if valid then scaled (field x) 1000 else None);
          received_count = py_bool_int valid
      in \<lparr>ni_id = i, ni_device_id = dv_id d, ni_raw_reading_id = None, ni_start_utc = start,
          ni_end_utc = end_t, ni_energy_mwh = energy_mwh, ni_average_power_mw = v el_active_power_w,
          ni_completeness = dec_div (of_int received_count) (of_int expected),
          ni_energy_selection = (if energy_mwh \<noteq> None then ''pzem_delta'' else ''unavailable_initial''),
          ni_algorithm_version = ''server-bucket-v2'', ni_source_authenticated = True,
          ni_source_kind = ''stateless_v2'', ni_minimum_power_mw = v el_active_power_w,
          ni_maximum_power_mw = v el_active_power_w, ni_ending_voltage_mv = v el_voltage_v,
          ni_ending_current_ma = v el_current_a, ni_average_frequency_mhz = v el_frequency_hz,
          ni_average_power_factor_milli = v el_power_factor,
          ni_received_sample_count = received_count, ni_expected_sample_count = expected,
          ni_gap_status = (if connection_gap then ''connection_gap'' else ''partial''),
          ni_finalized = False, ni_last_received_at = Some (sm_received_at x)\<rparr>)"

fun opt_min :: "int option \<Rightarrow> int \<Rightarrow> int option" where
  "opt_min None v = Some v"
| "opt_min (Some m) v = Some (min m v)"

fun opt_max :: "int option \<Rightarrow> int \<Rightarrow> int option" where
  "opt_max None v = Some v"
| "opt_max (Some m) v = Some (max m v)"

text \<open>The measurements of a valid sample folded into its bucket.\<close>

definition add_measurement :: "telemetry_sample \<Rightarrow> int \<Rightarrow> normalized_interval \<Rightarrow> normalized_interval" where
  "add_measurement x expected b =
     (case (sm_pzem_status x = ''ok'', scaled (el_active_power_w x) 1000) of
        (True, Some power_mw) \<Rightarrow>
          let n = ni_received_sample_count b in
          b \<lparr>ni_received_sample_count := min expected (n + 1),
             ni_average_power_mw := incremental_average (ni_average_power_mw b) n (Some power_mw),
             ni_minimum_power_mw := opt_min (ni_minimum_power_mw b) power_mw,
             ni_maximum_power_mw := opt_max (ni_maximum_power_mw b) power_mw,
             ni_ending_voltage_mv := scaled (el_voltage_v x) 1000,
             ni_ending_current_ma := scaled (el_current_a x) 1000,
             ni_average_frequency_mhz := incremental_average (ni_average_frequency_mhz b) n
               (scaled (el_frequency_hz x) 1000),
             ni_average_power_factor_milli := incremental_average (ni_average_power_factor_milli b) n
               (scaled (el_power_factor x) 1000)\<rparr>
      | _ \<Rightarrow> b)"

definition add_energy :: "int option \<Rightarrow> normalized_interval \<Rightarrow> normalized_interval" where
  "add_energy energy_mwh b =
     (case energy_mwh of None \<Rightarrow> b
      | Some e \<Rightarrow> b \<lparr>ni_energy_mwh := Some ((case ni_energy_mwh b of None \<Rightarrow> 0 | Some x \<Rightarrow> x) + e),
                      ni_energy_selection := ''pzem_delta''\<rparr>)"

definition merged_bucket ::
  "telemetry_sample \<Rightarrow> int \<Rightarrow> int option \<Rightarrow> bool \<Rightarrow> normalized_interval \<Rightarrow> normalized_interval" where
  "merged_bucket x expected energy_mwh connection_gap b =
     (let b1 = add_energy energy_mwh (add_measurement x expected b)
      in b1 \<lparr>ni_completeness := completeness_of b1,
             ni_gap_status := (if connection_gap then ''connection_gap'' else gap_status_of b1),
             ni_last_received_at := Some (sm_received_at x)\<rparr>)"

definition is_bucket_at :: "string \<Rightarrow> instant \<Rightarrow> normalized_interval \<Rightarrow> bool" where
  "is_bucket_at device_id start i \<longleftrightarrow>
     ni_device_id i = device_id \<and> ni_start_utc i = start \<and> ni_source_kind i = ''stateless_v2''"

definition upsert_history_bucket ::
  "device \<Rightarrow> telemetry_sample \<Rightarrow> telemetry_setting \<Rightarrow> int option \<Rightarrow> bool \<Rightarrow> store \<Rightarrow> store result" where
  "upsert_history_bucket d x t energy_mwh connection_gap s =
     (let (start, end_t) = history_bucket (sm_effective_at x) (ts_history_interval_seconds t);
          s1 = finalize_prior_buckets (dv_id d) start s
      in case find (is_bucket_at (dv_id d) start) (st_intervals s1) of
           None \<Rightarrow> insert_interval (new_bucket (st_next_id s1) d x t energy_mwh connection_gap) s1
         | Some b \<Rightarrow>
             let b' = merged_bucket x (expected_samples t) energy_mwh connection_gap b in
             bindE (update_interval b' s1) (\<lambda>s2.
               Inr (if ni_finalized b then invalidate_mutable_cost_selections d (ni_id b) s2 else s2)))"

subsection \<open>One sample\<close>

definition max_sensor_time_skew_us :: int where
  "max_sensor_time_skew_us = 300 * second_us"

definition trusted_sensor_time :: "telemetry_request \<Rightarrow> instant \<Rightarrow> bool" where
  "trusted_sensor_time q received_at \<longleftrightarrow> tq_time_status q = ''trusted'' \<and>
     (case tq_sampled_at q of None \<Rightarrow> False
      | Some t \<Rightarrow> \<bar>aware_utc t - received_at\<bar> \<le> max_sensor_time_skew_us)"

definition effective_time :: "telemetry_request \<Rightarrow> instant \<Rightarrow> instant" where
  "effective_time q received_at =
     (case tq_sampled_at q of
        Some t \<Rightarrow> if trusted_sensor_time q received_at then aware_utc t else received_at
      | None \<Rightarrow> received_at)"

definition sample_of :: "row_id \<Rightarrow> device \<Rightarrow> telemetry_request \<Rightarrow> string \<Rightarrow> instant \<Rightarrow> telemetry_sample" where
  "sample_of i d q payload_hash received_at =
     \<lparr>el_voltage_v = el_voltage_v q, el_current_a = el_current_a q,
          el_active_power_w = el_active_power_w q, el_frequency_hz = el_frequency_hz q,
          el_power_factor = el_power_factor q, sm_id = i, sm_device_id = dv_id d,
          sm_boot_id = tq_boot_id q, sm_sample_sequence = tq_sample_sequence q,
          sm_telemetry_protocol = ''pm-telemetry/2.0.0'', sm_sampled_at = map_option aware_utc (tq_sampled_at q),
          sm_received_at = received_at, sm_effective_at = effective_time q received_at,
          sm_sensor_time_trusted = trusted_sensor_time q received_at, sm_uptime_ms = tq_uptime_ms q,
          sm_pzem_energy_wh = tq_pzem_energy_wh q, sm_pzem_status = tq_pzem_status q,
          sm_firmware_version = tq_firmware_version q, sm_firmware_build_id = tq_firmware_build_id q,
          sm_time_status = tq_time_status q, sm_wifi_rssi = tq_wifi_rssi q,
          sm_payload_sha256 = payload_hash\<rparr>"

definition timestamp_source :: "telemetry_sample \<Rightarrow> string" where
  "timestamp_source x = (if sm_sensor_time_trusted x then ''sensor'' else ''server'')"

text \<open>The latest valid counter before an instant; equal instants are ordered by reception.\<close>

definition previous_energy_sample :: "store \<Rightarrow> string \<Rightarrow> instant \<Rightarrow> telemetry_sample option" where
  "previous_energy_sample s device_id t =
     (case sort_key (\<lambda>x. (- sm_effective_at x, - sm_received_at x))
             (filter (\<lambda>x. sm_device_id x = device_id \<and> sm_pzem_status x = ''ok''
                \<and> sm_pzem_energy_wh x \<noteq> None \<and> sm_effective_at x < t) (st_samples s)) of
        [] \<Rightarrow> None | x # _ \<Rightarrow> Some x)"

definition state_of_sample :: "telemetry_sample \<Rightarrow> device_telemetry_state" where
  "state_of_sample x = \<lparr>dt_device_id = sm_device_id x, dt_latest_sample_id = sm_id x,
     dt_latest_server_received_at = sm_received_at x, dt_latest_sensor_sampled_at = sm_sampled_at x,
     dt_sensor_time_trusted = sm_sensor_time_trusted x, dt_timestamp_source = timestamp_source x,
     dt_telemetry_protocol = ''pm-telemetry/2.0.0'', dt_firmware_version = sm_firmware_version x,
     dt_firmware_build_id = sm_firmware_build_id x\<rparr>"

definition advance_live_state ::
  "device_telemetry_state option \<Rightarrow> bool \<Rightarrow> telemetry_sample \<Rightarrow> store \<Rightarrow> store" where
  "advance_live_state state out_of_order x s =
     (case state of
        None \<Rightarrow> s \<lparr>st_states := st_states s @ [state_of_sample x]\<rparr>
      | Some st \<Rightarrow>
          if out_of_order then s
          else s \<lparr>st_states := map (\<lambda>y. if dt_device_id y = sm_device_id x then state_of_sample x else y)
                 (st_states s)\<rparr>)"

definition record_cutover :: "telemetry_sample \<Rightarrow> store \<Rightarrow> store" where
  "record_cutover x s =
     (if list_ex (\<lambda>c. tc_device_id c = sm_device_id x) (st_cutovers s) then s
      else s \<lparr>st_cutovers := st_cutovers s @ [\<lparr>tc_device_id = sm_device_id x,
             tc_old_protocol = ''pm-protocol/1.0.0'', tc_new_protocol = ''pm-telemetry/2.0.0'',
             tc_cutover_at = sm_received_at x, tc_first_sample_id = sm_id x,
             tc_firmware_version = sm_firmware_version x,
             tc_firmware_build_id = sm_firmware_build_id x\<rparr>]\<rparr>)"

text \<open>The sample the live state points at, and whether a sample is older than it.\<close>

definition latest_delivery :: "store \<Rightarrow> string \<Rightarrow> telemetry_sample option" where
  "latest_delivery s device_id =
     Option.bind (find (\<lambda>y. dt_device_id y = device_id) (st_states s))
       (\<lambda>y. find (\<lambda>z. sm_id z = dt_latest_sample_id y) (st_samples s))"

definition arrives_out_of_order :: "store \<Rightarrow> telemetry_sample \<Rightarrow> bool" where
  "arrives_out_of_order s x =
     (case latest_delivery s (sm_device_id x) of None \<Rightarrow> False
      | Some p \<Rightarrow> sm_effective_at x < sm_effective_at p)"

definition accept_sample ::
  "zoneinfo \<Rightarrow> device \<Rightarrow> telemetry_setting \<Rightarrow> telemetry_sample \<Rightarrow> store
     \<Rightarrow> (stateless_result \<times> store) result" where
  "accept_sample tz d t x s =
     (let state = find (\<lambda>y. dt_device_id y = dv_id d) (st_states s);
          previous_delivery = latest_delivery s (dv_id d);
          out_of_order = arrives_out_of_order s x;
          previous_energy = previous_energy_sample s (dv_id d) (sm_effective_at x)
      in bindE (insert_sample x s) (\<lambda>s1.
         bindE (if out_of_order then Inr (None, False, s1)
                else record_energy_evidence tz d x previous_delivery previous_energy
                       (ts_telemetry_interval_seconds t) s1) (\<lambda>(energy_mwh, connection_gap, s2).
         bindE (upsert_history_bucket d x t energy_mwh connection_gap s2) (\<lambda>s3.
         let s4 = record_cutover x (advance_live_state state out_of_order x s3);
             s5 = (if out_of_order then s4
                   else put_device (d \<lparr>dv_last_heartbeat_at := Some (sm_received_at x),
                          dv_firmware_version := Some (sm_firmware_version x)\<rparr>) s4)
         in Inr (\<lparr>sr_status = ''accepted'', sr_received_at = sm_received_at x,
                  sr_timestamp_source = timestamp_source x, sr_config_version = ts_config_version t,
                  sr_telemetry_interval_seconds = ts_telemetry_interval_seconds t,
                  sr_advances_live_state = (\<not> out_of_order)\<rparr>, s5)))))"

definition ingest_stateless_sample ::
  "(telemetry_request \<Rightarrow> string) \<Rightarrow> zoneinfo \<Rightarrow> string \<Rightarrow> telemetry_request \<Rightarrow> instant \<Rightarrow> store
     \<Rightarrow> (stateless_result \<times> store) result" where
  "ingest_stateless_sample digest tz device_id q received_at s =
     bindE (get_device_for_update s device_id) (\<lambda>d.
     if tq_sensor_id q \<noteq> dv_id d
     then Inl (IntegrityConflict ''telemetry sensor identity does not match the authenticated device'')
     else
     bindE (telemetry_settings_for_home (dv_home_id d) s) (\<lambda>(t, s0).
     let payload_hash = stateless_payload_hash digest q in
     case find (\<lambda>x. sm_device_id x = dv_id d \<and> sm_boot_id x = tq_boot_id q
                  \<and> sm_sample_sequence x = tq_sample_sequence q) (st_samples s0) of
       Some prior \<Rightarrow>
         if sm_payload_sha256 prior \<noteq> payload_hash
         then Inl (IntegrityConflict ''telemetry sample identity was accepted with different content'')
         else Inr (\<lparr>sr_status = ''duplicate'', sr_received_at = sm_received_at prior,
                    sr_timestamp_source = timestamp_source prior,
                    sr_config_version = ts_config_version t,
                    sr_telemetry_interval_seconds = ts_telemetry_interval_seconds t,
                    sr_advances_live_state = False\<rparr>, s0)
     | None \<Rightarrow> accept_sample tz d t (sample_of (st_next_id s0) d q payload_hash received_at) s0))"

subsection \<open>Changing the settings\<close>

text \<open>
  \<open>update_telemetry_settings\<close> of \<open>backend/app/routes/settings.py\<close>, for the home the
  caller's scope resolves to; its audit event is not modelled.
\<close>

record settings_update =
  tu_fields_set :: "string list"
  tu_telemetry_interval_seconds :: "int option"
  tu_history_interval_seconds :: "int option"
  tu_retention_days :: "int option"
  tu_retention_confirmation :: "string option"

definition validate_settings_update :: "settings_update \<Rightarrow> unit result" where
  "validate_settings_update u =
     bindE (field_check
        ((case tu_telemetry_interval_seconds u of None \<Rightarrow> True | Some v \<Rightarrow> v \<in> {2, 5, 10, 15, 30, 60})
       \<and> (case tu_history_interval_seconds u of None \<Rightarrow> True | Some v \<Rightarrow> v \<in> {15, 30, 60, 300, 900})
       \<and> (case tu_retention_days u of None \<Rightarrow> True | Some v \<Rightarrow> v \<in> {30, 90, 180, 365})
       \<and> (case tu_retention_confirmation u of None \<Rightarrow> True
          | Some v \<Rightarrow> v = ''DELETE EXPIRED SAVED HISTORY''))) (\<lambda>_.
     if \<not> list_ex (\<lambda>f. f \<in> set (tu_fields_set u))
           [''telemetry_interval_seconds'', ''history_interval_seconds'', ''retention_days'']
     then refuse ''at least one telemetry setting is required'' else Inr ())"

text \<open>Whether a new retention deletes history that the present one keeps.\<close>

definition shortens_retention :: "settings_update \<Rightarrow> telemetry_setting \<Rightarrow> bool" where
  "shortens_retention u t \<longleftrightarrow>
     (case tu_retention_days u of None \<Rightarrow> False
      | Some n \<Rightarrow> (case ts_retention_days t of None \<Rightarrow> True | Some m \<Rightarrow> n < m))"

definition changed_settings :: "settings_update \<Rightarrow> telemetry_setting \<Rightarrow> telemetry_setting" where
  "changed_settings u t = t \<lparr>
     ts_retention_days := (if ''retention_days'' \<in> set (tu_fields_set u) then tu_retention_days u
                           else ts_retention_days t),
     ts_telemetry_interval_seconds := (case tu_telemetry_interval_seconds u of
        None \<Rightarrow> ts_telemetry_interval_seconds t | Some v \<Rightarrow> v),
     ts_history_interval_seconds := (case tu_history_interval_seconds u of
        None \<Rightarrow> ts_history_interval_seconds t | Some v \<Rightarrow> v),
     ts_config_version := ts_config_version t + 1\<rparr>"

definition update_telemetry_settings ::
  "string \<Rightarrow> settings_update \<Rightarrow> store \<Rightarrow> (telemetry_setting \<times> store) result" where
  "update_telemetry_settings home_id u s =
     bindE (telemetry_settings_for_home home_id s) (\<lambda>(t, s0).
     if ''retention_days'' \<in> set (tu_fields_set u) \<and> shortens_retention u t
        \<and> tu_retention_confirmation u \<noteq> Some ''DELETE EXPIRED SAVED HISTORY''
     then Inl (InvalidRequest ''shortening History retention requires exact confirmation'')
     else let t' = changed_settings u t in
          if telemetry_setting_constraints t'
          then Inr (t', s0 \<lparr>st_settings :=
                 map (\<lambda>x. if ts_home_id x = home_id then t' else x) (st_settings s0)\<rparr>)
          else Inl IntegrityError)"

subsection \<open>Retention\<close>

definition expired_bucket :: "store \<Rightarrow> string \<Rightarrow> instant \<Rightarrow> normalized_interval \<Rightarrow> bool" where
  "expired_bucket s home_id cutoff i \<longleftrightarrow>
     (case st_devices s (ni_device_id i) of None \<Rightarrow> False | Some d \<Rightarrow> dv_home_id d = home_id)
     \<and> ni_source_kind i = ''stateless_v2'' \<and> ni_finalized i \<and> ni_end_utc i < cutoff
     \<and> \<not> list_ex (\<lambda>x. is_normalized_interval_id x = ni_id i) (st_cost_selections s)"

text \<open>
  Deleting a bucket that has a cost row fails: the foreign key of \<open>interval_costs\<close> restricts it.
\<close>

definition retain_home :: "instant \<Rightarrow> telemetry_setting \<Rightarrow> nat \<times> store \<Rightarrow> (nat \<times> store) result" where
  "retain_home t setting acc =
     (case (ts_retention_days setting, acc) of
        (None, _) \<Rightarrow> Inr acc
      | (Some days, (deleted, s)) \<Rightarrow>
          let candidates = map ni_id (filter
                (expired_bucket s (ts_home_id setting) (t - days * day_us)) (st_intervals s)) in
          if list_ex (\<lambda>c. ic_normalized_interval_id c \<in> set candidates) (st_interval_costs s)
          then Inl IntegrityError
          else Inr (deleted + length (filter (\<lambda>i. ni_id i \<in> set candidates) (st_intervals s)),
                    s \<lparr>st_intervals := filter (\<lambda>i. ni_id i \<notin> set candidates) (st_intervals s)\<rparr>))"

definition apply_stateless_history_retention :: "instant \<Rightarrow> store \<Rightarrow> (nat \<times> store) result" where
  "apply_stateless_history_retention t s = foldE (retain_home t) (st_settings s) (0, s)"

end
