(* ===== verification/Stateless_Lemmas.thy ===== *)
theory Stateless_Lemmas
  imports Stateless_Telemetry
begin

text \<open>
  What each step of \<open>Stateless_Telemetry\<close> reads, writes and keeps: the frame of energy
  evidence and of the bucket update, the energy they account for, the bounds of a bucket, and
  the previous counter of a sample.
\<close>

subsection \<open>Frames\<close>

lemma insert_event_Inr [bindE_simps]:
  "insert_event e s = Inr t \<longleftrightarrow> energy_event_constraints e \<and> t = s \<lparr>st_events := st_events s @ [e]\<rparr>"
  by (auto simp: insert_event_def)

lemma insert_sample_Inr [bindE_simps]:
  "insert_sample x s = Inr t \<longleftrightarrow> telemetry_sample_constraints s x
     \<and> t = s \<lparr>st_samples := st_samples s @ [x], st_next_id := Suc (st_next_id s)\<rparr>"
  by (auto simp: insert_sample_def)

lemma update_interval_Inr [bindE_simps]:
  "update_interval i s = Inr t \<longleftrightarrow> interval_constraints i
     \<and> t = s \<lparr>st_intervals := map (\<lambda>x. if ni_id x = ni_id i then i else x) (st_intervals s)\<rparr>"
  by (auto simp: update_interval_def)

lemma insert_interval_Inr [bindE_simps]:
  "insert_interval i s = Inr t \<longleftrightarrow> interval_constraints i \<and> interval_unique s i
     \<and> t = s \<lparr>st_intervals := st_intervals s @ [i], st_next_id := Suc (st_next_id s)\<rparr>"
  by (auto simp: insert_interval_def)

text \<open>Energy evidence adds events and alerts; the bucket update changes intervals and selections.\<close>

definition evidence_frame :: "store \<Rightarrow> store \<Rightarrow> bool" where
  "evidence_frame s t \<longleftrightarrow> (\<exists>es als. t = s \<lparr>st_events := st_events s @ es, st_alerts := st_alerts s @ als\<rparr>)"

definition bucket_frame :: "store \<Rightarrow> store \<Rightarrow> bool" where
  "bucket_frame s t \<longleftrightarrow> st_devices t = st_devices s \<and> st_homes t = st_homes s
     \<and> st_accounts t = st_accounts s \<and> st_circuits t = st_circuits s \<and> st_adjustments t = st_adjustments s
     \<and> st_device_ids t = st_device_ids s \<and> st_readings t = st_readings s \<and> st_losses t = st_losses s
     \<and> st_interval_costs t = st_interval_costs s \<and> st_settings t = st_settings s
     \<and> st_samples t = st_samples s \<and> st_states t = st_states s \<and> st_cutovers t = st_cutovers s
     \<and> st_events t = st_events s \<and> st_alerts t = st_alerts s \<and> st_next_id s \<le> st_next_id t"

lemma evidence_frame_refl: "evidence_frame s s"
  unfolding evidence_frame_def by (intro exI [of _ "[]"]) simp

lemma evidence_frame_event: "evidence_frame s (s \<lparr>st_events := st_events s @ [e]\<rparr>)"
  unfolding evidence_frame_def by (intro exI [of _ "[e]"] exI [of _ "[]"]) simp

lemma evidence_frame_event_alert:
  "evidence_frame s (s \<lparr>st_events := st_events s @ [e], st_alerts := st_alerts s @ [a]\<rparr>)"
  unfolding evidence_frame_def by (intro exI [of _ "[e]"] exI [of _ "[a]"]) simp

lemma record_energy_evidence_frame:
  assumes "record_energy_evidence tz d x pd pe n s = Inr (e, g, t)"
  shows "evidence_frame s t"
  using assms unfolding record_energy_evidence_def
  by (auto simp: bindE_simps Let_def evidence_frame_refl evidence_frame_event evidence_frame_event_alert
      split: option.splits if_splits)

lemma upsert_history_bucket_frame:
  assumes "upsert_history_bucket d x t e g s = Inr s'"
  shows "bucket_frame s s'"
  using assms
  by (auto simp: upsert_history_bucket_def bindE_simps Let_def bucket_frame_def finalize_prior_buckets_def
      invalidate_mutable_cost_selections_def delete_cost_selections_def delete_billing_selections_def
      split: option.splits if_splits prod.splits)

subsection \<open>One accepted sample\<close>

lemma accept_sample_Inr:
  assumes "accept_sample tz d t x s = Inr (r, u)"
  obtains e g s2 s3 where
    "telemetry_sample_constraints s x"
    "(if arrives_out_of_order s x
      then e = None \<and> \<not> g \<and> s2 = s \<lparr>st_samples := st_samples s @ [x], st_next_id := Suc (st_next_id s)\<rparr>
      else record_energy_evidence tz d x (latest_delivery s (dv_id d))
        (previous_energy_sample s (dv_id d) (sm_effective_at x)) (ts_telemetry_interval_seconds t)
        (s \<lparr>st_samples := st_samples s @ [x], st_next_id := Suc (st_next_id s)\<rparr>) = Inr (e, g, s2))"
    "upsert_history_bucket d x t e g s2 = Inr s3"
    "u = (let s4 = record_cutover x (advance_live_state
            (find (\<lambda>y. dt_device_id y = dv_id d) (st_states s)) (arrives_out_of_order s x) x s3)
          in if arrives_out_of_order s x then s4
             else put_device (d \<lparr>dv_last_heartbeat_at := Some (sm_received_at x),
                    dv_firmware_version := Some (sm_firmware_version x)\<rparr>) s4)"
    "r = \<lparr>sr_status = ''accepted'', sr_received_at = sm_received_at x,
       sr_timestamp_source = timestamp_source x, sr_config_version = ts_config_version t,
       sr_telemetry_interval_seconds = ts_telemetry_interval_seconds t,
       sr_advances_live_state = (\<not> arrives_out_of_order s x)\<rparr>"
  using assms unfolding accept_sample_def Let_def
  by (cases "arrives_out_of_order s x") (auto simp: bindE_simps)

lemma telemetry_settings_for_home_Inr:
  assumes "telemetry_settings_for_home h s = Inr (t, s0)"
  shows "h \<in> set (st_homes s)" "find (\<lambda>t. ts_home_id t = h) (st_settings s0) = Some t"
    "\<exists>ts. s0 = s \<lparr>st_settings := ts\<rparr>"
    "find (\<lambda>t. ts_home_id t = h) (st_settings s) = Some t \<or>
     find (\<lambda>t. ts_home_id t = h) (st_settings s) = None \<and> t = default_telemetry_setting h"
proof -
  have find_append: "find P xs = None \<Longrightarrow> find P (xs @ [y]) = (if P y then Some y else None)" for P xs and y :: 'z
    by (induction xs) (auto split: if_splits)
  show "h \<in> set (st_homes s)" "find (\<lambda>t. ts_home_id t = h) (st_settings s0) = Some t"
    "\<exists>ts. s0 = s \<lparr>st_settings := ts\<rparr>"
    "find (\<lambda>t. ts_home_id t = h) (st_settings s) = Some t \<or>
     find (\<lambda>t. ts_home_id t = h) (st_settings s) = None \<and> t = default_telemetry_setting h"
    using assms by (auto simp: telemetry_settings_for_home_def Let_def find_append
        default_telemetry_setting_def intro: exI [of _ "st_settings s"] split: if_splits option.splits)
qed

lemma ingest_stateless_sample_Inr:
  assumes "ingest_stateless_sample digest tz device_id q now s = Inr (r, u)"
  obtains d t s0 where
    "st_devices s device_id = Some d" "dv_revoked_at d = None" "tq_sensor_id q = dv_id d"
    "telemetry_settings_for_home (dv_home_id d) s = Inr (t, s0)"
    "(\<exists>prior. find (\<lambda>x. sm_device_id x = dv_id d \<and> sm_boot_id x = tq_boot_id q
          \<and> sm_sample_sequence x = tq_sample_sequence q) (st_samples s) = Some prior
        \<and> sm_payload_sha256 prior = stateless_payload_hash digest q \<and> u = s0
        \<and> r = \<lparr>sr_status = ''duplicate'', sr_received_at = sm_received_at prior,
               sr_timestamp_source = timestamp_source prior, sr_config_version = ts_config_version t,
               sr_telemetry_interval_seconds = ts_telemetry_interval_seconds t,
               sr_advances_live_state = False\<rparr>)
     \<or> find (\<lambda>x. sm_device_id x = dv_id d \<and> sm_boot_id x = tq_boot_id q
          \<and> sm_sample_sequence x = tq_sample_sequence q) (st_samples s) = None
        \<and> accept_sample tz d t (sample_of (st_next_id s) d q (stateless_payload_hash digest q) now) s0
            = Inr (r, u)"
proof -
  obtain d t s0 where 1: "st_devices s device_id = Some d" "dv_revoked_at d = None" "tq_sensor_id q = dv_id d"
    "telemetry_settings_for_home (dv_home_id d) s = Inr (t, s0)"
    and 2: "(case find (\<lambda>x. sm_device_id x = dv_id d \<and> sm_boot_id x = tq_boot_id q
          \<and> sm_sample_sequence x = tq_sample_sequence q) (st_samples s0) of
       Some prior \<Rightarrow>
         if sm_payload_sha256 prior \<noteq> stateless_payload_hash digest q
         then Inl (IntegrityConflict ''telemetry sample identity was accepted with different content'')
         else Inr (\<lparr>sr_status = ''duplicate'', sr_received_at = sm_received_at prior,
                    sr_timestamp_source = timestamp_source prior,
                    sr_config_version = ts_config_version t,
                    sr_telemetry_interval_seconds = ts_telemetry_interval_seconds t,
                    sr_advances_live_state = False\<rparr>, s0)
     | None \<Rightarrow> accept_sample tz d t
         (sample_of (st_next_id s0) d q (stateless_payload_hash digest q) now) s0) = Inr (r, u)"
    using assms unfolding ingest_stateless_sample_def Let_def
    by (auto simp: bindE_simps split: if_splits)
  have "st_samples s0 = st_samples s" "st_next_id s0 = st_next_id s"
    using telemetry_settings_for_home_Inr(3) [OF 1(4)] by auto
  then show ?thesis using that [OF 1] 2 by (auto split: option.splits if_splits)
qed

text \<open>What an accepted sample leaves as it was, and the row it adds.\<close>

lemma accept_sample_frame:
  assumes "accept_sample tz d t x s = Inr (r, u)"
  shows "st_samples u = st_samples s @ [x]" "st_homes u = st_homes s" "st_settings u = st_settings s"
    "st_accounts u = st_accounts s" "st_readings u = st_readings s" "st_losses u = st_losses s"
    "st_interval_costs u = st_interval_costs s"
    "st_devices u = (if arrives_out_of_order s x then st_devices s else (st_devices s)(dv_id d :=
       Some (d \<lparr>dv_last_heartbeat_at := Some (sm_received_at x),
                dv_firmware_version := Some (sm_firmware_version x)\<rparr>)))"
    "st_next_id s < st_next_id u"
    "st_states u = (case find (\<lambda>y. dt_device_id y = dv_id d) (st_states s) of
        None \<Rightarrow> st_states s @ [state_of_sample x]
      | Some _ \<Rightarrow> if arrives_out_of_order s x then st_states s
          else map (\<lambda>y. if dt_device_id y = sm_device_id x then state_of_sample x else y) (st_states s))"
proof -
  let ?s1 = "s \<lparr>st_samples := st_samples s @ [x], st_next_id := Suc (st_next_id s)\<rparr>"
  obtain e g s2 s3 where
    ev: "(if arrives_out_of_order s x then e = None \<and> \<not> g \<and> s2 = ?s1
      else record_energy_evidence tz d x (latest_delivery s (dv_id d))
        (previous_energy_sample s (dv_id d) (sm_effective_at x)) (ts_telemetry_interval_seconds t)
        ?s1 = Inr (e, g, s2))"
    and up: "upsert_history_bucket d x t e g s2 = Inr s3"
    and u: "u = (let s4 = record_cutover x (advance_live_state
            (find (\<lambda>y. dt_device_id y = dv_id d) (st_states s)) (arrives_out_of_order s x) x s3)
          in if arrives_out_of_order s x then s4
             else put_device (d \<lparr>dv_last_heartbeat_at := Some (sm_received_at x),
                    dv_firmware_version := Some (sm_firmware_version x)\<rparr>) s4)"
    using assms by (rule accept_sample_Inr)
  have "evidence_frame ?s1 s2"
    using ev record_energy_evidence_frame evidence_frame_refl by (auto split: if_splits)
  then obtain es als where s2: "s2 = ?s1 \<lparr>st_events := st_events s @ es, st_alerts := st_alerts s @ als\<rparr>"
    by (auto simp: evidence_frame_def)
  have s3: "bucket_frame s2 s3" using up by (rule upsert_history_bucket_frame)
  show "st_samples u = st_samples s @ [x]" "st_homes u = st_homes s" "st_settings u = st_settings s"
    "st_accounts u = st_accounts s" "st_readings u = st_readings s" "st_losses u = st_losses s"
    "st_interval_costs u = st_interval_costs s"
    "st_devices u = (if arrives_out_of_order s x then st_devices s else (st_devices s)(dv_id d :=
       Some (d \<lparr>dv_last_heartbeat_at := Some (sm_received_at x),
                dv_firmware_version := Some (sm_firmware_version x)\<rparr>)))"
    "st_next_id s < st_next_id u"
    "st_states u = (case find (\<lambda>y. dt_device_id y = dv_id d) (st_states s) of
        None \<Rightarrow> st_states s @ [state_of_sample x]
      | Some _ \<Rightarrow> if arrives_out_of_order s x then st_states s
          else map (\<lambda>y. if dt_device_id y = sm_device_id x then state_of_sample x else y) (st_states s))"
    using s3 by (auto simp: u s2 bucket_frame_def record_cutover_def advance_live_state_def put_device_def
        Let_def split: option.splits)
qed

lemma sample_of_simps [simp]:
  "sm_id (sample_of i d q h now) = i" "sm_device_id (sample_of i d q h now) = dv_id d"
  "sm_boot_id (sample_of i d q h now) = tq_boot_id q"
  "sm_sample_sequence (sample_of i d q h now) = tq_sample_sequence q"
  "sm_received_at (sample_of i d q h now) = now" "sm_payload_sha256 (sample_of i d q h now) = h"
  "sm_pzem_status (sample_of i d q h now) = tq_pzem_status q"
  "sm_pzem_energy_wh (sample_of i d q h now) = tq_pzem_energy_wh q"
  "sm_uptime_ms (sample_of i d q h now) = tq_uptime_ms q"
  "sm_effective_at (sample_of i d q h now) = effective_time q now"
  by (simp_all add: sample_of_def)

lemma find_append_None: "find P xs = None \<Longrightarrow> find P (xs @ ys) = find P ys"
  by (induction xs) (auto split: if_splits)

lemma find_append_Some: "find P xs = Some x \<Longrightarrow> find P (xs @ ys) = Some x"
  by (induction xs) (auto split: if_splits)

text \<open>A stored sample answers every later delivery with its identity and content.\<close>

lemma ingest_stateless_repeat:
  assumes "st_devices s device_id = Some d" "dv_revoked_at d = None" "tq_sensor_id q = dv_id d"
    and "dv_home_id d \<in> set (st_homes s)" "find (\<lambda>t. ts_home_id t = dv_home_id d) (st_settings s) = Some t"
    and "find (\<lambda>x. sm_device_id x = dv_id d \<and> sm_boot_id x = tq_boot_id q
          \<and> sm_sample_sequence x = tq_sample_sequence q) (st_samples s) = Some prior"
  shows "ingest_stateless_sample digest tz device_id q now s =
    (if sm_payload_sha256 prior = stateless_payload_hash digest q
     then Inr (\<lparr>sr_status = ''duplicate'', sr_received_at = sm_received_at prior,
               sr_timestamp_source = timestamp_source prior, sr_config_version = ts_config_version t,
               sr_telemetry_interval_seconds = ts_telemetry_interval_seconds t,
               sr_advances_live_state = False\<rparr>, s)
     else Inl (IntegrityConflict ''telemetry sample identity was accepted with different content''))"
  using assms by (simp add: ingest_stateless_sample_def get_device_for_update_def
      telemetry_settings_for_home_def)

text \<open>After a successful request the device, its home, its settings and the sample are stored.\<close>

lemma ingest_stateless_stored:
  assumes "store_keys s" "ingest_stateless_sample digest tz device_id q now s = Inr (r, u)"
  obtains d' t prior where
    "st_devices u device_id = Some d'" "dv_revoked_at d' = None" "tq_sensor_id q = dv_id d'"
    "dv_home_id d' \<in> set (st_homes u)" "find (\<lambda>t. ts_home_id t = dv_home_id d') (st_settings u) = Some t"
    "find (\<lambda>x. sm_device_id x = dv_id d' \<and> sm_boot_id x = tq_boot_id q
          \<and> sm_sample_sequence x = tq_sample_sequence q) (st_samples u) = Some prior"
    "sm_payload_sha256 prior = stateless_payload_hash digest q"
    "sr_received_at r = sm_received_at prior" "sr_timestamp_source r = timestamp_source prior"
    "sr_config_version r = ts_config_version t"
    "sr_telemetry_interval_seconds r = ts_telemetry_interval_seconds t"
  using assms(2)
proof (rule ingest_stateless_sample_Inr)
  fix d :: device and t :: telemetry_setting and s0 :: store
  let ?P = "\<lambda>x. sm_device_id x = dv_id d \<and> sm_boot_id x = tq_boot_id q \<and> sm_sample_sequence x = tq_sample_sequence q"
  let ?x = "sample_of (st_next_id s) d q (stateless_payload_hash digest q) now"
  assume d: "st_devices s device_id = Some d" "dv_revoked_at d = None" "tq_sensor_id q = dv_id d"
    and t: "telemetry_settings_for_home (dv_home_id d) s = Inr (t, s0)"
    and c: "(\<exists>prior. find ?P (st_samples s) = Some prior
        \<and> sm_payload_sha256 prior = stateless_payload_hash digest q \<and> u = s0
        \<and> r = \<lparr>sr_status = ''duplicate'', sr_received_at = sm_received_at prior,
               sr_timestamp_source = timestamp_source prior, sr_config_version = ts_config_version t,
               sr_telemetry_interval_seconds = ts_telemetry_interval_seconds t,
               sr_advances_live_state = False\<rparr>)
     \<or> find ?P (st_samples s) = None \<and> accept_sample tz d t ?x s0 = Inr (r, u)"
  note tt = telemetry_settings_for_home_Inr [OF t]
  obtain ts where s0: "s0 = s \<lparr>st_settings := ts\<rparr>" using tt(3) by blast
  have id: "dv_id d = device_id" using assms(1) d(1) by (simp add: store_keys_def)
  from c show thesis
  proof (elim disjE exE conjE)
    fix prior
    assume "find ?P (st_samples s) = Some prior" "sm_payload_sha256 prior = stateless_payload_hash digest q"
      "u = s0" "r = \<lparr>sr_status = ''duplicate'', sr_received_at = sm_received_at prior,
               sr_timestamp_source = timestamp_source prior, sr_config_version = ts_config_version t,
               sr_telemetry_interval_seconds = ts_telemetry_interval_seconds t,
               sr_advances_live_state = False\<rparr>"
    then show thesis using d tt(1,2) by (intro that [of d t prior]) (auto simp: s0)
  next
    assume n: "find ?P (st_samples s) = None" and a: "accept_sample tz d t ?x s0 = Inr (r, u)"
    note fr = accept_sample_frame [OF a]
    have "r = \<lparr>sr_status = ''accepted'', sr_received_at = sm_received_at ?x,
       sr_timestamp_source = timestamp_source ?x, sr_config_version = ts_config_version t,
       sr_telemetry_interval_seconds = ts_telemetry_interval_seconds t,
       sr_advances_live_state = (\<not> arrives_out_of_order s0 ?x)\<rparr>"
      using a by (rule accept_sample_Inr)
    moreover have "find ?P (st_samples u) = Some ?x" using n by (simp add: fr(1) s0 find_append_None)
    moreover define d' where "d' = (if arrives_out_of_order s0 ?x then d
       else d \<lparr>dv_last_heartbeat_at := Some (sm_received_at ?x),
                dv_firmware_version := Some (sm_firmware_version ?x)\<rparr>)"
    have "st_devices u device_id = Some d'" "dv_revoked_at d' = None" "dv_id d' = dv_id d"
      "dv_home_id d' = dv_home_id d"
      using d by (auto simp: fr(8) s0 id d'_def)
    ultimately show thesis using d(3) tt(1,2) by (intro that [of d' t ?x]) (auto simp: fr(2,3) s0)
  qed
qed

lemma stateless_payload_hash_results [simp]:
  "stateless_payload_hash digest (q \<lparr>tq_command_results := c\<rparr>) = stateless_payload_hash digest q"
  by (simp add: stateless_payload_hash_def)

subsection \<open>Energy\<close>

text \<open>The energy a device's buckets and its recovered gaps account for, in mWh.\<close>

definition row_energy :: "string \<Rightarrow> normalized_interval \<Rightarrow> int" where
  "row_energy device_id i =
     (if ni_device_id i = device_id \<and> ni_source_kind i = ''stateless_v2''
      then (case ni_energy_mwh i of None \<Rightarrow> 0 | Some e \<Rightarrow> e) else 0)"

definition event_energy :: "string \<Rightarrow> energy_event \<Rightarrow> int" where
  "event_energy device_id e =
     (if ee_device_id e = device_id \<and> ee_billing_status e = ''included''
      then (case ee_recovered_energy_mwh e of None \<Rightarrow> 0 | Some v \<Rightarrow> v) else 0)"

definition accounted_energy :: "string \<Rightarrow> store \<Rightarrow> int" where
  "accounted_energy device_id s =
     sum_list (map (row_energy device_id) (st_intervals s)) + sum_list (map (event_energy device_id) (st_events s))"

definition interval_ids :: "store \<Rightarrow> bool" where
  "interval_ids s \<longleftrightarrow> distinct (map ni_id (st_intervals s)) \<and> (\<forall>i\<in>set (map ni_id (st_intervals s)). i < st_next_id s)"

lemma sum_list_replace_row:
  fixes f :: "'a \<Rightarrow> int"
  assumes "distinct (map k xs)" "b \<in> set xs" "k b' = k b"
  shows "sum_list (map f (map (\<lambda>x. if k x = k b' then b' else x) xs)) = sum_list (map f xs) + (f b' - f b)"
  using assms
proof (induction xs)
  case (Cons y ys)
  show ?case
  proof (cases "b = y")
    case True
    then have "map (\<lambda>x. if k x = k b' then b' else x) ys = ys"
      using Cons.prems(1,3) by (intro map_idI) (auto, metis image_eqI)
    then show ?thesis using True Cons.prems(3) by simp
  next
    case False
    then have "k y \<noteq> k b'" "b \<in> set ys" using Cons.prems by auto
    then show ?thesis using Cons by simp
  qed
qed simp

lemma finalize_row_simps [simp]:
  "ni_id (finalize_row i) = ni_id i" "ni_device_id (finalize_row i) = ni_device_id i"
  "ni_source_kind (finalize_row i) = ni_source_kind i" "ni_start_utc (finalize_row i) = ni_start_utc i"
  "row_energy device_id (finalize_row i) = row_energy device_id i"
  by (simp_all add: finalize_row_def row_energy_def)

lemma finalize_prior_buckets_keeps [simp]:
  "map ni_id (st_intervals (finalize_prior_buckets k start s)) = map ni_id (st_intervals s)"
  "map (row_energy device_id) (st_intervals (finalize_prior_buckets k start s))
     = map (row_energy device_id) (st_intervals s)"
  "st_next_id (finalize_prior_buckets k start s) = st_next_id s"
  "st_events (finalize_prior_buckets k start s) = st_events s"
  by (simp_all add: finalize_prior_buckets_def)

lemma add_measurement_simps [simp]:
  "ni_id (add_measurement x n b) = ni_id b" "ni_device_id (add_measurement x n b) = ni_device_id b"
  "ni_source_kind (add_measurement x n b) = ni_source_kind b"
  "ni_energy_mwh (add_measurement x n b) = ni_energy_mwh b"
  "ni_start_utc (add_measurement x n b) = ni_start_utc b" "ni_end_utc (add_measurement x n b) = ni_end_utc b"
  "ni_expected_sample_count (add_measurement x n b) = ni_expected_sample_count b"
  "ni_raw_reading_id (add_measurement x n b) = ni_raw_reading_id b"
  "ni_source_authenticated (add_measurement x n b) = ni_source_authenticated b"
  "ni_gap_status (add_measurement x n b) = ni_gap_status b" "ni_finalized (add_measurement x n b) = ni_finalized b"
  by (auto simp: add_measurement_def Let_def split: option.splits bool.splits)

lemma merged_bucket_simps [simp]:
  "ni_id (merged_bucket x n e g b) = ni_id b" "ni_device_id (merged_bucket x n e g b) = ni_device_id b"
  "ni_source_kind (merged_bucket x n e g b) = ni_source_kind b"
  "ni_start_utc (merged_bucket x n e g b) = ni_start_utc b" "ni_end_utc (merged_bucket x n e g b) = ni_end_utc b"
  "ni_finalized (merged_bucket x n e g b) = ni_finalized b"
  by (simp_all add: merged_bucket_def add_energy_def Let_def split: option.splits)

abbreviation option_int :: "int option \<Rightarrow> int" where
  "option_int v \<equiv> (case v of None \<Rightarrow> 0 | Some e \<Rightarrow> e)"

lemma row_energy_merged:
  "ni_device_id b = k \<Longrightarrow> ni_source_kind b = ''stateless_v2''
    \<Longrightarrow> row_energy k (merged_bucket x n e g b) = row_energy k b + option_int e"
  by (simp add: row_energy_def merged_bucket_def add_energy_def Let_def split: option.splits)

lemma row_energy_new: "row_energy (dv_id d) (new_bucket i d x t e g) = option_int e"
  by (simp add: row_energy_def new_bucket_def Let_def split: prod.splits)

lemma ni_id_new_bucket [simp]: "ni_id (new_bucket i d x t e g) = i"
  by (simp add: new_bucket_def Let_def split: prod.splits)

lemma upsert_history_bucket_Inr:
  assumes "upsert_history_bucket d x t e g s = Inr u"
  obtains (fresh) start s1 where "start = fst (history_bucket (sm_effective_at x) (ts_history_interval_seconds t))"
      "s1 = finalize_prior_buckets (dv_id d) start s"
      "find (is_bucket_at (dv_id d) start) (st_intervals s1) = None"
      "interval_constraints (new_bucket (st_next_id s) d x t e g)"
      "st_intervals u = st_intervals s1 @ [new_bucket (st_next_id s) d x t e g]"
      "st_next_id u = Suc (st_next_id s)" "st_events u = st_events s"
  | (merged) start s1 b b' where "start = fst (history_bucket (sm_effective_at x) (ts_history_interval_seconds t))"
      "s1 = finalize_prior_buckets (dv_id d) start s"
      "find (is_bucket_at (dv_id d) start) (st_intervals s1) = Some b"
      "b' = merged_bucket x (expected_samples t) e g b" "interval_constraints b'"
      "st_intervals u = map (\<lambda>i. if ni_id i = ni_id b' then b' else i) (st_intervals s1)"
      "st_next_id u = st_next_id s" "st_events u = st_events s"
proof -
  obtain start end_t where se: "history_bucket (sm_effective_at x) (ts_history_interval_seconds t) = (start, end_t)"
    by fastforce
  show ?thesis
  proof (cases "find (is_bucket_at (dv_id d) start) (st_intervals (finalize_prior_buckets (dv_id d) start s))")
    case None
    then show ?thesis using assms se by (intro fresh) (auto simp: upsert_history_bucket_def bindE_simps)
  next
    case (Some b)
    then show ?thesis using assms se
      by (intro merged [of start _ b]) (auto simp: upsert_history_bucket_def bindE_simps Let_def
          invalidate_mutable_cost_selections_def delete_cost_selections_def delete_billing_selections_def
          split: if_splits)
  qed
qed

lemma interval_ids_finalize: "interval_ids (finalize_prior_buckets k start s) = interval_ids s"
  by (simp only: interval_ids_def finalize_prior_buckets_keeps)

lemma upsert_history_bucket_energy:
  assumes "interval_ids s" "upsert_history_bucket d x t e g s = Inr u"
  shows "interval_ids u" "accounted_energy (dv_id d) u = accounted_energy (dv_id d) s + option_int e"
    "k \<noteq> dv_id d \<Longrightarrow> accounted_energy k u = accounted_energy k s"
proof -
  have "interval_ids u \<and> accounted_energy (dv_id d) u = accounted_energy (dv_id d) s + option_int e
     \<and> (k \<noteq> dv_id d \<longrightarrow> accounted_energy k u = accounted_energy k s)"
    using assms(2)
  proof (cases rule: upsert_history_bucket_Inr)
    case (fresh start s1)
    have "interval_ids s1" using assms(1) fresh(2) by (simp add: interval_ids_finalize)
    then have "interval_ids u"
      using fresh(2,5,6) by (auto simp: interval_ids_def less_Suc_eq simp del: set_map)
    moreover have "k \<noteq> dv_id d \<longrightarrow> row_energy k (new_bucket (st_next_id s) d x t e g) = 0"
      by (auto simp: row_energy_def new_bucket_def Let_def split: prod.splits)
    ultimately show ?thesis using fresh(2,5,6,7)
      by (simp add: accounted_energy_def row_energy_new)
  next
    case (merged start s1 b b')
    have b: "b \<in> set (st_intervals s1)" "ni_device_id b = dv_id d" "ni_source_kind b = ''stateless_v2''"
      using find_SomeD [OF merged(3)] by (auto simp: is_bucket_at_def)
    have ids: "interval_ids s1" using assms(1) merged(2) by (simp add: interval_ids_finalize)
    have id: "ni_id b' = ni_id b" using merged(4) by simp
    have "map ni_id (st_intervals u) = map ni_id (st_intervals s1)" by (auto simp: merged(6))
    then have "interval_ids u" using ids merged(2,7) by (simp add: interval_ids_def del: set_map)
    moreover have "sum_list (map (row_energy j) (st_intervals u))
        = sum_list (map (row_energy j) (st_intervals s1)) + (row_energy j b' - row_energy j b)" for j
      unfolding merged(6) using ids b(1) id by (intro sum_list_replace_row) (auto simp: interval_ids_def)
    moreover have "k \<noteq> dv_id d \<Longrightarrow> row_energy k b' = 0 \<and> row_energy k b = 0"
      using b(2) by (simp add: row_energy_def merged(4))
    ultimately show ?thesis
      using merged(2,8) row_energy_merged [OF b(2,3)] by (simp add: accounted_energy_def merged(4))
  qed
  then show "interval_ids u" "accounted_energy (dv_id d) u = accounted_energy (dv_id d) s + option_int e"
    "k \<noteq> dv_id d \<Longrightarrow> accounted_energy k u = accounted_energy k s" by auto
qed

text \<open>
  The energy the counter has advanced since the previous valid one: none without one, after a
  reset, or when a connection gap spans two billing cycles.
\<close>

definition counted_energy :: "zoneinfo \<Rightarrow> store \<Rightarrow> device \<Rightarrow> telemetry_sample \<Rightarrow> telemetry_sample option
    \<Rightarrow> telemetry_sample option \<Rightarrow> int \<Rightarrow> int" where
  "counted_energy tz s d x pd pe n =
     (case (pd, pe, current_counter x) of
        (Some delivery, Some previous, Some c) \<Rightarrow>
          (case sm_pzem_energy_wh previous of
             None \<Rightarrow> 0
           | Some p \<Rightarrow>
               if c < p \<or> has_connection_gap x delivery pe n
                    \<and> crosses_cycle tz s d (sm_effective_at previous) (sm_effective_at x) = Inr True
               then 0 else (c - p) * 1000)
      | _ \<Rightarrow> 0)"

lemma crosses_cycle_cong:
  "st_accounts s = st_accounts s' \<Longrightarrow> crosses_cycle tz s d a b = crosses_cycle tz s' d a b"
  by (simp add: crosses_cycle_def)

lemma record_energy_evidence_energy:
  assumes "record_energy_evidence tz d x pd pe n s = Inr (e, g, u)"
  shows "accounted_energy (dv_id d) u + option_int e = accounted_energy (dv_id d) s + counted_energy tz s d x pd pe n"
    and "k \<noteq> dv_id d \<Longrightarrow> accounted_energy k u = accounted_energy k s"
  using assms
  by (auto simp: record_energy_evidence_def counted_energy_def bindE_simps Let_def accounted_energy_def
      event_energy_def event_of_def split: option.splits if_splits Option.bind_splits)

lemma record_energy_evidence_nonneg:
  "record_energy_evidence tz d x pd pe n s = Inr (Some e, g, u) \<Longrightarrow> 0 \<le> e"
  by (auto simp: record_energy_evidence_def bindE_simps Let_def split: option.splits if_splits)

subsection \<open>The live state\<close>

definition sample_ids :: "store \<Rightarrow> bool" where
  "sample_ids s \<longleftrightarrow> (\<forall>y\<in>set (st_samples s). sm_id y < st_next_id s)"

text \<open>Every live state points at a stored sample.\<close>

definition states_ok :: "store \<Rightarrow> bool" where
  "states_ok s \<longleftrightarrow> (\<forall>y\<in>set (st_states s). \<exists>z\<in>set (st_samples s). sm_id z = dt_latest_sample_id y)"

lemma find_map_same:
  "(\<And>y. P (f y) = P y) \<Longrightarrow> (\<And>y. P y \<Longrightarrow> f y = y) \<Longrightarrow> find P (map f xs) = find P xs"
  by (induction xs) auto

lemma find_map_const:
  "(\<And>y. P (f y) = P y) \<Longrightarrow> (\<And>y. P y \<Longrightarrow> f y = c) \<Longrightarrow> find P xs = Some z \<Longrightarrow> find P (map f xs) = Some c"
  by (induction xs) (auto split: if_splits)

lemma find_Some_exists: "x \<in> set xs \<Longrightarrow> P x \<Longrightarrow> \<exists>y. find P xs = Some y"
  by (induction xs) auto

lemma state_of_sample_simps [simp]:
  "dt_device_id (state_of_sample x) = sm_device_id x" "dt_latest_sample_id (state_of_sample x) = sm_id x"
  by (simp_all add: state_of_sample_def)

lemma find_sample_new:
  assumes "sample_ids s" "sm_id x = st_next_id s"
  shows "find (\<lambda>z. sm_id z = sm_id x) (st_samples s @ [x]) = Some x"
proof -
  have "find (\<lambda>z. sm_id z = sm_id x) (st_samples s) = None"
    using assms by (auto simp: sample_ids_def find_None_iff)
  then show ?thesis by (simp add: find_append_None)
qed

lemma accept_sample_live:
  assumes "accept_sample tz d t x s = Inr (r, u)" "sample_ids s" "states_ok s"
    and "sm_id x = st_next_id s" "sm_device_id x = dv_id d"
  shows "latest_delivery u (dv_id d) = (if arrives_out_of_order s x then latest_delivery s (dv_id d) else Some x)"
    and "k \<noteq> dv_id d \<Longrightarrow> latest_delivery u k = latest_delivery s k"
    and "sample_ids u" "states_ok u"
proof -
  note fr = accept_sample_frame [OF assms(1)]
  have old: "find (\<lambda>z. sm_id z = dt_latest_sample_id y) (st_samples s @ [x])
      = find (\<lambda>z. sm_id z = dt_latest_sample_id y) (st_samples s)" if yin: "y \<in> set (st_states s)" for y
  proof -
    obtain z where "z \<in> set (st_samples s)" "sm_id z = dt_latest_sample_id y"
      using assms(3) yin unfolding states_ok_def by blast
    then obtain w where "find (\<lambda>z. sm_id z = dt_latest_sample_id y) (st_samples s) = Some w"
      using find_Some_exists [of z "st_samples s" "\<lambda>z. sm_id z = dt_latest_sample_id y"] by blast
    then show ?thesis by (simp add: find_append_Some)
  qed
  show "sample_ids u" using assms(2,4) fr(1,9) by (auto simp: sample_ids_def)
  show "states_ok u"
    using assms(3) by (auto simp: states_ok_def fr(1,10) split: option.splits if_splits)
  show "latest_delivery u (dv_id d) = (if arrives_out_of_order s x then latest_delivery s (dv_id d) else Some x)"
  proof (cases "find (\<lambda>y. dt_device_id y = dv_id d) (st_states s)")
    case None
    then have "\<not> arrives_out_of_order s x"
      by (simp add: arrives_out_of_order_def latest_delivery_def assms(5))
    then show ?thesis
      by (simp add: latest_delivery_def fr(1,10) None find_append_None assms(5) find_sample_new [OF assms(2,4)])
  next
    case (Some y)
    then have y: "y \<in> set (st_states s)" using find_SomeD by fastforce
    show ?thesis
    proof (cases "arrives_out_of_order s x")
      case True
      then show ?thesis by (simp add: latest_delivery_def fr(1,10) Some old [OF y])
    next
      case False
      have "find (\<lambda>y. dt_device_id y = dv_id d)
          (map (\<lambda>y. if dt_device_id y = sm_device_id x then state_of_sample x else y) (st_states s))
          = Some (state_of_sample x)"
        using Some by (rule find_map_const [rotated 2]) (auto simp: assms(5))
      then show ?thesis
        using False by (simp add: latest_delivery_def fr(1,10) Some find_sample_new [OF assms(2,4)])
    qed
  qed
  show "latest_delivery u k = latest_delivery s k" if k: "k \<noteq> dv_id d"
  proof -
    have "find (\<lambda>y. dt_device_id y = k) (map (\<lambda>y. if dt_device_id y = sm_device_id x then state_of_sample x else y)
        (st_states s)) = find (\<lambda>y. dt_device_id y = k) (st_states s)"
      by (rule find_map_same) (auto simp: assms(5) k k [symmetric])
    moreover have "find (\<lambda>y. dt_device_id y = k) (st_states s @ [state_of_sample x])
        = find (\<lambda>y. dt_device_id y = k) (st_states s)"
      using k assms(5) by (cases "find (\<lambda>y. dt_device_id y = k) (st_states s)")
        (simp_all add: find_append_None find_append_Some)
    ultimately have "find (\<lambda>y. dt_device_id y = k) (st_states u) = find (\<lambda>y. dt_device_id y = k) (st_states s)"
      by (simp add: fr(10) split: option.splits)
    moreover have "y \<in> set (st_states s)" if "find (\<lambda>y. dt_device_id y = k) (st_states s) = Some y" for y
      using find_SomeD [OF that] by simp
    ultimately show ?thesis
      by (cases "find (\<lambda>y. dt_device_id y = k) (st_states s)") (simp_all add: latest_delivery_def fr(1) old)
  qed
qed

subsection \<open>The previous counter\<close>

text \<open>The sort puts the latest counter first.\<close>

lemma sort_key_head:
  assumes "x \<in> set xs" "\<And>y. y \<in> set xs \<Longrightarrow> y \<noteq> x \<Longrightarrow> f x < f y"
  shows "\<exists>ys. sort_key f xs = x # ys"
proof (cases "sort_key f xs")
  case Nil
  then show ?thesis using assms(1) by (metis empty_iff list.set(1) set_sort)
next
  case (Cons z zs)
  have z: "z \<in> set xs" by (metis Cons list.set_intros(1) set_sort)
  have "f z \<le> f x"
  proof (cases "x = z")
    case False
    then have "x \<in> set zs" using assms(1) Cons by (metis set_ConsD set_sort)
    moreover have "sorted (map f (z # zs))" using sorted_sort_key [of f xs] Cons by simp
    ultimately show ?thesis by auto
  qed simp
  then have "z = x" using assms(2) [OF z] by force
  then show ?thesis using Cons by blast
qed

lemma previous_energy_sample_eq:
  assumes "x \<in> set (st_samples s)" "sm_device_id x = k" "sm_pzem_status x = ''ok''"
    and "sm_pzem_energy_wh x \<noteq> None" "sm_effective_at x < t"
    and "\<And>y. y \<in> set (st_samples s) \<Longrightarrow> sm_device_id y = k \<Longrightarrow> y \<noteq> x \<Longrightarrow> sm_effective_at y < sm_effective_at x"
  shows "previous_energy_sample s k t = Some x"
proof -
  let ?xs = "filter (\<lambda>x. sm_device_id x = k \<and> sm_pzem_status x = ''ok''
                \<and> sm_pzem_energy_wh x \<noteq> None \<and> sm_effective_at x < t) (st_samples s)"
  have "\<exists>ys. sort_key (\<lambda>x. (- sm_effective_at x, - sm_received_at x)) ?xs = x # ys"
    using assms by (intro sort_key_head) auto
  then show ?thesis by (auto simp: previous_energy_sample_def)
qed

subsection \<open>The energy of an accepted sample\<close>

lemma interval_ids_samples [simp]:
  "interval_ids (s \<lparr>st_settings := a\<rparr>) = interval_ids s"
  "interval_ids s \<Longrightarrow> interval_ids (s \<lparr>st_samples := xs, st_next_id := Suc (st_next_id s)\<rparr>)"
  by (auto simp: interval_ids_def)

lemma accounted_energy_frame:
  "st_intervals s = st_intervals t \<Longrightarrow> st_events s = st_events t \<Longrightarrow> accounted_energy k s = accounted_energy k t"
  by (simp add: accounted_energy_def)

lemma counted_energy_cong:
  assumes "st_accounts s = st_accounts s'"
  shows "counted_energy tz s d x pd pe n = counted_energy tz s' d x pd pe n"
  unfolding counted_energy_def crosses_cycle_def assms by (rule refl)

lemma accept_sample_energy:
  assumes "interval_ids s" "accept_sample tz d t x s = Inr (r, u)"
  shows "interval_ids u"
    and "accounted_energy (dv_id d) u = accounted_energy (dv_id d) s + (if arrives_out_of_order s x then 0
      else counted_energy tz s d x (latest_delivery s (dv_id d))
        (previous_energy_sample s (dv_id d) (sm_effective_at x)) (ts_telemetry_interval_seconds t))"
    and "k \<noteq> dv_id d \<Longrightarrow> accounted_energy k u = accounted_energy k s"
proof -
  define s1 where "s1 = s \<lparr>st_samples := st_samples s @ [x], st_next_id := Suc (st_next_id s)\<rparr>"
  let ?n = "ts_telemetry_interval_seconds t"
  let ?pd = "latest_delivery s (dv_id d)" and ?pe = "previous_energy_sample s (dv_id d) (sm_effective_at x)"
  obtain e g s2 s3 where
    ev: "(if arrives_out_of_order s x then e = None \<and> \<not> g \<and> s2 = s1
      else record_energy_evidence tz d x ?pd ?pe ?n s1 = Inr (e, g, s2))"
    and up: "upsert_history_bucket d x t e g s2 = Inr s3"
    and u: "u = (let s4 = record_cutover x (advance_live_state
            (find (\<lambda>y. dt_device_id y = dv_id d) (st_states s)) (arrives_out_of_order s x) x s3)
          in if arrives_out_of_order s x then s4
             else put_device (d \<lparr>dv_last_heartbeat_at := Some (sm_received_at x),
                    dv_firmware_version := Some (sm_firmware_version x)\<rparr>) s4)"
    using assms(2) unfolding s1_def by (rule accept_sample_Inr)
  have same: "counted_energy tz s1 d x ?pd ?pe ?n = counted_energy tz s d x ?pd ?pe ?n"
    by (rule counted_energy_cong) (simp add: s1_def)
  have s1: "interval_ids s1" "accounted_energy j s1 = accounted_energy j s" for j
    using assms(1) by (auto simp: s1_def accounted_energy_def)
  have fr: "evidence_frame s1 s2"
    using ev record_energy_evidence_frame evidence_frame_refl by (auto split: if_splits)
  then have s2: "interval_ids s2" using s1(1) by (auto simp: evidence_frame_def interval_ids_def)
  have tail: "st_intervals u = st_intervals s3" "st_events u = st_events s3" "st_next_id u = st_next_id s3"
    by (auto simp: u record_cutover_def advance_live_state_def put_device_def Let_def split: option.splits)
  note up3 = upsert_history_bucket_energy [OF s2 up]
  show "interval_ids u" using up3(1) tail by (simp add: interval_ids_def)
  show "accounted_energy k u = accounted_energy k s" if k: "k \<noteq> dv_id d"
  proof -
    have "accounted_energy k s2 = accounted_energy k s1"
      using ev record_energy_evidence_energy(2) k by (auto split: if_splits)
    then show ?thesis using up3(3) [OF k] s1(2) accounted_energy_frame [OF tail(1,2)] by simp
  qed
  show "accounted_energy (dv_id d) u = accounted_energy (dv_id d) s + (if arrives_out_of_order s x then 0
      else counted_energy tz s d x ?pd ?pe ?n)"
    using ev record_energy_evidence_energy(1) [of tz d x ?pd ?pe ?n s1 e g s2] up3(2) s1(2) same
      accounted_energy_frame [OF tail(1,2)] by (auto split: if_splits)
qed

subsection \<open>Runs\<close>

text \<open>The samples of one device in the order of their delivery.\<close>

fun ingest_stateless_samples ::
  "(telemetry_request \<Rightarrow> string) \<Rightarrow> zoneinfo \<Rightarrow> string \<Rightarrow> (telemetry_request \<times> instant) list \<Rightarrow> store
     \<Rightarrow> (stateless_result list \<times> store) result" where
  "ingest_stateless_samples digest tz device_id [] s = Inr ([], s)"
| "ingest_stateless_samples digest tz device_id ((q, now) # qs) s =
     bindE (ingest_stateless_sample digest tz device_id q now s) (\<lambda>(r, t).
     bindE (ingest_stateless_samples digest tz device_id qs t) (\<lambda>(rs, u). Inr (r # rs, u)))"

text \<open>The store between two requests.\<close>

definition live_inv :: "store \<Rightarrow> bool" where
  "live_inv s \<longleftrightarrow> store_keys s \<and> interval_ids s \<and> sample_ids s \<and> states_ok s"

text \<open>The newest sample of a device is its live one and carries a valid counter.\<close>

definition meter_at :: "store \<Rightarrow> string \<Rightarrow> telemetry_sample \<Rightarrow> int \<Rightarrow> bool" where
  "meter_at s k y c \<longleftrightarrow> latest_delivery s k = Some y \<and> y \<in> set (st_samples s) \<and> sm_device_id y = k
     \<and> sm_pzem_status y = ''ok'' \<and> sm_pzem_energy_wh y = Some c
     \<and> (\<forall>z\<in>set (st_samples s). sm_device_id z = k \<longrightarrow> z \<noteq> y \<longrightarrow> sm_effective_at z < sm_effective_at y)"

lemma settings_frame:
  assumes "telemetry_settings_for_home h s = Inr (t, s0)"
  shows "live_inv s0 = live_inv s" "latest_delivery s0 k = latest_delivery s k"
    "previous_energy_sample s0 k y = previous_energy_sample s k y" "accounted_energy k s0 = accounted_energy k s"
    "meter_at s0 k p c = meter_at s k p c" "st_samples s0 = st_samples s" "st_accounts s0 = st_accounts s"
    "st_devices s0 = st_devices s" "st_next_id s0 = st_next_id s" "st_intervals s0 = st_intervals s"
    "st_states s0 = st_states s" "arrives_out_of_order s0 x = arrives_out_of_order s x"
proof -
  obtain xs where s0: "s0 = s \<lparr>st_settings := xs\<rparr>" using telemetry_settings_for_home_Inr(3) [OF assms] by blast
  show "live_inv s0 = live_inv s" "latest_delivery s0 k = latest_delivery s k"
    "previous_energy_sample s0 k y = previous_energy_sample s k y" "accounted_energy k s0 = accounted_energy k s"
    "meter_at s0 k p c = meter_at s k p c" "st_samples s0 = st_samples s" "st_accounts s0 = st_accounts s"
    "st_devices s0 = st_devices s" "st_next_id s0 = st_next_id s" "st_intervals s0 = st_intervals s"
    "st_states s0 = st_states s" "arrives_out_of_order s0 x = arrives_out_of_order s x"
    by (auto simp: s0 live_inv_def store_keys_def interval_ids_def sample_ids_def states_ok_def
        latest_delivery_def previous_energy_sample_def accounted_energy_def meter_at_def arrives_out_of_order_def)
qed

lemma accept_sample_inv:
  assumes "live_inv s" "st_devices s (dv_id d) = Some d" "accept_sample tz d t x s = Inr (r, u)"
    and "sm_id x = st_next_id s" "sm_device_id x = dv_id d"
  shows "live_inv u"
proof -
  have s: "store_keys s" "interval_ids s" "sample_ids s" "states_ok s" using assms(1) by (auto simp: live_inv_def)
  have "store_keys u" using s(1) accept_sample_frame(8) [OF assms(3)] by (auto simp: store_keys_def)
  then show ?thesis
    using accept_sample_live(3,4) [OF assms(3) s(3,4) assms(4,5)] accept_sample_energy(1) [OF s(2) assms(3)]
    by (simp add: live_inv_def)
qed

lemma ingest_stateless_inv:
  assumes "live_inv s" "ingest_stateless_sample digest tz device_id q now s = Inr (r, u)"
  shows "live_inv u"
  using assms(2)
proof (rule ingest_stateless_sample_Inr)
  fix d :: device and t :: telemetry_setting and s0 :: store
  assume d: "st_devices s device_id = Some d" and t: "telemetry_settings_for_home (dv_home_id d) s = Inr (t, s0)"
    and c: "(\<exists>prior. find (\<lambda>x. sm_device_id x = dv_id d \<and> sm_boot_id x = tq_boot_id q
          \<and> sm_sample_sequence x = tq_sample_sequence q) (st_samples s) = Some prior
        \<and> sm_payload_sha256 prior = stateless_payload_hash digest q \<and> u = s0
        \<and> r = \<lparr>sr_status = ''duplicate'', sr_received_at = sm_received_at prior,
               sr_timestamp_source = timestamp_source prior, sr_config_version = ts_config_version t,
               sr_telemetry_interval_seconds = ts_telemetry_interval_seconds t,
               sr_advances_live_state = False\<rparr>)
     \<or> find (\<lambda>x. sm_device_id x = dv_id d \<and> sm_boot_id x = tq_boot_id q
          \<and> sm_sample_sequence x = tq_sample_sequence q) (st_samples s) = None
        \<and> accept_sample tz d t (sample_of (st_next_id s) d q (stateless_payload_hash digest q) now) s0
            = Inr (r, u)"
  have "dv_id d = device_id" using assms(1) d by (simp add: live_inv_def store_keys_def)
  then show ?thesis
    using c assms(1) d settings_frame(1,8,9) [OF t] accept_sample_inv [of s0 d] by auto
qed

lemma meter_step:
  assumes "live_inv s" "st_devices s device_id = Some d" "meter_at s device_id y c"
    and "ingest_stateless_sample digest tz device_id q now s = Inr (r, u)" "sr_status r = ''accepted''"
    and "tq_pzem_status q = ''ok''" "tq_pzem_energy_wh q = Some c'" "c \<le> c'"
    and "sm_effective_at y < effective_time q now"
    and "crosses_cycle tz s d (sm_effective_at y) (effective_time q now) \<noteq> Inr True"
  shows "accounted_energy device_id u = accounted_energy device_id s + (c' - c) * 1000"
    and "meter_at u device_id (last (st_samples u)) c'"
    and "sm_effective_at (last (st_samples u)) = effective_time q now"
    and "\<exists>d'. st_devices u device_id = Some d' \<and> dv_home_id d' = dv_home_id d" "st_accounts u = st_accounts s"
proof -
  obtain d0 t s0 where d0: "st_devices s device_id = Some d0"
    and t: "telemetry_settings_for_home (dv_home_id d0) s = Inr (t, s0)"
    and a: "accept_sample tz d0 t (sample_of (st_next_id s) d0 q (stateless_payload_hash digest q) now) s0
            = Inr (r, u)"
    using assms(4) by (rule ingest_stateless_sample_Inr) (use assms(5) in auto)
  define x where "x = sample_of (st_next_id s) d0 q (stateless_payload_hash digest q) now"
  note fr = settings_frame [OF t]
  have d: "d0 = d" "dv_id d = device_id" using d0 assms(1,2) by (auto simp: live_inv_def store_keys_def)
  have x: "sm_id x = st_next_id s0" "sm_device_id x = device_id" "sm_effective_at x = effective_time q now"
    "current_counter x = Some c'" "sm_pzem_status x = ''ok''" "sm_pzem_energy_wh x = Some c'"
    using fr d assms(6,7) by (simp_all add: x_def current_counter_def)
  have inv0: "live_inv s0" and m: "meter_at s0 device_id y c" using assms(1,3) fr by simp_all
  have latest: "latest_delivery s0 device_id = Some y" using m by (simp add: meter_at_def)
  have order: "\<not> arrives_out_of_order s0 x" using latest x assms(9) by (simp add: arrives_out_of_order_def)
  have prev: "previous_energy_sample s0 device_id (sm_effective_at x) = Some y"
    using m assms(9) x(3) by (intro previous_energy_sample_eq) (auto simp: meter_at_def)
  have a': "accept_sample tz d t x s0 = Inr (r, u)" using a d by (simp add: x_def)
  note fa = accept_sample_frame [OF a']
  have ids: "interval_ids s0" "sample_ids s0" "states_ok s0" using inv0 by (auto simp: live_inv_def)
  have cross: "crosses_cycle tz s0 d (sm_effective_at y) (sm_effective_at x) \<noteq> Inr True"
    using assms(10) crosses_cycle_cong [OF fr(7)] x(3) by simp
  have "counted_energy tz s0 d x (Some y) (Some y) (ts_telemetry_interval_seconds t) = (c' - c) * 1000"
    using m x(4) assms(8) cross by (simp add: counted_energy_def meter_at_def)
  then show "accounted_energy device_id u = accounted_energy device_id s + (c' - c) * 1000"
    using accept_sample_energy(2) [OF ids(1) a'] order latest prev d fr(4) by simp
  have last: "last (st_samples u) = x" by (simp add: fa(1))
  have "latest_delivery u device_id = Some x"
    using accept_sample_live(1) [OF a' ids(2,3) x(1)] x(2) d order by simp
  then show "meter_at u device_id (last (st_samples u)) c'"
    using m x assms(9) unfolding last by (fastforce simp: meter_at_def fa(1))
  show "sm_effective_at (last (st_samples u)) = effective_time q now" using last x(3) by simp
  show "\<exists>d'. st_devices u device_id = Some d' \<and> dv_home_id d' = dv_home_id d"
    using fa(8) order d by simp
  show "st_accounts u = st_accounts s" using fa(4) fr(7) by simp
qed

subsection \<open>Bounds of a bucket\<close>

text \<open>The power statistics of a bucket are all there, in order, or all missing.\<close>

definition power_ok :: "normalized_interval \<Rightarrow> bool" where
  "power_ok i \<longleftrightarrow>
     (case (ni_minimum_power_mw i, ni_average_power_mw i, ni_maximum_power_mw i) of
        (Some a, Some m, Some z) \<Rightarrow> a \<le> m \<and> m \<le> z
      | (None, None, None) \<Rightarrow> True
      | _ \<Rightarrow> False)"

definition buckets_inv :: "store \<Rightarrow> bool" where
  "buckets_inv s \<longleftrightarrow> (\<forall>i\<in>set (st_intervals s). ni_source_kind i = ''stateless_v2'' \<longrightarrow>
     interval_constraints i \<and> power_ok i)"

lemma incremental_average_between:
  fixes p n c :: int
  assumes "0 < n"
  shows "min p c \<le> (p * n + c) div (n + 1)" "(p * n + c) div (n + 1) \<le> max p c"
proof -
  have lo: "min p c * (n + 1) \<le> p * n + c"
  proof -
    have "min p c * n \<le> p * n" using assms by (intro mult_right_mono) auto
    then show ?thesis by (auto simp: algebra_simps)
  qed
  have hi: "p * n + c \<le> max p c * (n + 1)"
  proof -
    have "p * n \<le> max p c * n" using assms by (intro mult_right_mono) auto
    then show ?thesis by (auto simp: algebra_simps)
  qed
  have pos: "0 < n + 1" using assms by simp
  show "min p c \<le> (p * n + c) div (n + 1)"
    using zdiv_mono1 [OF lo pos] pos by simp
  show "(p * n + c) div (n + 1) \<le> max p c"
    using zdiv_mono1 [OF hi pos] pos by simp
qed

lemma power_ok_add_measurement:
  assumes "power_ok b" "0 \<le> ni_received_sample_count b"
  shows "power_ok (add_measurement x n b)"
proof (cases "sm_pzem_status x = ''ok'' \<and> scaled (el_active_power_w x) 1000 \<noteq> None")
  case True
  then obtain c where c: "scaled (el_active_power_w x) 1000 = Some c" "sm_pzem_status x = ''ok''" by auto
  show ?thesis
  proof (cases "ni_average_power_mw b")
    case None
    then have "ni_minimum_power_mw b = None" "ni_maximum_power_mw b = None"
      using assms(1) by (auto simp: power_ok_def split: option.splits)
    then show ?thesis using None c
      by (simp add: add_measurement_def power_ok_def incremental_average_def Let_def)
  next
    case (Some p)
    then obtain a z where az: "ni_minimum_power_mw b = Some a" "ni_maximum_power_mw b = Some z" "a \<le> p" "p \<le> z"
      using assms(1) by (auto simp: power_ok_def split: option.splits)
    then show ?thesis using Some c assms(2) incremental_average_between [of "ni_received_sample_count b" p c]
      by (auto simp: add_measurement_def power_ok_def incremental_average_def Let_def)
  qed
next
  case False
  then have "add_measurement x n b = b" by (auto simp: add_measurement_def split: option.splits bool.splits)
  then show ?thesis using assms(1) by simp
qed

lemma power_ok_frame:
  "ni_minimum_power_mw a = ni_minimum_power_mw b \<Longrightarrow> ni_average_power_mw a = ni_average_power_mw b
    \<Longrightarrow> ni_maximum_power_mw a = ni_maximum_power_mw b \<Longrightarrow> power_ok a = power_ok b"
  by (simp add: power_ok_def)

lemma power_ok_finalize_row [simp]: "power_ok (finalize_row i) = power_ok i"
  by (rule power_ok_frame) (simp_all add: finalize_row_def)

lemma power_ok_merged_bucket:
  assumes "power_ok b" "0 \<le> ni_received_sample_count b"
  shows "power_ok (merged_bucket x n e g b)"
proof -
  have "power_ok (merged_bucket x n e g b) = power_ok (add_measurement x n b)"
    by (rule power_ok_frame) (simp_all add: merged_bucket_def add_energy_def Let_def split: option.splits)
  then show ?thesis using power_ok_add_measurement [OF assms] by simp
qed

lemma power_ok_new_bucket: "power_ok (new_bucket i d x t e g)"
  by (auto simp: new_bucket_def power_ok_def scaled_def Let_def split: prod.splits option.splits)

lemma completeness_of_unit:
  assumes "0 \<le> ni_received_sample_count i" "0 < ni_expected_sample_count i"
  shows "0 \<le> completeness_of i" "completeness_of i \<le> 1"
  using assms dec_ops_nonneg by (auto simp: completeness_of_def)

lemma gap_status_of_ok:
  "ni_gap_status i \<in> {''complete'', ''partial'', ''connection_gap''}
    \<Longrightarrow> gap_status_of i \<in> {''complete'', ''partial'', ''connection_gap''}"
  by (auto simp: gap_status_of_def)

lemma interval_constraints_finalize_row:
  "interval_constraints i \<Longrightarrow> interval_constraints (finalize_row i)"
  using completeness_of_unit [of i] gap_status_of_ok [of i]
  by (auto simp: interval_constraints_def finalize_row_def)

lemma add_measurement_count:
  assumes "0 \<le> ni_received_sample_count b" "ni_received_sample_count b \<le> ni_expected_sample_count b"
    and "0 < n" "n \<le> ni_expected_sample_count b"
  shows "0 \<le> ni_received_sample_count (add_measurement x n b)"
    "ni_received_sample_count (add_measurement x n b) \<le> ni_expected_sample_count b"
  using assms by (auto simp: add_measurement_def Let_def split: option.splits bool.splits)

lemma interval_constraints_merged:
  assumes "interval_constraints b" "0 < n" "n \<le> ni_expected_sample_count b" "opt_ge 0 e"
  shows "interval_constraints (merged_bucket x n e g b)"
proof -
  define b1 where "b1 = add_energy e (add_measurement x n b)"
  have b1: "ni_received_sample_count b1 = ni_received_sample_count (add_measurement x n b)"
    "ni_expected_sample_count b1 = ni_expected_sample_count b" "ni_gap_status b1 = ni_gap_status b"
    "ni_start_utc b1 = ni_start_utc b" "ni_end_utc b1 = ni_end_utc b" "ni_source_kind b1 = ni_source_kind b"
    "ni_source_authenticated b1 = ni_source_authenticated b" "ni_raw_reading_id b1 = ni_raw_reading_id b"
    by (simp_all add: b1_def add_energy_def split: option.splits)
  have "opt_ge 0 (ni_energy_mwh b1)"
    using assms(1,4) by (auto simp: b1_def add_energy_def interval_constraints_def split: option.splits)
  moreover have "0 \<le> ni_received_sample_count b1" "ni_received_sample_count b1 \<le> ni_expected_sample_count b1"
    using add_measurement_count [of b n x] assms(1-3) b1 by (auto simp: interval_constraints_def)
  ultimately show ?thesis
    using assms(1) b1 completeness_of_unit [of b1] gap_status_of_ok [of b1]
    by (auto simp: merged_bucket_def b1_def [symmetric] interval_constraints_def Let_def)
qed

lemma expected_samples_pos: "0 < expected_samples t"
  by (simp add: expected_samples_def)

lemma interval_constraints_new_bucket:
  assumes "0 < ts_history_interval_seconds t" "opt_ge 0 e"
  shows "interval_constraints (new_bucket i d x t e g)"
proof -
  have "0 \<le> py_bool_int b \<and> py_bool_int b \<le> expected_samples t" for b
    using expected_samples_pos [of t] by (auto simp: py_bool_int_def)
  then show ?thesis
    using assms expected_samples_pos [of t] dec_ratio_unit [of _ "expected_samples t"]
    by (auto simp: new_bucket_def interval_constraints_def history_bucket_def Let_def)
qed

lemma buckets_inv_finalize_prior: "buckets_inv s \<Longrightarrow> buckets_inv (finalize_prior_buckets k start s)"
  by (auto simp: buckets_inv_def finalize_prior_buckets_def interval_constraints_finalize_row)

lemma upsert_history_bucket_inv:
  assumes "buckets_inv s" "upsert_history_bucket d x t e g s = Inr u"
  shows "buckets_inv u"
  using assms(2)
proof (cases rule: upsert_history_bucket_Inr)
  case (fresh start s1)
  then show ?thesis using buckets_inv_finalize_prior [OF assms(1)] power_ok_new_bucket
    by (auto simp: buckets_inv_def)
next
  case (merged start s1 b b')
  have s1: "buckets_inv s1" using buckets_inv_finalize_prior [OF assms(1)] merged(2) by simp
  have "b \<in> set (st_intervals s1)" "ni_source_kind b = ''stateless_v2''"
    using find_SomeD [OF merged(3)] by (auto simp: is_bucket_at_def)
  then have "power_ok b" "0 \<le> ni_received_sample_count b"
    using s1 by (auto simp: buckets_inv_def interval_constraints_def)
  then have "power_ok b'" unfolding merged(4) by (rule power_ok_merged_bucket)
  then show ?thesis using s1 merged(5,6) by (auto simp: buckets_inv_def)
qed

lemma upsert_history_bucket_succeeds:
  assumes "buckets_inv s" "0 < ts_history_interval_seconds t" "opt_ge 0 e"
    and "\<And>b. b \<in> set (st_intervals s) \<Longrightarrow> ni_device_id b = dv_id d \<Longrightarrow> ni_source_kind b = ''stateless_v2''
      \<Longrightarrow> expected_samples t \<le> ni_expected_sample_count b"
  shows "\<exists>u. upsert_history_bucket d x t e g s = Inr u"
proof -
  obtain start end_t where se: "history_bucket (sm_effective_at x) (ts_history_interval_seconds t) = (start, end_t)"
    by fastforce
  define s1 where "s1 = finalize_prior_buckets (dv_id d) start s"
  have s1: "buckets_inv s1" using buckets_inv_finalize_prior [OF assms(1)] by (simp add: s1_def)
  show ?thesis
  proof (cases "find (is_bucket_at (dv_id d) start) (st_intervals s1)")
    case None
    have "interval_unique s1 (new_bucket i d x t e g)" for i
      using find_NoneD [OF None] se
      by (auto simp: interval_unique_def list_ex_iff is_bucket_at_def new_bucket_def Let_def)
    then show ?thesis using None se interval_constraints_new_bucket [OF assms(2,3)]
      by (simp add: upsert_history_bucket_def s1_def [symmetric] insert_interval_def)
  next
    case (Some b)
    have b: "b \<in> set (st_intervals s1)" "ni_device_id b = dv_id d" "ni_source_kind b = ''stateless_v2''"
      using find_SomeD [OF Some] by (auto simp: is_bucket_at_def)
    then have "\<exists>c\<in>set (st_intervals s). ni_device_id c = dv_id d \<and> ni_source_kind c = ''stateless_v2''
        \<and> ni_expected_sample_count c = ni_expected_sample_count b"
      by (auto simp: s1_def finalize_prior_buckets_def finalize_row_def split: if_splits)
    then have "expected_samples t \<le> ni_expected_sample_count b" using assms(4) by fastforce
    then have "interval_constraints (merged_bucket x (expected_samples t) e g b)"
      using s1 b expected_samples_pos assms(3) by (intro interval_constraints_merged) (auto simp: buckets_inv_def)
    then show ?thesis using Some se
      by (simp add: upsert_history_bucket_def s1_def [symmetric] update_interval_def Let_def)
  qed
qed

lemma record_energy_evidence_succeeds:
  assumes "\<And>a b. \<exists>v. crosses_cycle tz s d a b = Inr v"
  shows "\<exists>e g u. record_energy_evidence tz d x pd pe n s = Inr (e, g, u)"
proof (cases pd)
  case None
  then show ?thesis by (auto simp: record_energy_evidence_def)
next
  case (Some y)
  let ?at = "case pe of Some p \<Rightarrow> sm_effective_at p | None \<Rightarrow> sm_effective_at y"
  obtain v where v: "crosses_cycle tz s d ?at (sm_effective_at x) = Inr v" using assms by blast
  show ?thesis
    using v by (cases "Option.bind pe sm_pzem_energy_wh"; cases "current_counter x")
      (auto simp: Some record_energy_evidence_def Let_def insert_event_def energy_event_constraints_def event_of_def)
qed

lemma record_energy_evidence_opt_ge:
  "record_energy_evidence tz d x pd pe n s = Inr (e, g, u) \<Longrightarrow> opt_ge 0 e"
  using record_energy_evidence_nonneg by (cases e) auto

lemma accept_sample_buckets:
  assumes "buckets_inv s" "accept_sample tz d t x s = Inr (r, u)"
  shows "buckets_inv u"
proof -
  obtain e g s2 s3 where
    ev: "(if arrives_out_of_order s x
      then e = None \<and> \<not> g \<and> s2 = s \<lparr>st_samples := st_samples s @ [x], st_next_id := Suc (st_next_id s)\<rparr>
      else record_energy_evidence tz d x (latest_delivery s (dv_id d))
        (previous_energy_sample s (dv_id d) (sm_effective_at x)) (ts_telemetry_interval_seconds t)
        (s \<lparr>st_samples := st_samples s @ [x], st_next_id := Suc (st_next_id s)\<rparr>) = Inr (e, g, s2))"
    and up: "upsert_history_bucket d x t e g s2 = Inr s3"
    and u: "u = (let s4 = record_cutover x (advance_live_state
            (find (\<lambda>y. dt_device_id y = dv_id d) (st_states s)) (arrives_out_of_order s x) x s3)
          in if arrives_out_of_order s x then s4
             else put_device (d \<lparr>dv_last_heartbeat_at := Some (sm_received_at x),
                    dv_firmware_version := Some (sm_firmware_version x)\<rparr>) s4)"
    using assms(2) by (rule accept_sample_Inr)
  have "evidence_frame (s \<lparr>st_samples := st_samples s @ [x], st_next_id := Suc (st_next_id s)\<rparr>) s2"
    using ev record_energy_evidence_frame evidence_frame_refl by (auto split: if_splits)
  then have "buckets_inv s2" using assms(1) by (auto simp: evidence_frame_def buckets_inv_def)
  then have "buckets_inv s3" using up by (rule upsert_history_bucket_inv)
  moreover have "st_intervals u = st_intervals s3"
    by (auto simp: u record_cutover_def advance_live_state_def put_device_def Let_def split: option.splits)
  ultimately show ?thesis by (simp add: buckets_inv_def)
qed

lemma accept_sample_succeeds:
  assumes "buckets_inv s" "0 < ts_history_interval_seconds t" "telemetry_sample_constraints s x"
    and "\<And>a b. \<exists>v. crosses_cycle tz s d a b = Inr v"
    and "\<And>b. b \<in> set (st_intervals s) \<Longrightarrow> ni_device_id b = dv_id d \<Longrightarrow> ni_source_kind b = ''stateless_v2''
      \<Longrightarrow> expected_samples t \<le> ni_expected_sample_count b"
  shows "\<exists>r u. accept_sample tz d t x s = Inr (r, u) \<and> sr_status r = ''accepted''"
proof -
  define s1 where "s1 = s \<lparr>st_samples := st_samples s @ [x], st_next_id := Suc (st_next_id s)\<rparr>"
  have cross: "\<exists>v. crosses_cycle tz s1 d a b = Inr v" for a b
    using assms(4) by (simp add: s1_def crosses_cycle_def)
  let ?ev = "if arrives_out_of_order s x then Inr (None, False, s1)
    else record_energy_evidence tz d x (latest_delivery s (dv_id d))
      (previous_energy_sample s (dv_id d) (sm_effective_at x)) (ts_telemetry_interval_seconds t) s1"
  obtain e g s2 where ev: "?ev = Inr (e, g, s2)"
    using record_energy_evidence_succeeds [OF cross, of x "latest_delivery s (dv_id d)"
        "previous_energy_sample s (dv_id d) (sm_effective_at x)" "ts_telemetry_interval_seconds t"]
    by (cases "arrives_out_of_order s x") auto
  have "evidence_frame s1 s2 \<and> opt_ge 0 e"
    using ev record_energy_evidence_frame evidence_frame_refl record_energy_evidence_opt_ge
    by (auto split: if_splits)
  then have s2: "st_intervals s2 = st_intervals s" "opt_ge 0 e" by (auto simp: evidence_frame_def s1_def)
  then have "buckets_inv s2" using assms(1) by (simp add: buckets_inv_def)
  then obtain s3 where "upsert_history_bucket d x t e g s2 = Inr s3"
    using upsert_history_bucket_succeeds [OF _ assms(2) s2(2), of s2 d x g] assms(5) s2(1) by auto
  then show ?thesis using ev assms(3)
    by (simp add: accept_sample_def insert_sample_def s1_def [symmetric] Let_def)
qed

end
