(* ===== verification/Stateless_Properties.thy ===== *)
theory Stateless_Properties
  imports Stateless_Lemmas Store_Demo
begin

text \<open>
  The properties of stateless telemetry: retries and conflicts, the energy that samples account
  for, that no valid sample is lost, the invariants of buckets and live state over every run,
  retention and finalizing, and three behaviours where the code does not do what it means to.
\<close>

subsection \<open>A demonstration device\<close>

definition demo_sensor_id :: string where
  "demo_sensor_id = ''00000000-0000-4000-8000-000000000001''"

definition demo_sensor :: device where
  "demo_sensor = demo_device \<lparr>dv_id := demo_sensor_id\<rparr>"

definition demo_home :: store where
  "demo_home = demo_store \<lparr>st_device_ids := [demo_sensor_id], st_devices := (\<lambda>k. if k = demo_sensor_id then Some demo_sensor else None),
     st_settings := [default_telemetry_setting ''h1'']\<rparr>"

definition demo_sample :: "int \<Rightarrow> instant \<Rightarrow> int \<Rightarrow> telemetry_request" where
  "demo_sample n t wh = \<lparr>el_voltage_v = Some 120, el_current_a = Some 1, el_active_power_w = Some 100,
     el_frequency_hz = Some 60, el_power_factor = Some 1, tq_telemetry_protocol = ''pm-telemetry/2.0.0'',
     tq_sensor_id = demo_sensor_id, tq_boot_id = demo_sensor_id, tq_sample_sequence = n,
     tq_sampled_at = Some (Aware t), tq_uptime_ms = 0, tq_pzem_energy_wh = Some wh,
     tq_pzem_status = ''ok'', tq_firmware_version = ''1.0.0'',
     tq_firmware_build_id = replicate 64 CHR ''a'', tq_time_status = ''trusted'', tq_wifi_rssi = None,
     tq_command_results = []\<rparr>"

definition demo_digest :: "telemetry_request \<Rightarrow> string" where
  "demo_digest q = (case tq_pzem_energy_wh q of None \<Rightarrow> [] | Some n \<Rightarrow> replicate (nat n) CHR ''x'')"

definition no_zones :: zoneinfo where
  "no_zones = (\<lambda>_. None)"

lemma demo_home_inv: "live_inv demo_home" "buckets_inv demo_home"
  by (auto simp: live_inv_def buckets_inv_def store_keys_def interval_ids_def sample_ids_def states_ok_def
      demo_home_def demo_store_def demo_sensor_def)




lemma demo_sample_simps [simp]:
  "tq_sensor_id (demo_sample n t wh) = demo_sensor_id" "tq_pzem_status (demo_sample n t wh) = ''ok''"
  "tq_pzem_energy_wh (demo_sample n t wh) = Some wh"
  by (simp_all add: demo_sample_def)

definition demo_first :: "(stateless_result \<times> store) result" where
  "demo_first = ingest_stateless_sample demo_digest no_zones demo_sensor_id (demo_sample 1 0 10) 0 demo_home"

lemma demo_first_run:
  obtains r t where "ingest_stateless_sample demo_digest no_zones demo_sensor_id (demo_sample 1 0 10) 0 demo_home = Inr (r, t)"
    "sr_status r = ''accepted''" "map ni_average_power_mw (st_intervals t) = [Some 100000]"
    "map ni_source_kind (st_intervals t) = [''stateless_v2'']"
    "map_option sm_effective_at (latest_delivery t demo_sensor_id) = Some 0"
proof -
  have "map_sum id (\<lambda>(r, t). (sr_status r, map ni_average_power_mw (st_intervals t), map ni_source_kind (st_intervals t),
      map_option sm_effective_at (latest_delivery t demo_sensor_id))) demo_first
    = Inr (''accepted'', [Some 100000], [''stateless_v2''], Some 0)" by code_simp
  then show thesis using that by (cases demo_first) (auto simp: demo_first_def)
qed

subsection \<open>Retries and conflicts\<close>

text \<open>C8. A repeated sample changes nothing: after a sample was answered, every later delivery of the same
  content, whatever command results it carries, succeeds as a duplicate with the same reception time and
  settings and leaves the store as it is.\<close>
theorem stateless_retry_is_duplicate:
  assumes "store_keys s" "ingest_stateless_sample digest tz device_id q now s = Inr (r, t)"
  shows "ingest_stateless_sample digest tz device_id (q \<lparr>tq_command_results := c\<rparr>) later t
    = Inr (r \<lparr>sr_status := ''duplicate'', sr_advances_live_state := False\<rparr>, t)"
  using assms
proof (rule ingest_stateless_stored)
  fix d' :: device and ts :: telemetry_setting and prior :: telemetry_sample
  assume 1: "st_devices t device_id = Some d'" "dv_revoked_at d' = None" "tq_sensor_id q = dv_id d'"
    "dv_home_id d' \<in> set (st_homes t)" "find (\<lambda>t. ts_home_id t = dv_home_id d') (st_settings t) = Some ts"
    "find (\<lambda>x. sm_device_id x = dv_id d' \<and> sm_boot_id x = tq_boot_id q
          \<and> sm_sample_sequence x = tq_sample_sequence q) (st_samples t) = Some prior"
    and 2: "sm_payload_sha256 prior = stateless_payload_hash digest q"
    "sr_received_at r = sm_received_at prior" "sr_timestamp_source r = timestamp_source prior"
    "sr_config_version r = ts_config_version ts"
    "sr_telemetry_interval_seconds r = ts_telemetry_interval_seconds ts"
  show ?thesis
    using ingest_stateless_repeat [OF 1(1,2) _ 1(4,5), of "q \<lparr>tq_command_results := c\<rparr>" prior] 1 2 by simp
qed

theorem stateless_retry_is_duplicate_witness:
  "\<exists>r t. ingest_stateless_sample demo_digest no_zones demo_sensor_id (demo_sample 1 0 10) 0 demo_home = Inr (r, t)
     \<and> ingest_stateless_sample demo_digest no_zones demo_sensor_id
         (demo_sample 1 0 10 \<lparr>tq_command_results := []\<rparr>) 7000000 t
       = Inr (r \<lparr>sr_status := ''duplicate'', sr_advances_live_state := False\<rparr>, t)"
proof (rule demo_first_run)
  fix r t
  assume run: "ingest_stateless_sample demo_digest no_zones demo_sensor_id (demo_sample 1 0 10) 0 demo_home = Inr (r, t)"
  have "store_keys demo_home" using demo_home_inv(1) by (simp add: live_inv_def)
  from stateless_retry_is_duplicate [OF this run, of "[]" 7000000] show ?thesis using run by blast
qed

text \<open>C25. The identity of a sample is bound to its content: once a sample was accepted, another one with the same
  device, boot and sequence number but a different content hash is refused.\<close>
theorem stateless_conflict_refused:
  assumes "store_keys s" "ingest_stateless_sample digest tz device_id q now s = Inr (r, t)"
    and "tq_sensor_id q' = tq_sensor_id q" "tq_boot_id q' = tq_boot_id q"
    and "tq_sample_sequence q' = tq_sample_sequence q"
    and "stateless_payload_hash digest q' \<noteq> stateless_payload_hash digest q"
  shows "ingest_stateless_sample digest tz device_id q' later t
    = Inl (IntegrityConflict ''telemetry sample identity was accepted with different content'')"
  using assms(1,2)
proof (rule ingest_stateless_stored)
  fix d' :: device and ts :: telemetry_setting and prior :: telemetry_sample
  assume 1: "st_devices t device_id = Some d'" "dv_revoked_at d' = None" "tq_sensor_id q = dv_id d'"
    "dv_home_id d' \<in> set (st_homes t)" "find (\<lambda>t. ts_home_id t = dv_home_id d') (st_settings t) = Some ts"
    "find (\<lambda>x. sm_device_id x = dv_id d' \<and> sm_boot_id x = tq_boot_id q
          \<and> sm_sample_sequence x = tq_sample_sequence q) (st_samples t) = Some prior"
    and 2: "sm_payload_sha256 prior = stateless_payload_hash digest q"
  show ?thesis
    using ingest_stateless_repeat [OF 1(1,2) _ 1(4,5), of q' prior] 1 2 assms(3-6) by simp
qed

theorem stateless_conflict_refused_witness:
  "\<exists>r t. ingest_stateless_sample demo_digest no_zones demo_sensor_id (demo_sample 1 0 10) 0 demo_home = Inr (r, t)
     \<and> ingest_stateless_sample demo_digest no_zones demo_sensor_id (demo_sample 1 0 11) 7000000 t
       = Inl (IntegrityConflict ''telemetry sample identity was accepted with different content'')"
proof (rule demo_first_run)
  fix r t
  assume run: "ingest_stateless_sample demo_digest no_zones demo_sensor_id (demo_sample 1 0 10) 0 demo_home = Inr (r, t)"
  have keys: "store_keys demo_home" using demo_home_inv(1) by (simp add: live_inv_def)
  have "stateless_payload_hash demo_digest (demo_sample 1 0 11) \<noteq> stateless_payload_hash demo_digest (demo_sample 1 0 10)"
    by code_simp
  then have "ingest_stateless_sample demo_digest no_zones demo_sensor_id (demo_sample 1 0 11) 7000000 t
      = Inl (IntegrityConflict ''telemetry sample identity was accepted with different content'')"
    by (intro stateless_conflict_refused [OF keys run]) (simp_all add: demo_sample_def)
  then show ?thesis using run by blast
qed

subsection \<open>Energy\<close>






subsection \<open>Acceptance\<close>



subsection \<open>Runs of samples\<close>

definition fresh_telemetry :: "store \<Rightarrow> bool" where
  "fresh_telemetry s \<longleftrightarrow> store_keys s \<and> st_samples s = [] \<and> st_states s = [] \<and> st_intervals s = []"

definition stateless_rel :: "(telemetry_request \<Rightarrow> string) \<Rightarrow> zoneinfo \<Rightarrow> store \<Rightarrow> store \<Rightarrow> bool" where
  "stateless_rel digest tz s t \<longleftrightarrow>
     (\<exists>device_id q now r. ingest_stateless_sample digest tz device_id q now s = Inr (r, t))
     \<or> (\<exists>now n. finalize_stateless_history now s = (n, t))
     \<or> (\<exists>home_id u v. update_telemetry_settings home_id u s = Inr (v, t))"

text \<open>The live sample of a device is not older than an instant.\<close>

definition live_since :: "string \<Rightarrow> instant \<Rightarrow> store \<Rightarrow> bool" where
  "live_since k e s \<longleftrightarrow> live_inv s \<and> (\<exists>p. latest_delivery s k = Some p \<and> e \<le> sm_effective_at p)"

lemma accept_sample_live_since:
  assumes "live_since k e s" "accept_sample tz d t x s = Inr (r, u)"
    and "sm_id x = st_next_id s" "sm_device_id x = dv_id d"
  shows "\<exists>p. latest_delivery u k = Some p \<and> e \<le> sm_effective_at p"
proof -
  have s: "sample_ids s" "states_ok s" using assms(1) by (auto simp: live_since_def live_inv_def)
  note live = accept_sample_live [OF assms(2) s assms(3,4)]
  show ?thesis
  proof (cases "k = dv_id d")
    case True
    then show ?thesis using assms(1,4) live(1)
      by (auto simp: live_since_def arrives_out_of_order_def split: option.splits)
  qed (use assms(1) live(2) in \<open>auto simp: live_since_def\<close>)
qed

lemma live_since_frame:
  assumes "st_samples t = st_samples s" "st_states t = st_states s" "st_devices t = st_devices s"
    and "map ni_id (st_intervals t) = map ni_id (st_intervals s)" "st_next_id t = st_next_id s"
  shows "live_inv t = live_inv s" "latest_delivery t k = latest_delivery s k"
  using assms by (simp_all add: live_inv_def store_keys_def interval_ids_def sample_ids_def states_ok_def
      latest_delivery_def del: set_map)

lemma finalize_stateless_frame:
  assumes "finalize_stateless_history now s = (n, t)"
  shows "live_inv t = live_inv s" "latest_delivery t k = latest_delivery s k" "buckets_inv s \<Longrightarrow> buckets_inv t"
proof -
  have t: "t = snd (finalize_stateless_history now s)" by (simp add: assms)
  show "live_inv t = live_inv s" "latest_delivery t k = latest_delivery s k"
    by (rule live_since_frame; simp add: t finalize_stateless_history_def)+
  show "buckets_inv s \<Longrightarrow> buckets_inv t"
    by (auto simp: t finalize_stateless_history_def buckets_inv_def interval_constraints_finalize_row)
qed

lemma update_settings_frame:
  assumes "update_telemetry_settings home_id u s = Inr (v, t)"
  shows "live_inv t = live_inv s" "latest_delivery t k = latest_delivery s k" "buckets_inv t = buckets_inv s"
proof -
  obtain x s0 xs where s0: "telemetry_settings_for_home home_id s = Inr (x, s0)" and t: "t = s0 \<lparr>st_settings := xs\<rparr>"
    using assms by (auto simp: update_telemetry_settings_def bindE_simps Let_def split: if_splits)
  note fr = settings_frame [OF s0]
  show "live_inv t = live_inv s" "latest_delivery t k = latest_delivery s k"
    by (rule live_since_frame; simp add: t fr)+
  show "buckets_inv t = buckets_inv s" by (simp add: t fr buckets_inv_def)
qed

lemma ingest_stateless_accept:
  assumes "live_inv s" "ingest_stateless_sample digest tz device_id q now s = Inr (r, u)"
  obtains (same) h t where "telemetry_settings_for_home h s = Inr (t, u)" | (accepted) d t s0 x where
    "telemetry_settings_for_home (dv_home_id d) s = Inr (t, s0)" "st_devices s0 (dv_id d) = Some d"
    "sm_id x = st_next_id s0" "sm_device_id x = dv_id d" "accept_sample tz d t x s0 = Inr (r, u)"
  using assms(2)
proof (rule ingest_stateless_sample_Inr)
  fix d :: device and t :: telemetry_setting and s0 :: store
  let ?x = "sample_of (st_next_id s) d q (stateless_payload_hash digest q) now"
  assume d: "st_devices s device_id = Some d" and t: "telemetry_settings_for_home (dv_home_id d) s = Inr (t, s0)"
    and c: "(\<exists>prior. find (\<lambda>x. sm_device_id x = dv_id d \<and> sm_boot_id x = tq_boot_id q
          \<and> sm_sample_sequence x = tq_sample_sequence q) (st_samples s) = Some prior
        \<and> sm_payload_sha256 prior = stateless_payload_hash digest q \<and> u = s0
        \<and> r = \<lparr>sr_status = ''duplicate'', sr_received_at = sm_received_at prior,
               sr_timestamp_source = timestamp_source prior, sr_config_version = ts_config_version t,
               sr_telemetry_interval_seconds = ts_telemetry_interval_seconds t,
               sr_advances_live_state = False\<rparr>)
     \<or> find (\<lambda>x. sm_device_id x = dv_id d \<and> sm_boot_id x = tq_boot_id q
          \<and> sm_sample_sequence x = tq_sample_sequence q) (st_samples s) = None
        \<and> accept_sample tz d t ?x s0 = Inr (r, u)"
  note fr = settings_frame(8,9) [OF t]
  have "dv_id d = device_id" using assms(1) d by (simp add: live_inv_def store_keys_def)
  then have "st_devices s0 (dv_id d) = Some d" "sm_id ?x = st_next_id s0" "sm_device_id ?x = dv_id d"
    using d fr by simp_all
  then show thesis using c t same accepted [OF t] by blast
qed

lemma stateless_rel_inv:
  assumes "live_inv s" "buckets_inv s" "stateless_rel digest tz s t"
  shows "live_inv t \<and> buckets_inv t"
  using assms(3) unfolding stateless_rel_def
proof (elim disjE exE)
  fix device_id q now r assume run: "ingest_stateless_sample digest tz device_id q now s = Inr (r, t)"
  have "buckets_inv t" using assms(1) run
  proof (cases rule: ingest_stateless_accept)
    case (same h x)
    then show ?thesis using settings_frame(10) [OF same] assms(2) by (simp add: buckets_inv_def)
  next
    case (accepted d x s0 y)
    have "buckets_inv s0" using settings_frame(10) [OF accepted(1)] assms(2) by (simp add: buckets_inv_def)
    then show ?thesis using accepted(5) by (rule accept_sample_buckets)
  qed
  then show ?thesis using ingest_stateless_inv [OF assms(1) run] by blast
next
  fix now n assume "finalize_stateless_history now s = (n, t)"
  then show ?thesis using finalize_stateless_frame assms(1,2) by blast
next
  fix home_id u v assume "update_telemetry_settings home_id u s = Inr (v, t)"
  then show ?thesis using update_settings_frame assms(1,2) by blast
qed

lemma stateless_rel_live_since:
  assumes "live_since k e s" "stateless_rel digest tz s t"
  shows "live_since k e t"
  using assms(2) unfolding stateless_rel_def
proof (elim disjE exE)
  have s: "live_inv s" using assms(1) by (simp add: live_since_def)
  fix device_id q now r assume run: "ingest_stateless_sample digest tz device_id q now s = Inr (r, t)"
  have "\<exists>p. latest_delivery t k = Some p \<and> e \<le> sm_effective_at p" using s run
  proof (cases rule: ingest_stateless_accept)
    case (same h x)
    then show ?thesis using settings_frame(2) [OF same] assms(1) by (simp add: live_since_def)
  next
    case (accepted d x s0 y)
    have "live_since k e s0" using settings_frame(1,2) [OF accepted(1)] assms(1) by (simp add: live_since_def)
    then show ?thesis using accept_sample_live_since accepted(3-5) by blast
  qed
  then show ?thesis using ingest_stateless_inv [OF s run] by (simp add: live_since_def)
next
  fix now n assume "finalize_stateless_history now s = (n, t)"
  then show ?thesis using finalize_stateless_frame assms(1) by (simp add: live_since_def)
next
  fix home_id u v assume "update_telemetry_settings home_id u s = Inr (v, t)"
  then show ?thesis using update_settings_frame assms(1) by (simp add: live_since_def)
qed

interpretation telemetry: guarded_system fresh_telemetry "stateless_rel digest tz"
  "\<lambda>s. live_inv s \<and> buckets_inv s" for digest tz
proof unfold_locales
  show "live_inv s \<and> buckets_inv s" if "fresh_telemetry s" for s
    using that by (auto simp: fresh_telemetry_def live_inv_def buckets_inv_def interval_ids_def sample_ids_def states_ok_def)
qed (use stateless_rel_inv in blast)

interpretation live_sample: guarded_system "live_since k e" "stateless_rel digest tz" "live_since k e" for k e digest tz
  by unfold_locales (auto intro: stateless_rel_live_since)

text \<open>C18. In every state that samples, the finalizer and settings changes can reach, each bucket satisfies
  all constraints of its table, with at most as many samples as were expected and a completeness between 0 and 1,
  and its average power lies between its minimum and its maximum.\<close>
theorem history_buckets_well_formed:
  assumes "reachable fresh_telemetry (stateless_rel digest tz) s"
    and "i \<in> set (st_intervals s)" "ni_source_kind i = ''stateless_v2''"
  shows "interval_constraints i
    \<and> (case (ni_minimum_power_mw i, ni_average_power_mw i, ni_maximum_power_mw i) of
         (Some a, Some m, Some z) \<Rightarrow> a \<le> m \<and> m \<le> z | (None, None, None) \<Rightarrow> True | _ \<Rightarrow> False)"
  using telemetry.reachable_inv [OF assms(1)] assms(2,3) by (auto simp: buckets_inv_def power_ok_def)

lemma demo_home_fresh: "fresh_telemetry demo_home"
  using demo_home_inv by (auto simp: fresh_telemetry_def live_inv_def demo_home_def demo_store_def)

theorem history_buckets_well_formed_witness:
  "\<exists>t i. reachable fresh_telemetry (stateless_rel demo_digest no_zones) t \<and> i \<in> set (st_intervals t)
     \<and> ni_average_power_mw i = Some 100000 \<and> interval_constraints i"
proof (rule demo_first_run)
  fix r t
  assume run: "ingest_stateless_sample demo_digest no_zones demo_sensor_id (demo_sample 1 0 10) 0 demo_home = Inr (r, t)"
    and av: "map ni_average_power_mw (st_intervals t) = [Some 100000]"
    and kind: "map ni_source_kind (st_intervals t) = [''stateless_v2'']"
  have "stateless_rel demo_digest no_zones demo_home t" using run unfolding stateless_rel_def by blast
  then have reach: "reachable fresh_telemetry (stateless_rel demo_digest no_zones) t"
    using demo_home_fresh by (blast intro: reachable.intros)
  obtain i where "st_intervals t = [i]" using av by auto
  then show ?thesis using history_buckets_well_formed [OF reach, of i] reach av kind by auto
qed

text \<open>C19. Late samples never turn the live state back: over any run a device keeps a live sample, and its time
  never decreases.\<close>
theorem live_state_never_regresses:
  assumes "(stateless_rel digest tz)\<^sup>*\<^sup>* s t" "live_inv s" "latest_delivery s k = Some p"
  shows "\<exists>p'. latest_delivery t k = Some p' \<and> sm_effective_at p \<le> sm_effective_at p'"
proof -
  have "live_since k (sm_effective_at p) s" using assms(2,3) by (simp add: live_since_def)
  with assms(1) have "live_since k (sm_effective_at p) t" by (rule live_sample.steps_inv)
  then show ?thesis by (auto simp: live_since_def)
qed

theorem live_state_never_regresses_witness:
  "\<exists>r t p r' u p'. ingest_stateless_sample demo_digest no_zones demo_sensor_id (demo_sample 1 0 10) 0 demo_home = Inr (r, t)
     \<and> latest_delivery t demo_sensor_id = Some p
     \<and> ingest_stateless_sample demo_digest no_zones demo_sensor_id (demo_sample 2 (- 1) 9) 0 t = Inr (r', u)
     \<and> latest_delivery u demo_sensor_id = Some p' \<and> sm_effective_at p \<le> sm_effective_at p'"
proof -
  have "map_sum id (\<lambda>(r, u). sr_status r) (bindE demo_first (\<lambda>(r, t).
      ingest_stateless_sample demo_digest no_zones demo_sensor_id (demo_sample 2 (- 1) 9) 0 t)) = Inr ''accepted''"
    by code_simp
  then obtain r t r' u where first: "demo_first = Inr (r, t)"
    and second: "ingest_stateless_sample demo_digest no_zones demo_sensor_id (demo_sample 2 (- 1) 9) 0 t = Inr (r', u)"
    by (auto simp: bindE_simps)
  have run: "ingest_stateless_sample demo_digest no_zones demo_sensor_id (demo_sample 1 0 10) 0 demo_home = Inr (r, t)"
    using first by (simp add: demo_first_def)
  obtain p where p: "latest_delivery t demo_sensor_id = Some p"
    by (rule demo_first_run) (use run in auto)
  have "(stateless_rel demo_digest no_zones)\<^sup>*\<^sup>* t u" using second unfolding stateless_rel_def by blast
  from live_state_never_regresses [OF this ingest_stateless_inv [OF demo_home_inv(1) run] p]
  show ?thesis using run second p by blast
qed

subsection \<open>Retention and finalizing\<close>

text \<open>The buckets that some home's retention has expired.\<close>

definition retention_due :: "telemetry_setting list \<Rightarrow> store \<Rightarrow> instant \<Rightarrow> normalized_interval \<Rightarrow> bool" where
  "retention_due settings s t i \<longleftrightarrow> list_ex (\<lambda>x. case ts_retention_days x of None \<Rightarrow> False
     | Some days \<Rightarrow> expired_bucket s (ts_home_id x) (t - days * day_us) i) settings"

lemma expired_bucket_intervals [simp]:
  "expired_bucket (s \<lparr>st_intervals := is\<rparr>) h c = expired_bucket s h c"
  by (simp add: expired_bucket_def fun_eq_iff)

lemma filter_by_id:
  assumes "distinct (map ni_id is)"
  shows "filter (\<lambda>i. ni_id i \<in> set (map ni_id (filter P is))) is = filter P is"
    "filter (\<lambda>i. ni_id i \<notin> set (map ni_id (filter P is))) is = filter (\<lambda>i. \<not> P i) is"
proof -
  have "ni_id i \<in> set (map ni_id (filter P is)) \<longleftrightarrow> P i" if "i \<in> set is" for i
    using assms that by (auto simp: distinct_map dest: inj_onD)
  then show "filter (\<lambda>i. ni_id i \<in> set (map ni_id (filter P is))) is = filter P is"
    "filter (\<lambda>i. ni_id i \<notin> set (map ni_id (filter P is))) is = filter (\<lambda>i. \<not> P i) is"
    by (auto intro: filter_cong)
qed

lemma retain_home_eq:
  fixes s :: store and x :: telemetry_setting and t :: instant
  assumes "distinct (map ni_id (st_intervals s))"
  defines "due \<equiv> retention_due [x] s t"
  shows "retain_home t x (n, s) =
    (if \<exists>c\<in>set (st_interval_costs s). \<exists>i\<in>set (st_intervals s). ic_normalized_interval_id c = ni_id i \<and> due i
     then Inl IntegrityError
     else Inr (n + length (filter due (st_intervals s)), s \<lparr>st_intervals := filter (\<lambda>i. \<not> due i) (st_intervals s)\<rparr>))"
proof (cases "ts_retention_days x")
  case None
  then show ?thesis by (simp add: retain_home_def retention_due_def due_def)
next
  case (Some days)
  then have due: "due = expired_bucket s (ts_home_id x) (t - days * day_us)"
    by (simp add: due_def retention_due_def fun_eq_iff)
  let ?ids = "map ni_id (filter due (st_intervals s))"
  have "list_ex (\<lambda>c. ic_normalized_interval_id c \<in> set ?ids) (st_interval_costs s) \<longleftrightarrow>
    (\<exists>c\<in>set (st_interval_costs s). \<exists>i\<in>set (st_intervals s). ic_normalized_interval_id c = ni_id i \<and> due i)"
    by (auto simp: list_ex_iff)
  moreover have "retain_home t x (n, s) =
    (if list_ex (\<lambda>c. ic_normalized_interval_id c \<in> set ?ids) (st_interval_costs s) then Inl IntegrityError
     else Inr (n + length (filter (\<lambda>i. ni_id i \<in> set ?ids) (st_intervals s)),
       s \<lparr>st_intervals := filter (\<lambda>i. ni_id i \<notin> set ?ids) (st_intervals s)\<rparr>))"
    by (simp add: retain_home_def Some due Let_def del: set_map)
  ultimately show ?thesis by (simp only: filter_by_id [OF assms(1)])
qed

lemma retention_due_Cons:
  "retention_due (x # xs) s t i \<longleftrightarrow> retention_due [x] s t i \<or> retention_due xs s t i"
  by (simp add: retention_due_def)

lemma retain_homes_eq:
  fixes s :: store
  assumes "distinct (map ni_id (st_intervals s))"
  shows "foldE (retain_home t) xs (n, s) =
    (if \<exists>c\<in>set (st_interval_costs s). \<exists>i\<in>set (st_intervals s).
          ic_normalized_interval_id c = ni_id i \<and> retention_due xs s t i
     then Inl IntegrityError
     else Inr (n + length (filter (retention_due xs s t) (st_intervals s)),
       s \<lparr>st_intervals := filter (\<lambda>i. \<not> retention_due xs s t i) (st_intervals s)\<rparr>))"
  using assms
proof (induction xs arbitrary: n s)
  case Nil
  then show ?case by (simp add: retention_due_def)
next
  case (Cons x xs)
  let ?due = "retention_due [x] s t"
  define s' where "s' = s \<lparr>st_intervals := filter (\<lambda>i. \<not> ?due i) (st_intervals s)\<rparr>"
  have d: "distinct (map ni_id (st_intervals s'))" using Cons.prems by (simp add: s'_def distinct_map inj_on_def)
  have same: "retention_due xs s' t = retention_due xs s t"
    unfolding s'_def retention_due_def expired_bucket_intervals by (rule refl)
  have parts: "length (filter (retention_due (x # xs) s t) is)
      = length (filter ?due is) + length (filter (retention_due xs s t) (filter (\<lambda>i. \<not> ?due i) is))"
    "filter (\<lambda>i. \<not> retention_due xs s t i) (filter (\<lambda>i. \<not> ?due i) is) = filter (\<lambda>i. \<not> retention_due (x # xs) s t i) is"
    for "is"
    by (induction "is") (auto simp: retention_due_Cons [of x xs])
  show ?case
  proof (cases "\<exists>c\<in>set (st_interval_costs s). \<exists>i\<in>set (st_intervals s). ic_normalized_interval_id c = ni_id i \<and> ?due i")
    case True
    then show ?thesis using retain_home_eq [OF Cons.prems, of t x n] by (auto simp: retention_due_Cons [of x xs])
  next
    case False
    let ?k = "n + length (filter ?due (st_intervals s))"
    have iff: "(\<exists>c\<in>set (st_interval_costs s'). \<exists>i\<in>set (st_intervals s').
          ic_normalized_interval_id c = ni_id i \<and> retention_due xs s' t i) \<longleftrightarrow>
        (\<exists>c\<in>set (st_interval_costs s). \<exists>i\<in>set (st_intervals s).
          ic_normalized_interval_id c = ni_id i \<and> retention_due (x # xs) s t i)"
      unfolding same using False by (auto simp: s'_def retention_due_Cons [of x xs])
    have rows: "?k + length (filter (retention_due xs s' t) (st_intervals s'))
        = n + length (filter (retention_due (x # xs) s t) (st_intervals s))"
      "s' \<lparr>st_intervals := filter (\<lambda>i. \<not> retention_due xs s' t i) (st_intervals s')\<rparr>
        = s \<lparr>st_intervals := filter (\<lambda>i. \<not> retention_due (x # xs) s t i) (st_intervals s)\<rparr>"
      unfolding same parts(1) parts(2) [symmetric] by (simp_all add: s'_def)
    have "retain_home t x (n, s) = Inr (?k, s')"
      unfolding retain_home_eq [OF Cons.prems] using False by (simp add: s'_def)
    then have "foldE (retain_home t) (x # xs) (n, s) = foldE (retain_home t) xs (?k, s')" by simp
    then show ?thesis unfolding Cons.IH [OF d] iff rows .
  qed
qed

text \<open>C20. Retention removes exactly the expired buckets: those of a home whose retention they have outlived
  that are finalized and whose cost is not selected, counted once, in one transaction that leaves every other row
  and table as it was; it fails as a whole exactly when one of them still has a cost row.\<close>
theorem retention_removes_exactly_expired:
  assumes "interval_ids s"
  shows "apply_stateless_history_retention t s =
    (if \<exists>c\<in>set (st_interval_costs s). \<exists>i\<in>set (st_intervals s).
          ic_normalized_interval_id c = ni_id i \<and> retention_due (st_settings s) s t i
     then Inl IntegrityError
     else Inr (length (filter (retention_due (st_settings s) s t) (st_intervals s)),
       s \<lparr>st_intervals := filter (\<lambda>i. \<not> retention_due (st_settings s) s t i) (st_intervals s)\<rparr>))"
  using retain_homes_eq [of s t "st_settings s" 0] assms
  by (simp add: apply_stateless_history_retention_def interval_ids_def)

definition demo_bucket :: normalized_interval where
  "demo_bucket = finalize_row (new_bucket 7 demo_sensor
     (sample_of 6 demo_sensor (demo_sample 1 0 10) ''a'' 0) (default_telemetry_setting ''h1'') (Some 5000) False)"

definition demo_history :: store where
  "demo_history = demo_home \<lparr>st_intervals := [demo_bucket], st_next_id := 8\<rparr>"

lemma demo_history_ids: "interval_ids demo_history"
  by (simp add: interval_ids_def demo_history_def demo_bucket_def)

lemma demo_history_due:
  "retention_due (st_settings demo_history) demo_history (366 * day_us) demo_bucket"
proof -
  have "expired_bucket demo_history ''h1'' (366 * day_us - 365 * day_us) demo_bucket" by code_simp
  then show ?thesis
    by (simp add: retention_due_def demo_history_def demo_home_def default_telemetry_setting_def demo_store_def)
qed

theorem retention_removes_exactly_expired_witness:
  "map_sum id (\<lambda>(n, t). (n, st_intervals t)) (apply_stateless_history_retention (366 * day_us) demo_history) = Inr (1, [])"
  unfolding retention_removes_exactly_expired [OF demo_history_ids]
  using demo_history_due by (simp add: demo_history_def demo_home_def demo_store_def)

text \<open>Invalidating a cost makes retention fail: a bucket whose cost selection was dropped keeps its cost row,
  so that once it has expired the cleanup of every home is rolled back.\<close>
theorem retention_blocked_by_unselected_cost:
  "map_sum id fst (apply_stateless_history_retention (366 * day_us) (invalidate_mutable_cost_selections demo_sensor 7
     (demo_history \<lparr>st_interval_costs := [\<lparr>ic_normalized_interval_id = 7, ic_energy_mwh = 5000,
          ic_energy_cost_microdollars = 1500, ic_credit_microdollars = 0\<rparr>],
        st_cost_selections := [\<lparr>is_normalized_interval_id = 7, is_interval_cost_id = 9\<rparr>]\<rparr>)))
   = Inl IntegrityError"
  by code_simp



text \<open>A shorter telemetry interval loses samples: a bucket opened for one sample a minute refuses, with a
  violated constraint, the second valid sample that the new interval of five seconds lets the device send.\<close>
theorem shorter_interval_loses_sample:
  "map_sum id (\<lambda>(r, t). sr_status r)
     (bindE (update_telemetry_settings ''h1'' \<lparr>tu_fields_set = [''telemetry_interval_seconds''],
          tu_telemetry_interval_seconds = Some 60, tu_history_interval_seconds = None, tu_retention_days = None,
          tu_retention_confirmation = None\<rparr> demo_home) (\<lambda>(x, s1).
      bindE (ingest_stateless_sample demo_digest no_zones demo_sensor_id (demo_sample 1 0 10) 0 s1) (\<lambda>(r, s2).
      bindE (update_telemetry_settings ''h1'' \<lparr>tu_fields_set = [''telemetry_interval_seconds''],
          tu_telemetry_interval_seconds = Some 5, tu_history_interval_seconds = None, tu_retention_days = None,
          tu_retention_confirmation = None\<rparr> s2) (\<lambda>(y, s3).
      ingest_stateless_sample demo_digest no_zones demo_sensor_id (demo_sample 2 5000000 11) 5000000 s3))))
   = Inl IntegrityError"
  by code_simp

text \<open>Samples of one instant are counted twice: two samples with the same time and the counters 12 and 13 after
  a sample with the counter 10 account for 5000 mWh, although the meter advanced by 3000.\<close>
theorem equal_time_counts_twice:
  "map_sum id (\<lambda>(rs, t). (map sr_status rs, accounted_energy demo_sensor_id t))
     (ingest_stateless_samples demo_digest no_zones demo_sensor_id
        [(demo_sample 1 0 10, 0), (demo_sample 2 5000000 12, 5000000), (demo_sample 3 5000000 13, 5000000)] demo_home)
   = Inr ([''accepted'', ''accepted'', ''accepted''], 5000)"
  by code_simp

end
