(* ===== verification/Device_Store.thy ===== *)
theory Device_Store
  imports Telemetry_Store
begin

text \<open>
  The tables of device credentials, nonces and commands (\<open>backend/app/models.py\<close>), kept beside
  the store of the ingestion paths. Row ids drawn by \<open>new_uuid\<close> are the number of their draw.
  Audit events are kept because commands refer to them.
\<close>

record credential =
  cr_id :: row_id
  cr_device_id :: string
  cr_encrypted_secret :: string
  cr_fingerprint :: string
  cr_key_version :: int
  cr_state :: string
  cr_rotation_id :: "string option"
  cr_overlap_expires_at :: "instant option"
  cr_prepared_at :: "instant option"
  cr_activated_at :: "instant option"
  cr_prepare_command_id :: "row_id option"
  cr_commit_command_id :: "row_id option"
  cr_cancel_command_id :: "row_id option"
  cr_revoked_at :: "instant option"

record device_nonce =
  nc_device_id :: string
  nc_nonce_hash :: string
  nc_seen_at :: instant

record device_command =
  dc_id :: row_id
  dc_device_id :: string
  dc_command_type :: string
  dc_issued_by_user_id :: string
  dc_issued_at :: instant
  dc_not_before :: instant
  dc_expires_at :: instant
  dc_attempt :: int
  dc_idempotency_key :: string
  dc_required_firmware_capability :: "string option"
  dc_payload :: "(string \<times> json) list"
  dc_state :: string
  dc_progress_percent :: int
  dc_last_result :: "(string \<times> json) list option"
  dc_created_audit_id :: row_id
  dc_prepare_token_hash :: "string option"

record command_attempt =
  at_command_id :: row_id
  at_attempt :: int
  at_delivered_at :: instant
  at_result_at :: "instant option"
  at_result_code :: "string option"
  at_evidence :: "(string \<times> json) list"

record audit_event =
  ae_id :: row_id
  ae_actor_user_id :: string
  ae_event_code :: string
  ae_target_type :: string
  ae_target_id :: string
  ae_details :: "(string \<times> json) list"

record backend =
  bk_store :: store
  bk_credentials :: "credential list"
  bk_nonces :: "device_nonce list"
  bk_commands :: "device_command list"
  bk_attempts :: "command_attempt list"
  bk_audit :: "audit_event list"
  bk_next_id :: row_id

definition nonce_unique :: "backend \<Rightarrow> device_nonce \<Rightarrow> bool" where
  "nonce_unique s n \<longleftrightarrow>
     \<not> list_ex (\<lambda>m. nc_device_id m = nc_device_id n \<and> nc_nonce_hash m = nc_nonce_hash n) (bk_nonces s)"

definition command_constraints :: "device_command \<Rightarrow> bool" where
  "command_constraints c \<longleftrightarrow> 0 \<le> dc_progress_percent c \<and> dc_progress_percent c \<le> 100"

definition command_unique :: "backend \<Rightarrow> device_command \<Rightarrow> bool" where
  "command_unique s c \<longleftrightarrow>
     \<not> list_ex (\<lambda>x. dc_device_id x = dc_device_id c \<and> dc_idempotency_key x = dc_idempotency_key c) (bk_commands s)"

end
