(* ===== verification/Device_Protocol.thy ===== *)
theory Device_Protocol
  imports PM_Json "HOL-Library.List_Lexorder" "HOL-Library.Char_ord"
begin

text \<open>
  \<open>backend/app/security/protocol.py\<close>: the canonical form of a signed request, its signature and
  the window of its timestamp. A string is the list of its UTF-8 bytes. The digests and the key
  derivation are parameters, collected in a record; \<open>utf8\<close> is the decoding of percent-encoded
  bytes, in which malformed sequences are replaced. Query strings are ASCII, as a request line
  carries them.
\<close>

record crypto =
  cy_sha256 :: "string \<Rightarrow> string"
  cy_hmac_sha256 :: "string \<Rightarrow> string \<Rightarrow> string"
  cy_hkdf :: "string \<Rightarrow> string \<Rightarrow> string \<Rightarrow> string"
  cy_aesgcm_decrypt :: "string \<Rightarrow> string \<Rightarrow> string \<Rightarrow> string \<Rightarrow> string option"

definition protocol_id :: string where "protocol_id = ''pm-protocol/1.0.0''"
definition signing_prefix :: string where "signing_prefix = ''PM-HMAC-SHA256-V1''"

subsection \<open>Percent encoding\<close>

definition is_alnum :: "char \<Rightarrow> bool" where
  "is_alnum c \<longleftrightarrow> (let k = (of_char c :: nat) in 48 \<le> k \<and> k \<le> 57 \<or> 65 \<le> k \<and> k \<le> 90 \<or> 97 \<le> k \<and> k \<le> 122)"

definition upper_hex_digit :: "nat \<Rightarrow> char" where
  "upper_hex_digit n = (if n < 10 then char_of (48 + n) else char_of (55 + n))"

definition quote_char :: "string \<Rightarrow> char \<Rightarrow> string" where
  "quote_char safe c =
     (if is_alnum c \<or> c \<in> set ''_.-~'' \<or> c \<in> set safe then [c]
      else [CHR ''%'', upper_hex_digit (of_char c div 16), upper_hex_digit (of_char c mod 16)])"

definition quote :: "string \<Rightarrow> string \<Rightarrow> string" where
  "quote safe s = concat (map (quote_char safe) s)"

definition hex_value :: "char \<Rightarrow> nat option" where
  "hex_value c =
     (let k = (of_char c :: nat) in
      if 48 \<le> k \<and> k \<le> 57 then Some (k - 48)
      else if 65 \<le> k \<and> k \<le> 70 then Some (k - 55)
      else if 97 \<le> k \<and> k \<le> 102 then Some (k - 87) else None)"

fun unquote_to_bytes :: "string \<Rightarrow> string" where
  "unquote_to_bytes [] = []"
| "unquote_to_bytes (c # cs) =
     (case cs of
        a # b # rest \<Rightarrow>
          (case (c = CHR ''%'', hex_value a, hex_value b) of
             (True, Some h, Some l) \<Rightarrow> char_of (16 * h + l) # unquote_to_bytes rest
           | _ \<Rightarrow> c # unquote_to_bytes cs)
      | _ \<Rightarrow> c # unquote_to_bytes cs)"

definition unquote :: "(string \<Rightarrow> string) \<Rightarrow> string \<Rightarrow> string" where
  "unquote utf8 s = (if CHR ''%'' \<in> set s then utf8 (unquote_to_bytes s) else s)"

definition unquote_plus :: "(string \<Rightarrow> string) \<Rightarrow> string \<Rightarrow> string" where
  "unquote_plus utf8 s = unquote utf8 (map (\<lambda>c. if c = CHR ''+'' then CHR '' '' else c) s)"

subsection \<open>Query strings\<close>

text \<open>\<open>s.split(sep)\<close> and \<open>sep.join(parts)\<close>.\<close>

fun split_on :: "char \<Rightarrow> string \<Rightarrow> string list" where
  "split_on sep [] = [[]]"
| "split_on sep (c # cs) =
     (if c = sep then [] # split_on sep cs
      else case split_on sep cs of p # ps \<Rightarrow> (c # p) # ps | [] \<Rightarrow> [[c]])"

fun join :: "string \<Rightarrow> string list \<Rightarrow> string" where
  "join sep [] = []"
| "join sep [p] = p"
| "join sep (p # ps) = p @ sep @ join sep ps"

text \<open>\<open>s.partition('=')\<close>, without the separator.\<close>

definition partition_eq :: "string \<Rightarrow> string \<times> string" where
  "partition_eq s = (takeWhile (\<lambda>c. c \<noteq> CHR ''='') s, drop 1 (dropWhile (\<lambda>c. c \<noteq> CHR ''='') s))"

definition parse_qsl :: "(string \<Rightarrow> string) \<Rightarrow> string \<Rightarrow> (string \<times> string) list" where
  "parse_qsl utf8 raw_query =
     map (\<lambda>p. let (name, val) = partition_eq p in (unquote_plus utf8 name, unquote_plus utf8 val))
       (filter (\<lambda>p. p \<noteq> []) (split_on CHR ''&'' raw_query))"

definition query_safe :: string where "query_safe = ''~-._''"

definition encoded_pair :: "string \<times> string \<Rightarrow> string \<times> string" where
  "encoded_pair p = (quote query_safe (fst p), quote query_safe (snd p))"

definition canonical_query :: "(string \<Rightarrow> string) \<Rightarrow> string \<Rightarrow> string" where
  "canonical_query utf8 raw_query =
     join ''&'' (map (\<lambda>(key, val). key @ ''='' @ val) (sort (map encoded_pair (parse_qsl utf8 raw_query))))"

subsection \<open>The canonical request\<close>

definition path_safe :: string where "path_safe = ''/~:@!$&'' @ [CHR 0x27] @ ''()*+,;=-._''"

definition canonical_path :: "(string \<Rightarrow> string) \<Rightarrow> string \<Rightarrow> string \<Rightarrow> string" where
  "canonical_path utf8 path raw_query =
     (let query = canonical_query utf8 raw_query in
      quote path_safe path @ (if query \<noteq> [] then ''?'' @ query else []))"

definition char_upper :: "char \<Rightarrow> char" where
  "char_upper c = (let k = (of_char c :: nat) in if 97 \<le> k \<and> k \<le> 122 then char_of (k - 32) else c)"

definition str_upper :: "string \<Rightarrow> string" where
  "str_upper s = map char_upper s"

definition canonical_request ::
  "(string \<Rightarrow> string) \<Rightarrow> string \<Rightarrow> string \<Rightarrow> string \<Rightarrow> string \<Rightarrow> string \<Rightarrow> string \<Rightarrow> string result" where
  "canonical_request utf8 meth path raw_query timestamp nonce content_sha256 =
     (if content_sha256 \<noteq> str_lower content_sha256 \<or> length content_sha256 \<noteq> 64
      then Inl (ValueError ''content hash must be lowercase SHA-256 hex'')
      else Inr (join [CHR 0x0A] [signing_prefix, str_upper meth, canonical_path utf8 path raw_query,
             timestamp, nonce, content_sha256]))"

subsection \<open>Keys and signatures\<close>

definition body_sha256 :: "crypto \<Rightarrow> string \<Rightarrow> string" where
  "body_sha256 cy body = cy_sha256 cy body"

definition derive_directional_key :: "crypto \<Rightarrow> string \<Rightarrow> string \<Rightarrow> string \<Rightarrow> string result" where
  "derive_directional_key cy device_secret device_id direction =
     (if direction \<notin> {''device-to-server'', ''server-to-device''}
      then Inl (ValueError ''invalid protocol key direction'')
      else Inr (cy_hkdf cy device_secret (protocol_id @ [CHR 0x00] @ device_id)
             (''PowerMeter V2'' @ [CHR 0x00] @ direction)))"

text \<open>Base64 with padding, and its strict decoding.\<close>

definition b64_char :: "int \<Rightarrow> char" where
  "b64_char n = (if n < 26 then char_of (65 + n) else if n < 52 then char_of (71 + n)
     else if n < 62 then char_of (n - 4) else if n = 62 then CHR ''+'' else CHR ''/'')"

definition b64_value :: "char \<Rightarrow> int option" where
  "b64_value c =
     (let k = (of_char c :: int) in
      if 65 \<le> k \<and> k \<le> 90 then Some (k - 65) else if 97 \<le> k \<and> k \<le> 122 then Some (k - 71)
      else if 48 \<le> k \<and> k \<le> 57 then Some (k + 4)
      else if k = 43 then Some 62 else if k = 47 then Some 63 else None)"

fun b64encode :: "string \<Rightarrow> string" where
  "b64encode (a # b # c # rest) =
     (let n = of_char a * 65536 + of_char b * 256 + of_char c :: int
      in b64_char (n div 262144) # b64_char (n div 4096 mod 64) # b64_char (n div 64 mod 64)
         # b64_char (n mod 64) # b64encode rest)"
| "b64encode [a, b] =
     (let n = of_char a * 256 + of_char b :: int
      in [b64_char (n div 1024), b64_char (n div 16 mod 64), b64_char (n mod 16 * 4), CHR ''=''])"
| "b64encode [a] =
     (let n = of_char a :: int in [b64_char (n div 4), b64_char (n mod 4 * 16), CHR ''='', CHR ''=''])"
| "b64encode [] = []"

fun b64decode :: "string \<Rightarrow> string option" where
  "b64decode (a # b # c # d # rest) =
     (if d = CHR ''='' then
        (if rest \<noteq> [] then None
         else if c = CHR ''='' then
           (case (b64_value a, b64_value b) of
              (Some x, Some y) \<Rightarrow> Some [char_of ((x * 64 + y) div 16)] | _ \<Rightarrow> None)
         else
           (case (b64_value a, b64_value b, b64_value c) of
              (Some x, Some y, Some z) \<Rightarrow>
                Some [char_of ((x * 4096 + y * 64 + z) div 1024), char_of ((x * 4096 + y * 64 + z) div 4 mod 256)]
            | _ \<Rightarrow> None))
      else
        (case (b64_value a, b64_value b, b64_value c, b64_value d) of
           (Some x, Some y, Some z, Some w) \<Rightarrow>
             (let n = x * 262144 + y * 4096 + z * 64 + w
              in map_option (\<lambda>bs. char_of (n div 65536) # char_of (n div 256 mod 256) # char_of (n mod 256) # bs)
                   (b64decode rest))
         | _ \<Rightarrow> None))"
| "b64decode [] = Some []"
| "b64decode _ = None"

definition sign_request :: "crypto \<Rightarrow> string \<Rightarrow> string \<Rightarrow> string" where
  "sign_request cy key canonical = b64encode (cy_hmac_sha256 cy key canonical)"

definition verify_signature :: "crypto \<Rightarrow> string \<Rightarrow> string \<Rightarrow> string \<Rightarrow> bool" where
  "verify_signature cy key canonical presented =
     (case b64decode presented of None \<Rightarrow> False
      | Some decoded \<Rightarrow> cy_hmac_sha256 cy key canonical = decoded)"

subsection \<open>Timestamps and headers\<close>

text \<open>
  \<open>int(text)\<close>: blanks around, a sign, and digits in which single underscores may stand between
  two digits; more than 4300 digits are refused.
\<close>

fun underscores_ok :: "string \<Rightarrow> bool" where
  "underscores_ok [] = True"
| "underscores_ok (c # cs) =
     (if c = CHR ''_'' then (case cs of [] \<Rightarrow> False | d # _ \<Rightarrow> d \<noteq> CHR ''_'' \<and> underscores_ok cs)
      else underscores_ok cs)"

definition py_int_of_string :: "string \<Rightarrow> int option" where
  "py_int_of_string text =
     (let (sg, t) = parse_sign (str_strip text);
          ds = filter (\<lambda>c. c \<noteq> CHR ''_'') t
      in if t = [] \<or> hd t = CHR ''_'' \<or> \<not> underscores_ok t \<or> 4300 < length ds then None
         else map_option (\<lambda>n. sg * n) (digits_val 0 ds))"

definition validate_timestamp :: "string \<Rightarrow> int \<Rightarrow> int \<Rightarrow> int result" where
  "validate_timestamp timestamp now window_seconds =
     (case py_int_of_string timestamp of
        None \<Rightarrow> Inl (ValueError ''timestamp must be Unix seconds'')
      | Some v \<Rightarrow> if window_seconds < \<bar>now - v\<bar> then Inl (ValueError ''timestamp outside acceptance window'')
                   else Inr v)"

record protocol_headers =
  ph_protocol :: string
  ph_device_id :: string
  ph_timestamp :: string
  ph_nonce :: string
  ph_content_sha256 :: string
  ph_signature :: string

definition required_header :: "(string \<Rightarrow> string option) \<Rightarrow> string \<Rightarrow> string result" where
  "required_header headers name =
     (case headers name of
        Some v \<Rightarrow> if v = [] then Inl (ValueError ''missing device authentication header'') else Inr v
      | None \<Rightarrow> Inl (ValueError ''missing device authentication header''))"

definition headers_from_mapping :: "(string \<Rightarrow> string option) \<Rightarrow> protocol_headers result" where
  "headers_from_mapping headers =
     bindE (required_header headers ''X-PM-Protocol'') (\<lambda>protocol.
     bindE (required_header headers ''X-PM-Device-ID'') (\<lambda>device_id.
     bindE (required_header headers ''X-PM-Timestamp'') (\<lambda>timestamp.
     bindE (required_header headers ''X-PM-Nonce'') (\<lambda>nonce.
     bindE (required_header headers ''X-PM-Content-SHA256'') (\<lambda>content_sha256.
     bindE (required_header headers ''X-PM-Signature'') (\<lambda>signature.
     if protocol \<noteq> protocol_id then Inl (ValueError ''unsupported device protocol'')
     else if \<not> (16 \<le> length nonce \<and> length nonce \<le> 128) then Inl (ValueError ''invalid nonce length'')
     else Inr \<lparr>ph_protocol = protocol, ph_device_id = device_id, ph_timestamp = timestamp, ph_nonce = nonce,
            ph_content_sha256 = content_sha256, ph_signature = signature\<rparr>))))))"

subsection \<open>Facts about percent encoding\<close>

lemma hex_value_upper: "n < 16 \<Longrightarrow> hex_value (upper_hex_digit n) = Some n"
  by (auto simp: hex_value_def upper_hex_digit_def Let_def of_char_of)

lemma char_hex: "char_of (16 * (of_char c div 16) + of_char c mod 16 :: nat) = (c :: char)"
  by (simp add: mult_div_mod_eq)

lemma of_char_less: "(of_char c :: nat) < 256"
  by (metis char_of_char mod_less_divisor of_char_of zero_less_numeral)

lemma unquote_quote_char:
  assumes "CHR ''%'' \<notin> set safe"
  shows "unquote_to_bytes (quote_char safe c @ rest) = c # unquote_to_bytes rest"
proof (cases "is_alnum c \<or> c \<in> set ''_.-~'' \<or> c \<in> set safe")
  case True
  then have "c \<noteq> CHR ''%''" using assms by (auto simp: is_alnum_def)
  then show ?thesis using True by (auto simp: quote_char_def split: list.splits bool.splits)
next
  case False
  have "(of_char c :: nat) div 16 < 16" using of_char_less by (intro less_mult_imp_div_less) simp
  then show ?thesis using False char_hex [of c] hex_value_upper [of "of_char c div 16"] hex_value_upper [of "of_char c mod 16"]
    by (simp add: quote_char_def)
qed

lemma unquote_quote: "CHR ''%'' \<notin> set safe \<Longrightarrow> unquote_to_bytes (quote safe s) = s"
  by (induction s) (simp_all add: quote_def unquote_quote_char)

lemma quote_inj: "CHR ''%'' \<notin> set safe \<Longrightarrow> quote safe s = quote safe t \<longleftrightarrow> s = t"
  by (metis unquote_quote)

lemma upper_hex_digit_alnum: "n < 16 \<Longrightarrow> is_alnum (upper_hex_digit n)"
  by (auto simp: is_alnum_def upper_hex_digit_def Let_def of_char_of)

lemma quote_chars:
  assumes "x \<in> set (quote safe s)"
  shows "is_alnum x \<or> x \<in> set ''_.-~%'' \<or> x \<in> set safe"
  using assms of_char_less upper_hex_digit_alnum
  by (auto simp: quote_def quote_char_def less_mult_imp_div_less split: if_splits)

lemma quote_query_plain: "set (quote query_safe s) \<inter> {CHR ''&'', CHR ''='', CHR ''+'', CHR 0x0A, CHR ''?''} = {}"
  by (auto dest!: quote_chars simp: query_safe_def is_alnum_def)

lemma quote_path_plain: "set (quote path_safe s) \<inter> {CHR 0x0A, CHR ''?''} = {}"
  by (auto dest!: quote_chars simp: path_safe_def is_alnum_def)

lemma safe_no_percent: "CHR ''%'' \<notin> set query_safe" "CHR ''%'' \<notin> set path_safe"
  by (auto simp: query_safe_def path_safe_def)

subsection \<open>Splitting and joining\<close>

lemma split_on_not_Nil: "split_on sep s \<noteq> []"
  by (induction s) (auto split: list.splits)

lemma split_on_append:
  "sep \<notin> set p \<Longrightarrow> split_on sep (p @ sep # s) = p # split_on sep s"
  by (induction p) auto

lemma split_on_plain: "sep \<notin> set p \<Longrightarrow> split_on sep p = [p]"
  by (induction p) auto

lemma split_on_join:
  "ps \<noteq> [] \<Longrightarrow> \<forall>p\<in>set ps. sep \<notin> set p \<Longrightarrow> split_on sep (join [sep] ps) = ps"
  by (induction "[sep]" ps rule: join.induct) (auto simp: split_on_append split_on_plain)

lemma join_inj:
  assumes "\<forall>p\<in>set ps. sep \<notin> set p" "\<forall>p\<in>set qs. sep \<notin> set p" "ps \<noteq> []" "qs \<noteq> []"
    and "join [sep] ps = join [sep] qs"
  shows "ps = qs"
  using assms split_on_join by metis

lemma partition_eq_pair: "CHR ''='' \<notin> set k \<Longrightarrow> partition_eq (k @ ''='' @ v) = (k, v)"
proof -
  assume k: "CHR ''='' \<notin> set k"
  then have "takeWhile (\<lambda>c. c \<noteq> CHR ''='') (k @ CHR ''='' # v) = k"
    "dropWhile (\<lambda>c. c \<noteq> CHR ''='') (k @ CHR ''='' # v) = CHR ''='' # v"
    by (subst takeWhile_append2, auto) (subst dropWhile_append2, auto)
  then show ?thesis by (simp add: partition_eq_def)
qed

subsection \<open>Facts about Base64\<close>

lemma of_char_bounds: "0 \<le> (of_char c :: int)" "(of_char c :: int) < 256"
proof -
  have "(of_char c :: int) = int (of_char c)" by (simp add: of_char_def)
  then show "0 \<le> (of_char c :: int)" "(of_char c :: int) < 256" using of_char_less [of c] by simp_all
qed

lemma b64_value_char:
  assumes "0 \<le> n" "n < 64"
  shows "b64_value (b64_char n) = Some n"
  using assms by (auto simp: b64_value_def b64_char_def Let_def of_char_of)

lemma b64_char_not_pad: "0 \<le> n \<Longrightarrow> n < 64 \<Longrightarrow> b64_char n \<noteq> CHR ''=''"
  using b64_value_char [of n] by (auto simp: b64_value_def)

lemma div_mod_shift:
  fixes a r k :: int
  assumes "0 \<le> r" "r < k"
  shows "(a * k + r) div k = a" "(a * k + r) mod k = r"
  using assms by simp_all

lemma b64_split3: "(n::int) div 262144 * 262144 + n div 4096 mod 64 * 4096 + n div 64 mod 64 * 64 + n mod 64 = n"
proof -
  have "n div 4096 = n div 64 div 64" "n div 262144 = n div 4096 div 64"
    by (simp_all add: zdiv_zmult2_eq [symmetric])
  then show ?thesis
    using div_mult_mod_eq [of n 64] div_mult_mod_eq [of "n div 64" 64] div_mult_mod_eq [of "n div 4096" 64] by linarith
qed

lemma b64_bytes3:
  fixes a b c :: int
  assumes "0 \<le> a" "a < 256" "0 \<le> b" "b < 256" "0 \<le> c" "c < 256"
  shows "0 \<le> (a * 65536 + b * 256 + c) div 262144" "(a * 65536 + b * 256 + c) div 262144 < 64"
    "(a * 65536 + b * 256 + c) div 65536 = a"
    "(a * 65536 + b * 256 + c) div 256 mod 256 = b" "(a * 65536 + b * 256 + c) mod 256 = c"
proof -
  show "0 \<le> (a * 65536 + b * 256 + c) div 262144" using assms by (intro pos_imp_zdiv_nonneg_iff [THEN iffD2]) simp_all
  show "(a * 65536 + b * 256 + c) div 262144 < 64" using assms by linarith
  show "(a * 65536 + b * 256 + c) div 65536 = a"
    using div_mod_shift(1) [of "b * 256 + c" 65536 a] assms by (simp add: add.assoc)
  have eq: "a * 65536 + b * 256 + c = (a * 256 + b) * 256 + c" by simp
  show "(a * 65536 + b * 256 + c) div 256 mod 256 = b" "(a * 65536 + b * 256 + c) mod 256 = c"
    unfolding eq by (simp_all only: assms div_mod_shift)
qed

lemma b64_bytes2:
  fixes a b :: int
  assumes "0 \<le> a" "a < 256" "0 \<le> b" "b < 256"
  shows "0 \<le> (a * 256 + b) div 1024" "(a * 256 + b) div 1024 < 64" "(a * 256 + b) mod 16 * 4 < 64"
    "((a * 256 + b) div 1024 * 4096 + (a * 256 + b) div 16 mod 64 * 64 + (a * 256 + b) mod 16 * 4) div 1024 = a"
    "((a * 256 + b) div 1024 * 4096 + (a * 256 + b) div 16 mod 64 * 64 + (a * 256 + b) mod 16 * 4) div 4 mod 256 = b"
proof -
  define n where "n = a * 256 + b"
  show "0 \<le> (a * 256 + b) div 1024" using assms by (intro pos_imp_zdiv_nonneg_iff [THEN iffD2]) simp_all
  show "(a * 256 + b) div 1024 < 64" using assms by linarith
  show "(a * 256 + b) mod 16 * 4 < 64" using pos_mod_bound [of 16 "a * 256 + b"] by linarith
  have "n div 1024 = n div 16 div 64" by (simp add: zdiv_zmult2_eq [symmetric])
  then have e: "n div 1024 * 4096 + n div 16 mod 64 * 64 + n mod 16 * 4 = 4 * n"
    using div_mult_mod_eq [of n 16] div_mult_mod_eq [of "n div 16" 64] by linarith
  have "4 * n = a * 1024 + 4 * b" "4 * b < 1024" using assms by (simp_all add: n_def)
  then have "4 * n div 1024 = a" using div_mod_shift(1) [of "4 * b" 1024 a] assms(3) by simp
  then show "((a * 256 + b) div 1024 * 4096 + (a * 256 + b) div 16 mod 64 * 64 + (a * 256 + b) mod 16 * 4) div 1024 = a"
    using e by (simp add: n_def)
  have "4 * n div 4 mod 256 = b" using assms div_mod_shift(2) [of b 256 a] by (simp add: n_def)
  then show "((a * 256 + b) div 1024 * 4096 + (a * 256 + b) div 16 mod 64 * 64 + (a * 256 + b) mod 16 * 4) div 4 mod 256 = b"
    using e by (simp add: n_def)
qed

lemma b64_bytes1:
  fixes a :: int
  assumes "0 \<le> a" "a < 256"
  shows "0 \<le> a div 4" "a div 4 < 64" "a mod 4 * 16 < 64" "(a div 4 * 64 + a mod 4 * 16) div 16 = a"
proof -
  show "0 \<le> a div 4" using assms by (intro pos_imp_zdiv_nonneg_iff [THEN iffD2]) simp_all
  show "a div 4 < 64" using assms by linarith
  show "a mod 4 * 16 < 64" using pos_mod_bound [of 4 a] by linarith
  have "a div 4 * 64 + a mod 4 * 16 = 16 * a" using div_mult_mod_eq [of a 4] by linarith
  then show "(a div 4 * 64 + a mod 4 * 16) div 16 = a" by simp
qed

lemma b64decode_encode: "b64decode (b64encode s) = Some s"
proof (induction s rule: b64encode.induct)
  case (1 a b c rest)
  define n where "n = (of_char a * 65536 + of_char b * 256 + of_char c :: int)"
  note n = b64_bytes3 [OF of_char_bounds of_char_bounds of_char_bounds, of a b c, folded n_def]
  have chars: "char_of (n div 65536) = a" "char_of (n div 256 mod 256) = b" "char_of (n mod 256) = c"
    by (simp_all only: n char_of_char)
  have enc: "b64encode (a # b # c # rest) = b64_char (n div 262144) # b64_char (n div 4096 mod 64)
      # b64_char (n div 64 mod 64) # b64_char (n mod 64) # b64encode rest"
    by (simp add: n_def Let_def)
  have v: "b64_value (b64_char (n div 262144)) = Some (n div 262144)"
    "b64_value (b64_char (n div 4096 mod 64)) = Some (n div 4096 mod 64)"
    "b64_value (b64_char (n div 64 mod 64)) = Some (n div 64 mod 64)"
    "b64_value (b64_char (n mod 64)) = Some (n mod 64)"
    using n(1,2) by (auto intro!: b64_value_char)
  have pad: "b64_char (n mod 64) \<noteq> CHR ''=''" by (rule b64_char_not_pad) simp_all
  show ?case
    unfolding enc b64decode.simps(1) using pad 1
    by (simp only: v b64_split3 chars Let_def if_False prod.case option.case option.map refl)
next
  case (2 a b)
  define n where "n = (of_char a * 256 + of_char b :: int)"
  note n = b64_bytes2 [OF of_char_bounds of_char_bounds, of a b, folded n_def]
  have enc: "b64encode [a, b] = [b64_char (n div 1024), b64_char (n div 16 mod 64), b64_char (n mod 16 * 4), CHR ''='']"
    by (simp add: n_def Let_def)
  have v: "b64_value (b64_char (n div 1024)) = Some (n div 1024)"
    "b64_value (b64_char (n div 16 mod 64)) = Some (n div 16 mod 64)"
    "b64_value (b64_char (n mod 16 * 4)) = Some (n mod 16 * 4)"
    using n(1-3) by (auto intro!: b64_value_char)
  have pad: "b64_char (n mod 16 * 4) \<noteq> CHR ''=''" using n(3) by (intro b64_char_not_pad) simp_all
  show ?case
    unfolding enc b64decode.simps(1) using pad
    by (simp only: v n(4,5) char_of_char if_True if_False not_True_eq_False simp_thms prod.case option.case refl)
next
  case (3 a)
  define n where "n = (of_char a :: int)"
  note n = b64_bytes1 [OF of_char_bounds, of a, folded n_def]
  have enc: "b64encode [a] = [b64_char (n div 4), b64_char (n mod 4 * 16), CHR ''='', CHR ''='']"
    by (simp add: n_def Let_def)
  have v: "b64_value (b64_char (n div 4)) = Some (n div 4)" "b64_value (b64_char (n mod 4 * 16)) = Some (n mod 4 * 16)"
    using n(1-3) by (auto intro!: b64_value_char)
  have "char_of n = a" by (simp add: n_def)
  then show ?case
    unfolding enc b64decode.simps(1)
    by (simp only: v n(4) if_True simp_thms not_True_eq_False if_False prod.case option.case refl)
qed simp

subsection \<open>Canonical queries\<close>

abbreviation query_part :: "string \<times> string \<Rightarrow> string" where
  "query_part p \<equiv> fst p @ ''='' @ snd p"

definition is_ascii :: "string \<Rightarrow> bool" where
  "is_ascii s \<longleftrightarrow> list_all (\<lambda>c. (of_char c :: nat) < 128) s"

lemma canonical_query_eq:
  "canonical_query utf8 q = join ''&'' (map query_part (sort (map encoded_pair (parse_qsl utf8 q))))"
  by (simp add: canonical_query_def case_prod_unfold)

lemma encoded_pair_inj: "encoded_pair p = encoded_pair p' \<longleftrightarrow> p = p'"
  by (auto simp: encoded_pair_def quote_inj [OF safe_no_percent(1)] prod_eq_iff)

lemma encoded_pair_plain:
  "fst (encoded_pair p) = quote query_safe (fst p)" "snd (encoded_pair p) = quote query_safe (snd p)"
  by (simp_all add: encoded_pair_def)

lemma split_canonical_query:
  fixes ps :: "(string \<times> string) list"
  assumes "es = map encoded_pair ps"
  shows "filter (\<lambda>p. p \<noteq> []) (split_on CHR ''&'' (join ''&'' (map query_part es))) = map query_part es"
proof (cases es)
  case (Cons e es')
  have "\<forall>p\<in>set (map query_part es). CHR ''&'' \<notin> set p"
    using quote_query_plain by (auto simp: assms encoded_pair_plain)
  then have "split_on CHR ''&'' (join ''&'' (map query_part es)) = map query_part es"
    by (intro split_on_join) (simp_all add: Cons)
  moreover have "filter (\<lambda>p. p \<noteq> []) (map query_part es) = map query_part es"
    by (simp add: filter_id_conv)
  ultimately show ?thesis by simp
qed simp

text \<open>A value that decoding leaves alone survives being encoded and decoded.\<close>

lemma unquote_plus_quote:
  assumes "utf8 v = v"
  shows "unquote_plus utf8 (quote query_safe v) = v"
proof -
  have "map (\<lambda>c. if c = CHR ''+'' then CHR '' '' else c) (quote query_safe v) = quote query_safe v"
    using quote_query_plain [of v] by (intro map_idI) auto
  moreover have "quote query_safe v = v" if "CHR ''%'' \<notin> set (quote query_safe v)"
  proof -
    have "quote_char query_safe c = [c]" if "c \<in> set v" for c
      using \<open>CHR ''%'' \<notin> set (quote query_safe v)\<close> that by (auto simp: quote_def quote_char_def split: if_splits)
    then show ?thesis unfolding quote_def by (induction v) auto
  qed
  ultimately show ?thesis
    using assms by (simp add: unquote_plus_def unquote_def unquote_quote [OF safe_no_percent(1)])
qed

lemma parse_canonical:
  assumes "\<forall>p\<in>set ps. utf8 (fst p) = fst p \<and> utf8 (snd p) = snd p"
  shows "map encoded_pair (parse_qsl utf8 (join ''&'' (map query_part (map encoded_pair ps)))) = map encoded_pair ps"
proof -
  have "(let (name, val) = partition_eq (query_part (encoded_pair p)) in (unquote_plus utf8 name, unquote_plus utf8 val)) = p"
    if "p \<in> set ps" for p
  proof -
    have "CHR ''='' \<notin> set (fst (encoded_pair p))" using quote_query_plain by (auto simp: encoded_pair_plain)
    then have "partition_eq (query_part (encoded_pair p)) = encoded_pair p"
      using partition_eq_pair [of "fst (encoded_pair p)" "snd (encoded_pair p)"] by simp
    then show ?thesis using assms that
      by (simp add: encoded_pair_def unquote_plus_quote)
  qed
  then show ?thesis
    unfolding parse_qsl_def split_canonical_query [OF refl] by (simp add: comp_def cong: map_cong)
qed

text \<open>What decoding a query yields, it leaves alone.\<close>

lemma parse_qsl_fixed:
  assumes "\<And>s. utf8 (utf8 s) = utf8 s" "\<And>s. is_ascii s \<Longrightarrow> utf8 s = s" "is_ascii q" "p \<in> set (parse_qsl utf8 q)"
  shows "utf8 (fst p) = fst p \<and> utf8 (snd p) = snd p"
proof -
  have split: "is_ascii x" if "x \<in> set (split_on c s)" "is_ascii s" for x c s
    using that by (induction s arbitrary: x) (auto simp: is_ascii_def split: if_splits list.splits)
  obtain x where x: "x \<in> set (split_on CHR ''&'' q)" and p: "p = (let (name, val) = partition_eq x in (unquote_plus utf8 name, unquote_plus utf8 val))"
    using assms(4) by (auto simp: parse_qsl_def)
  have "is_ascii x" using split [OF x assms(3)] .
  then have "is_ascii (fst (partition_eq x))" "is_ascii (snd (partition_eq x))"
    by (auto simp: is_ascii_def list_all_iff partition_eq_def dest: set_takeWhileD set_dropWhileD in_set_dropD)
  moreover have "utf8 (unquote_plus utf8 s) = unquote_plus utf8 s" if "is_ascii s" for s
  proof -
    have "is_ascii (map (\<lambda>c. if c = CHR ''+'' then CHR '' '' else c) s)"
      using that by (auto simp: is_ascii_def list_all_iff)
    then show ?thesis using assms(1,2) by (simp add: unquote_plus_def unquote_def)
  qed
  ultimately show ?thesis by (simp add: p case_prod_beta Let_def)
qed

lemma sort_encoded: "sort (map encoded_pair xs) = map encoded_pair (sort_key encoded_pair xs)"
  by (rule properties_for_sort) simp_all

lemma canonical_query_stable:
  assumes "\<And>s. utf8 (utf8 s) = utf8 s" "\<And>s. is_ascii s \<Longrightarrow> utf8 s = s" "is_ascii q"
  shows "parse_qsl utf8 (canonical_query utf8 q) = sort_key encoded_pair (parse_qsl utf8 q)"
    "canonical_query utf8 (canonical_query utf8 q) = canonical_query utf8 q"
proof -
  let ?ps = "sort_key encoded_pair (parse_qsl utf8 q)"
  have fixed: "\<forall>p\<in>set ?ps. utf8 (fst p) = fst p \<and> utf8 (snd p) = snd p"
    using parse_qsl_fixed [OF assms] by simp
  have q: "canonical_query utf8 q = join ''&'' (map query_part (map encoded_pair ?ps))"
    by (simp add: canonical_query_eq sort_encoded)
  have "map encoded_pair (parse_qsl utf8 (canonical_query utf8 q)) = map encoded_pair ?ps"
    unfolding q by (rule parse_canonical [OF fixed])
  moreover have "inj encoded_pair" by (simp add: inj_def encoded_pair_inj)
  ultimately show parsed: "parse_qsl utf8 (canonical_query utf8 q) = ?ps" by (simp add: inj_map_eq_map)
  have st: "sort (map encoded_pair ?ps) = map encoded_pair ?ps"
    by (rule properties_for_sort) simp_all
  have "join ''&'' (map query_part (sort (map encoded_pair (parse_qsl utf8 (canonical_query utf8 q)))))
      = canonical_query utf8 q" by (simp only: parsed st q [symmetric])
  then show "canonical_query utf8 (canonical_query utf8 q) = canonical_query utf8 q"
    by (simp only: canonical_query_eq [of utf8 "canonical_query utf8 q"])
qed

subsection \<open>Canonical requests\<close>

lemma canonical_query_plain: "set (canonical_query utf8 q) \<inter> {CHR 0x0A, CHR ''?''} = {}"
proof -
  have "set (join ''&'' ps) \<inter> X = {}" if "\<forall>p\<in>set ps. set p \<inter> X = {}" "CHR ''&'' \<notin> X" for ps X
    using that by (induction "''&''" ps rule: join.induct) auto
  moreover have "\<forall>p\<in>set (map query_part (map encoded_pair ps)). set p \<inter> {CHR 0x0A, CHR ''?''} = {}" for ps
    using quote_query_plain by (auto simp: encoded_pair_plain)
  ultimately show ?thesis unfolding canonical_query_eq sort_encoded by simp
qed

lemma canonical_path_plain: "CHR 0x0A \<notin> set (canonical_path utf8 path q)"
  using quote_path_plain [of path] canonical_query_plain [of utf8 q] by (auto simp: canonical_path_def Let_def)

lemma canonical_path_inj:
  assumes "canonical_path utf8 path q = canonical_path utf8 path' q'"
  shows "path = path' \<and> canonical_query utf8 q = canonical_query utf8 q'"
proof -
  have take: "takeWhile (\<lambda>c. c \<noteq> CHR ''?'') (canonical_path utf8 p r) = quote path_safe p"
    "drop 1 (dropWhile (\<lambda>c. c \<noteq> CHR ''?'') (canonical_path utf8 p r)) = canonical_query utf8 r" for p r
  proof -
    have n: "x \<in> set (quote path_safe p) \<Longrightarrow> x \<noteq> CHR ''?''" for x using quote_path_plain [of p] by auto
    show "takeWhile (\<lambda>c. c \<noteq> CHR ''?'') (canonical_path utf8 p r) = quote path_safe p"
      using n by (simp add: canonical_path_def Let_def takeWhile_append2)
    show "drop 1 (dropWhile (\<lambda>c. c \<noteq> CHR ''?'') (canonical_path utf8 p r)) = canonical_query utf8 r"
      using n by (simp add: canonical_path_def Let_def dropWhile_append2)
  qed
  have "quote path_safe path = quote path_safe path'" using take(1) assms by metis
  moreover have "canonical_query utf8 q = canonical_query utf8 q'" using take(2) assms by metis
  ultimately show ?thesis by (simp add: quote_inj [OF safe_no_percent(2)])
qed

lemma char_upper_newline: "CHR 0x0A = char_upper c \<longleftrightarrow> c = CHR 0x0A"
proof
  assume e: "CHR 0x0A = char_upper c"
  show "c = CHR 0x0A"
  proof (cases "97 \<le> (of_char c :: nat) \<and> (of_char c :: nat) \<le> 122")
    case True
    then have "(of_char (char_upper c) :: nat) = of_char c - 32"
      using of_char_less [of c] by (simp add: char_upper_def Let_def of_char_of less_imp_diff_less)
    then have "(of_char c :: nat) - 32 = 10" using e [symmetric] by simp
    with True have False by linarith
    then show ?thesis ..
  qed (use e in \<open>auto simp: char_upper_def Let_def\<close>)
qed (simp add: char_upper_def)

lemma canonical_request_determines:
  assumes "canonical_request utf8 meth path q timestamp nonce h = Inr c"
    and "canonical_request utf8 meth' path' q' timestamp' nonce' h' = Inr c"
    and "CHR 0x0A \<notin> set (meth @ timestamp @ nonce @ h)" "CHR 0x0A \<notin> set (meth' @ timestamp' @ nonce' @ h')"
  shows "str_upper meth = str_upper meth' \<and> path = path' \<and> canonical_query utf8 q = canonical_query utf8 q'
    \<and> timestamp = timestamp' \<and> nonce = nonce' \<and> h = h'"
proof -
  have up: "CHR 0x0A \<notin> set (str_upper m)" if "CHR 0x0A \<notin> set m" for m
  proof
    assume "CHR 0x0A \<in> set (str_upper m)"
    then obtain c where "c \<in> set m" "CHR 0x0A = char_upper c" unfolding str_upper_def set_map by (rule imageE)
    then show False using that by (simp only: char_upper_newline)
  qed
  have pre: "CHR 0x0A \<notin> set signing_prefix" by (simp add: signing_prefix_def)
  let ?parts = "[signing_prefix, str_upper meth, canonical_path utf8 path q, timestamp, nonce, h]"
  let ?parts' = "[signing_prefix, str_upper meth', canonical_path utf8 path' q', timestamp', nonce', h']"
  have "join [CHR 0x0A] ?parts = join [CHR 0x0A] ?parts'"
    using assms(1,2) unfolding canonical_request_def by (simp del: join.simps split: if_splits)
  moreover have "\<forall>p\<in>set ?parts. CHR 0x0A \<notin> set p" "\<forall>p\<in>set ?parts'. CHR 0x0A \<notin> set p"
    using assms(3,4) up pre canonical_path_plain by auto
  ultimately have "?parts = ?parts'" by (intro join_inj) auto
  then have eqs: "str_upper meth = str_upper meth'" "canonical_path utf8 path q = canonical_path utf8 path' q'"
    "timestamp = timestamp'" "nonce = nonce'" "h = h'" by simp_all
  show ?thesis using eqs(1,3-5) canonical_path_inj [OF eqs(2)] by (intro conjI) simp_all
qed

end
