(* ===== verification/Device_Auth.thy ===== *)
theory Device_Auth
  imports Device_Store Device_Protocol
begin

text \<open>
  \<open>backend/app/security/device_auth.py\<close> and \<open>crypto.py\<close>: the authentication of a signed
  device request, with the clock read once per request, and \<open>cleanup_nonces\<close> of
  \<open>worker/app/jobs.py\<close>. A request that is refused is rolled back.
\<close>

subsection \<open>Secrets\<close>

definition decrypt_secret :: "crypto \<Rightarrow> string \<Rightarrow> string \<Rightarrow> string \<Rightarrow> string result" where
  "decrypt_secret cy master_key v ctx =
     (if length v < 32 \<or> take 4 v \<noteq> ''PME1'' then Inl (ValueError ''unsupported encrypted-secret format'')
      else case cy_aesgcm_decrypt cy master_key (take 12 (drop 4 v)) (drop 16 v) ctx of
             None \<Rightarrow> Inl InvalidTag | Some secret \<Rightarrow> Inr secret)"

definition secret_fingerprint :: "crypto \<Rightarrow> string \<Rightarrow> string" where
  "secret_fingerprint cy secret = cy_sha256 cy secret"

subsection \<open>Requests\<close>

record device_request =
  rq_method :: string
  rq_path :: string
  rq_query :: string
  rq_headers :: "string \<Rightarrow> string option"
  rq_body :: string

record authenticated_request =
  au_device :: device
  au_credential :: credential
  au_secret :: string

text \<open>\<open>except ValueError as exc: raise AuthenticationError(str(exc))\<close>.\<close>

fun as_authentication_error :: "'a result \<Rightarrow> 'a result" where
  "as_authentication_error (Inl (ValueError m)) = Inl (AuthenticationError m)"
| "as_authentication_error r = r"

definition usable_credentials :: "backend \<Rightarrow> string \<Rightarrow> instant \<Rightarrow> credential list" where
  "usable_credentials s device_id now =
     filter (\<lambda>c. cr_state c = ''active'' \<or>
         (case cr_overlap_expires_at c of None \<Rightarrow> False | Some t \<Rightarrow> now < t))
       (sort_key (\<lambda>c. - cr_key_version c)
         (filter (\<lambda>c. cr_device_id c = device_id \<and> cr_revoked_at c = None
            \<and> (case st_devices (bk_store s) (cr_device_id c) of None \<Rightarrow> False | Some d \<Rightarrow> dv_revoked_at d = None)
            \<and> cr_state c \<in> {''active'', ''prepared'', ''retiring''}) (bk_credentials s)))"

text \<open>Each candidate is verified once; a secret that cannot be decrypted is replaced and never matches.\<close>

definition candidate_secret :: "crypto \<Rightarrow> string \<Rightarrow> string \<Rightarrow> credential \<Rightarrow> bool \<times> string" where
  "candidate_secret cy master_key device_id c =
     (case decrypt_secret cy master_key (cr_encrypted_secret c) device_id of
        Inr secret \<Rightarrow> (True, secret)
      | Inl _ \<Rightarrow> (False, replicate 32 CHR 0x00))"

definition matching_credentials ::
  "crypto \<Rightarrow> string \<Rightarrow> protocol_headers \<Rightarrow> string \<Rightarrow> credential list \<Rightarrow> (credential \<times> string) list result" where
  "matching_credentials cy master_key headers canonical credentials =
     collectE (\<lambda>c. let (candidate_is_valid, secret) = candidate_secret cy master_key (ph_device_id headers) c in
       bindE (derive_directional_key cy secret (ph_device_id headers) ''device-to-server'') (\<lambda>key.
       Inr (if verify_signature cy key canonical (ph_signature headers) \<and> candidate_is_valid
            then Some (c, secret) else None))) credentials"

text \<open>\<open>hmac.compare_digest\<close> of two strings raises a \<open>TypeError\<close> unless both are ASCII.\<close>

definition compare_digest :: "string \<Rightarrow> string \<Rightarrow> bool result" where
  "compare_digest a b = (if is_ascii a \<and> is_ascii b then Inr (a = b) else Inl TypeError)"

definition authenticate_device_request ::
  "crypto \<Rightarrow> (string \<Rightarrow> string) \<Rightarrow> string \<Rightarrow> device_request \<Rightarrow> instant \<Rightarrow> backend
     \<Rightarrow> (authenticated_request \<times> backend) result" where
  "authenticate_device_request cy utf8 master_key q now s =
     bindE (as_authentication_error (bindE (headers_from_mapping (rq_headers q)) (\<lambda>h.
        bindE (validate_timestamp (ph_timestamp h) (now div second_us) 300) (\<lambda>_. Inr h)))) (\<lambda>headers.
     bindE (compare_digest (body_sha256 cy (rq_body q)) (ph_content_sha256 headers)) (\<lambda>same.
     if \<not> same then Inl (AuthenticationError ''content digest mismatch'')
     else let credentials = usable_credentials s (ph_device_id headers) now in
     if credentials = [] \<or> 2 < length credentials
     then Inl (AuthenticationError ''device credential is invalid'')
     else
     bindE (canonical_request utf8 (rq_method q) (rq_path q) (rq_query q) (ph_timestamp headers)
        (ph_nonce headers) (ph_content_sha256 headers)) (\<lambda>canonical.
     bindE (matching_credentials cy master_key headers canonical credentials) (\<lambda>matches.
     bindE (exactly_one (AuthenticationError ''device signature is invalid'') matches) (\<lambda>(credential, secret).
     let nonce = \<lparr>nc_device_id = ph_device_id headers, nc_nonce_hash = cy_sha256 cy (ph_nonce headers),
                  nc_seen_at = now\<rparr> in
     if \<not> nonce_unique s nonce then Inl (ReplayDetected ''device nonce has already been accepted'')
     else case st_devices (bk_store s) (ph_device_id headers) of
            None \<Rightarrow> Inl (AuthenticationError ''device is invalid'')
          | Some d \<Rightarrow> Inr (\<lparr>au_device = d, au_credential = credential, au_secret = secret\<rparr>,
                           s \<lparr>bk_nonces := bk_nonces s @ [nonce]\<rparr>))))))"

definition cleanup_nonces :: "instant \<Rightarrow> backend \<Rightarrow> nat \<times> backend" where
  "cleanup_nonces now s =
     (let cutoff = now - 10 * minute_us
      in (length (filter (\<lambda>n. nc_seen_at n < cutoff) (bk_nonces s)),
          s \<lparr>bk_nonces := filter (\<lambda>n. \<not> nc_seen_at n < cutoff) (bk_nonces s)\<rparr>))"

end
