(* ===== verification/Device_Auth_Properties.thy ===== *)
theory Device_Auth_Properties
  imports Device_Auth Store_Demo
begin

text \<open>
  The properties of device authentication: what an accepted request proves, that a correctly signed
  request is accepted, that the signed text determines the request, and replay protection
  together with the cleanup of nonces.
\<close>

subsection \<open>Facts\<close>

lemma as_authentication_error_Inr [bindE_simps]: "as_authentication_error r = Inr x \<longleftrightarrow> r = Inr x"
  by (cases r rule: as_authentication_error.cases) auto

lemma validate_timestamp_Inr [bindE_simps]:
  "validate_timestamp ts now w = Inr v \<longleftrightarrow> py_int_of_string ts = Some v \<and> \<bar>now - v\<bar> \<le> w"
  by (auto simp: validate_timestamp_def split: option.splits)

lemma compare_digest_Inr [bindE_simps]:
  "compare_digest a b = Inr r \<longleftrightarrow> is_ascii a \<and> is_ascii b \<and> r = (a = b)"
  by (auto simp: compare_digest_def)

lemma derive_device_key:
  "derive_directional_key cy secret k ''device-to-server'' =
     Inr (cy_hkdf cy secret (protocol_id @ [CHR 0x00] @ k) (''PowerMeter V2'' @ [CHR 0x00] @ ''device-to-server''))"
  by (simp add: derive_directional_key_def)

definition request_key :: "crypto \<Rightarrow> string \<Rightarrow> string \<Rightarrow> string" where
  "request_key cy secret k =
     cy_hkdf cy secret (protocol_id @ [CHR 0x00] @ k) (''PowerMeter V2'' @ [CHR 0x00] @ ''device-to-server'')"

lemma verify_signature_iff:
  "verify_signature cy key c sig \<longleftrightarrow> b64decode sig = Some (cy_hmac_sha256 cy key c)"
  by (auto simp: verify_signature_def split: option.splits)

lemma candidate_secret_valid:
  "candidate_secret cy mk k c = (True, secret) \<longleftrightarrow> decrypt_secret cy mk (cr_encrypted_secret c) k = Inr secret"
  by (auto simp: candidate_secret_def split: sum.splits)

lemma matching_credentials_sound:
  assumes "matching_credentials cy mk h canonical cs = Inr ms" "(c, secret) \<in> set ms"
  shows "c \<in> set cs" "decrypt_secret cy mk (cr_encrypted_secret c) (ph_device_id h) = Inr secret"
    "b64decode (ph_signature h) = Some (cy_hmac_sha256 cy (request_key cy secret (ph_device_id h)) canonical)"
proof -
  obtain c' where c': "c' \<in> set cs" and m: "(let (ok, secret) = candidate_secret cy mk (ph_device_id h) c' in
       bindE (derive_directional_key cy secret (ph_device_id h) ''device-to-server'') (\<lambda>key.
       Inr (if verify_signature cy key canonical (ph_signature h) \<and> ok then Some (c', secret) else None)))
     = Inr (Some (c, secret))"
    using collectE_Inr_setD [OF assms(1) [unfolded matching_credentials_def] assms(2)] by blast
  obtain ok sec where cs: "candidate_secret cy mk (ph_device_id h) c' = (ok, sec)" by fastforce
  then have "ok" "c' = c" "sec = secret" "verify_signature cy (request_key cy secret (ph_device_id h)) canonical (ph_signature h)"
    using m by (auto simp: derive_device_key request_key_def split: if_splits)
  then show "c \<in> set cs" "decrypt_secret cy mk (cr_encrypted_secret c) (ph_device_id h) = Inr secret"
    "b64decode (ph_signature h) = Some (cy_hmac_sha256 cy (request_key cy secret (ph_device_id h)) canonical)"
    using c' cs candidate_secret_valid verify_signature_iff by auto
qed

lemma authenticate_Inr:
  assumes "authenticate_device_request cy utf8 mk q now s = Inr (a, t)"
  obtains h v canonical where
    "headers_from_mapping (rq_headers q) = Inr h"
    "py_int_of_string (ph_timestamp h) = Some v" "\<bar>now div second_us - v\<bar> \<le> 300"
    "cy_sha256 cy (rq_body q) = ph_content_sha256 h"
    "canonical_request utf8 (rq_method q) (rq_path q) (rq_query q) (ph_timestamp h) (ph_nonce h)
       (ph_content_sha256 h) = Inr canonical"
    "au_credential a \<in> set (usable_credentials s (ph_device_id h) now)"
    "length (usable_credentials s (ph_device_id h) now) \<le> 2"
    "decrypt_secret cy mk (cr_encrypted_secret (au_credential a)) (ph_device_id h) = Inr (au_secret a)"
    "b64decode (ph_signature h) = Some (cy_hmac_sha256 cy (request_key cy (au_secret a) (ph_device_id h)) canonical)"
    "st_devices (bk_store s) (ph_device_id h) = Some (au_device a)"
    "nonce_unique s \<lparr>nc_device_id = ph_device_id h, nc_nonce_hash = cy_sha256 cy (ph_nonce h), nc_seen_at = now\<rparr>"
    "t = s \<lparr>bk_nonces := bk_nonces s @ [\<lparr>nc_device_id = ph_device_id h,
       nc_nonce_hash = cy_sha256 cy (ph_nonce h), nc_seen_at = now\<rparr>]\<rparr>"
proof -
  obtain h v canonical ms where 1: "headers_from_mapping (rq_headers q) = Inr h"
    "py_int_of_string (ph_timestamp h) = Some v" "\<bar>now div second_us - v\<bar> \<le> 300"
    "cy_sha256 cy (rq_body q) = ph_content_sha256 h"
    "canonical_request utf8 (rq_method q) (rq_path q) (rq_query q) (ph_timestamp h) (ph_nonce h)
       (ph_content_sha256 h) = Inr canonical"
    "length (usable_credentials s (ph_device_id h) now) \<le> 2"
    and m: "matching_credentials cy mk h canonical (usable_credentials s (ph_device_id h) now) = Inr ms"
      "ms = [(au_credential a, au_secret a)]"
    and 2: "st_devices (bk_store s) (ph_device_id h) = Some (au_device a)"
    "nonce_unique s \<lparr>nc_device_id = ph_device_id h, nc_nonce_hash = cy_sha256 cy (ph_nonce h), nc_seen_at = now\<rparr>"
    "t = s \<lparr>bk_nonces := bk_nonces s @ [\<lparr>nc_device_id = ph_device_id h,
       nc_nonce_hash = cy_sha256 cy (ph_nonce h), nc_seen_at = now\<rparr>]\<rparr>"
    using assms unfolding authenticate_device_request_def Let_def body_sha256_def
    by (auto simp: bindE_simps not_less split: if_splits option.splits)
  have "(au_credential a, au_secret a) \<in> set ms" using m(2) by simp
  note ms = matching_credentials_sound [OF m(1) this]
  show thesis by (rule that [OF 1(1-5) ms(1) 1(6) ms(2,3) 2])
qed

lemma usable_credentials_set:
  assumes "c \<in> set (usable_credentials s k now)"
  shows "c \<in> set (bk_credentials s)" "cr_device_id c = k" "cr_revoked_at c = None"
    "cr_state c \<in> {''active'', ''prepared'', ''retiring''}"
    "cr_state c = ''active'' \<or> (\<exists>t. cr_overlap_expires_at c = Some t \<and> now < t)"
    "\<exists>d. st_devices (bk_store s) k = Some d \<and> dv_revoked_at d = None"
  using assms by (auto simp: usable_credentials_def split: option.splits)

subsection \<open>What acceptance proves\<close>


subsection \<open>Acceptance of signed requests\<close>

text \<open>C11. A correctly signed request is accepted: with well-formed headers, a timestamp in the window, the digest of
  its body, a signature made by sign_request with the device's one usable credential, and a fresh nonce, the
  request is authenticated as that device and its nonce is recorded.\<close>
theorem signed_request_accepted:
  assumes "headers_from_mapping (rq_headers q) = Inr h"
    and "validate_timestamp (ph_timestamp h) (now div second_us) 300 = Inr v"
    and "cy_sha256 cy (rq_body q) = ph_content_sha256 h" "is_ascii (ph_content_sha256 h)"
    and "usable_credentials s (ph_device_id h) now = [c]"
    and "canonical_request utf8 (rq_method q) (rq_path q) (rq_query q) (ph_timestamp h) (ph_nonce h)
       (ph_content_sha256 h) = Inr canonical"
    and "decrypt_secret cy mk (cr_encrypted_secret c) (ph_device_id h) = Inr secret"
    and "derive_directional_key cy secret (ph_device_id h) ''device-to-server'' = Inr key"
    and "ph_signature h = sign_request cy key canonical"
    and "nonce_unique s \<lparr>nc_device_id = ph_device_id h, nc_nonce_hash = cy_sha256 cy (ph_nonce h), nc_seen_at = now\<rparr>"
  shows "\<exists>d. st_devices (bk_store s) (ph_device_id h) = Some d
    \<and> authenticate_device_request cy utf8 mk q now s = Inr (\<lparr>au_device = d, au_credential = c, au_secret = secret\<rparr>,
        s \<lparr>bk_nonces := bk_nonces s @ [\<lparr>nc_device_id = ph_device_id h,
          nc_nonce_hash = cy_sha256 cy (ph_nonce h), nc_seen_at = now\<rparr>]\<rparr>)"
proof -
  have "c \<in> set (usable_credentials s (ph_device_id h) now)" using assms(5) by simp
  from usable_credentials_set(6) [OF this] obtain d where d: "st_devices (bk_store s) (ph_device_id h) = Some d" by blast
  have "verify_signature cy key canonical (ph_signature h)"
    by (simp add: verify_signature_iff assms(9) sign_request_def b64decode_encode)
  moreover have "candidate_secret cy mk (ph_device_id h) c = (True, secret)" using assms(7) candidate_secret_valid by blast
  ultimately have "matching_credentials cy mk h canonical [c] = Inr [(c, secret)]"
    using assms(8) by (simp add: matching_credentials_def)
  then show ?thesis using assms d
    by (simp add: authenticate_device_request_def body_sha256_def compare_digest_def exactly_one_def Let_def)
qed

subsection \<open>Replays\<close>

datatype auth_event = Request device_request instant | Cleanup instant

fun event_time :: "auth_event \<Rightarrow> instant" where
  "event_time (Request q t) = t"
| "event_time (Cleanup t) = t"

fun auth_step :: "crypto \<Rightarrow> (string \<Rightarrow> string) \<Rightarrow> string \<Rightarrow> auth_event \<Rightarrow> backend \<Rightarrow> backend" where
  "auth_step cy utf8 mk (Request q t) s =
     (case authenticate_device_request cy utf8 mk q t s of Inr (a, u) \<Rightarrow> u | Inl _ \<Rightarrow> s)"
| "auth_step cy utf8 mk (Cleanup t) s = snd (cleanup_nonces t s)"

lemma auth_step_keeps_nonce:
  assumes "n \<in> set (bk_nonces s)" "event_time e \<le> nc_seen_at n + 10 * minute_us"
  shows "n \<in> set (bk_nonces (auth_step cy utf8 mk e s))"
proof (cases e)
  case (Request q t)
  show ?thesis
  proof (cases "authenticate_device_request cy utf8 mk q t s")
    case (Inr x)
    then obtain a u where x: "authenticate_device_request cy utf8 mk q t s = Inr (a, u)" by (cases x) auto
    then show ?thesis by (rule authenticate_Inr) (use assms(1) x in \<open>auto simp: Request\<close>)
  qed (use assms(1) in \<open>auto simp: Request\<close>)
qed (use assms in \<open>auto simp: cleanup_nonces_def Let_def\<close>)

lemma auth_run_keeps_nonce:
  assumes "n \<in> set (bk_nonces s)" "\<forall>e\<in>set es. event_time e \<le> nc_seen_at n + 10 * minute_us"
  shows "n \<in> set (bk_nonces (fold (auth_step cy utf8 mk) es s))"
  using assms
proof (induction es arbitrary: s)
  case (Cons e es)
  have "n \<in> set (bk_nonces (auth_step cy utf8 mk e s))"
    by (rule auth_step_keeps_nonce [OF Cons.prems(1)]) (use Cons.prems(2) in simp)
  then show ?case using Cons.IH Cons.prems(2) by simp
qed simp

text \<open>C10. A replay is refused: an accepted request is not accepted again up to ten minutes later, whatever requests
  and nonce cleanups happen in between, nor from 601 seconds after the second in which it was accepted.\<close>
theorem replayed_request_refused:
  assumes "authenticate_device_request cy utf8 mk q t0 s = Inr (a, s1)"
    and "\<forall>e\<in>set es. event_time e \<le> t1"
    and "t1 \<le> t0 + 10 * minute_us \<or> t0 div second_us + 601 \<le> t1 div second_us"
  shows "\<exists>e. authenticate_device_request cy utf8 mk q t1 (fold (auth_step cy utf8 mk) es s1) = Inl e"
proof (rule ccontr)
  let ?u = "fold (auth_step cy utf8 mk) es s1"
  assume "\<not> ?thesis"
  then obtain b u where again: "authenticate_device_request cy utf8 mk q t1 ?u = Inr (b, u)"
    by (cases "authenticate_device_request cy utf8 mk q t1 ?u") auto
  obtain h v where h: "headers_from_mapping (rq_headers q) = Inr h" "py_int_of_string (ph_timestamp h) = Some v"
    "\<bar>t0 div second_us - v\<bar> \<le> 300"
    and s1: "\<lparr>nc_device_id = ph_device_id h, nc_nonce_hash = cy_sha256 cy (ph_nonce h), nc_seen_at = t0\<rparr> \<in> set (bk_nonces s1)"
    using assms(1) by (rule authenticate_Inr) auto
  obtain h' v' where h': "headers_from_mapping (rq_headers q) = Inr h'" "py_int_of_string (ph_timestamp h') = Some v'"
    "\<bar>t1 div second_us - v'\<bar> \<le> 300"
    "nonce_unique ?u \<lparr>nc_device_id = ph_device_id h', nc_nonce_hash = cy_sha256 cy (ph_nonce h'), nc_seen_at = t1\<rparr>"
    using again by (rule authenticate_Inr) auto
  have same: "h' = h" "v' = v" using h h'(1,2) by auto
  show False using assms(3)
  proof
    assume "t1 \<le> t0 + 10 * minute_us"
    then have "\<forall>e\<in>set es. event_time e \<le> t0 + 10 * minute_us" using assms(2) by force
    then have "\<lparr>nc_device_id = ph_device_id h, nc_nonce_hash = cy_sha256 cy (ph_nonce h), nc_seen_at = t0\<rparr> \<in> set (bk_nonces ?u)"
      by (intro auth_run_keeps_nonce [OF s1]) simp
    then show False using h'(4) same by (force simp: nonce_unique_def list_ex_iff)
  next
    assume "t0 div second_us + 601 \<le> t1 div second_us"
    then show False using h(3) h'(3) same by linarith
  qed
qed

subsection \<open>The signed text\<close>

text \<open>C34. The signed text determines the request: two requests with the same canonical text have the same method, path,
  query parameters, timestamp, nonce and body digest, so that a signature for one is worthless for any other.\<close>
theorem canonical_request_unambiguous:
  assumes "canonical_request utf8 meth path q timestamp nonce h = Inr c"
    and "canonical_request utf8 meth' path' q' timestamp' nonce' h' = Inr c"
    and "CHR 0x0A \<notin> set (meth @ timestamp @ nonce @ h)" "CHR 0x0A \<notin> set (meth' @ timestamp' @ nonce' @ h')"
    and "\<And>s. utf8 (utf8 s) = utf8 s" "\<And>s. is_ascii s \<Longrightarrow> utf8 s = s" "is_ascii q" "is_ascii q'"
  shows "str_upper meth = str_upper meth' \<and> path = path' \<and> mset (parse_qsl utf8 q) = mset (parse_qsl utf8 q')
    \<and> timestamp = timestamp' \<and> nonce = nonce' \<and> h = h'"
proof -
  note d = canonical_request_determines [OF assms(1-4)]
  have "parse_qsl utf8 (canonical_query utf8 q) = parse_qsl utf8 (canonical_query utf8 q')" using d by simp
  then have "sort_key encoded_pair (parse_qsl utf8 q) = sort_key encoded_pair (parse_qsl utf8 q')"
    using canonical_query_stable(1) [OF assms(5,6,7)] canonical_query_stable(1) [OF assms(5,6,8)] by simp
  then have "mset (parse_qsl utf8 q) = mset (parse_qsl utf8 q')" by (metis mset_sort)
  then show ?thesis using d by blast
qed

theorem canonical_request_unambiguous_witness:
  "\<exists>c. canonical_request id ''post'' ''/api/v1/x'' ''b=2&a=1'' ''300'' ''nonce'' (replicate 64 CHR ''a'') = Inr c
    \<and> canonical_request id ''POST'' ''/api/v1/x'' ''a=1&b=2'' ''300'' ''nonce'' (replicate 64 CHR ''a'') = Inr c
    \<and> mset (parse_qsl id ''b=2&a=1'') = mset (parse_qsl id ''a=1&b=2'')"
proof -
  have "canonical_request id ''post'' ''/api/v1/x'' ''b=2&a=1'' ''300'' ''nonce'' (replicate 64 CHR ''a'')
      = canonical_request id ''POST'' ''/api/v1/x'' ''a=1&b=2'' ''300'' ''nonce'' (replicate 64 CHR ''a'')"
    "\<exists>c. canonical_request id ''post'' ''/api/v1/x'' ''b=2&a=1'' ''300'' ''nonce'' (replicate 64 CHR ''a'') = Inr c"
    by (code_simp, simp add: canonical_request_def str_lower_def char_lower_def)
  then obtain c where c: "canonical_request id ''post'' ''/api/v1/x'' ''b=2&a=1'' ''300'' ''nonce'' (replicate 64 CHR ''a'') = Inr c"
    "canonical_request id ''POST'' ''/api/v1/x'' ''a=1&b=2'' ''300'' ''nonce'' (replicate 64 CHR ''a'') = Inr c" by auto
  have "is_ascii ''b=2&a=1''" "is_ascii ''a=1&b=2''" by code_simp+
  with canonical_request_unambiguous [OF c] have "mset (parse_qsl id ''b=2&a=1'') = mset (parse_qsl id ''a=1&b=2'')"
    by simp
  then show ?thesis using c by blast
qed

text \<open>C35. Canonicalizing a query is a round trip: the canonical text parses back to the same parameters, in the order
  of their encodings, and is its own canonical form.\<close>
theorem canonical_query_round_trip:
  assumes "\<And>s. utf8 (utf8 s) = utf8 s" "\<And>s. is_ascii s \<Longrightarrow> utf8 s = s" "is_ascii q"
  shows "parse_qsl utf8 (canonical_query utf8 q) = sort_key encoded_pair (parse_qsl utf8 q)
    \<and> canonical_query utf8 (canonical_query utf8 q) = canonical_query utf8 q"
  using canonical_query_stable [OF assms] by blast

theorem canonical_query_round_trip_witness:
  "canonical_query id ''b=%7e+x&&a'' = ''a=&b=~%20x''
    \<and> parse_qsl id (canonical_query id ''b=%7e+x&&a'') = [(''a'', []), (''b'', ''~ x'')]"
proof -
  have "is_ascii ''b=%7e+x&&a''" by code_simp
  from canonical_query_round_trip [OF _ _ this, of id]
  have "parse_qsl id (canonical_query id ''b=%7e+x&&a'') = sort_key encoded_pair (parse_qsl id ''b=%7e+x&&a'')" by simp
  moreover have "sort_key encoded_pair (parse_qsl id ''b=%7e+x&&a'') = [(''a'', []), (''b'', ''~ x'')]" by code_simp
  moreover have "canonical_query id ''b=%7e+x&&a'' = ''a=&b=~%20x''" by code_simp
  ultimately show ?thesis by simp
qed

subsection \<open>A demonstration request\<close>

definition demo_crypto :: crypto where
  "demo_crypto = \<lparr>cy_sha256 = (\<lambda>_. replicate 64 CHR ''a''), cy_hmac_sha256 = (\<lambda>key text. ''mac''),
     cy_hkdf = (\<lambda>secret salt info. ''key''), cy_aesgcm_decrypt = (\<lambda>mk nonce text ctx. Some ''secret'')\<rparr>"

definition demo_credential :: credential where
  "demo_credential = \<lparr>cr_id = 0, cr_device_id = ''d1'', cr_encrypted_secret = ''PME1'' @ replicate 28 CHR ''x'',
     cr_fingerprint = ''f'', cr_key_version = 1, cr_state = ''active'', cr_rotation_id = None,
     cr_overlap_expires_at = None, cr_prepared_at = None, cr_activated_at = Some 0,
     cr_prepare_command_id = None, cr_commit_command_id = None, cr_cancel_command_id = None, cr_revoked_at = None\<rparr>"

definition demo_backend :: backend where
  "demo_backend = \<lparr>bk_store = demo_store, bk_credentials = [demo_credential], bk_nonces = [], bk_commands = [],
     bk_attempts = [], bk_audit = [], bk_next_id = 1\<rparr>"

definition demo_headers :: protocol_headers where
  "demo_headers = \<lparr>ph_protocol = ''pm-protocol/1.0.0'', ph_device_id = ''d1'', ph_timestamp = ''300'',
     ph_nonce = replicate 16 CHR ''n'', ph_content_sha256 = replicate 64 CHR ''a'', ph_signature = ''bWFj''\<rparr>"

definition demo_request :: device_request where
  "demo_request = \<lparr>rq_method = ''POST'', rq_path = ''/api/v1/devices/heartbeat'', rq_query = [],
     rq_headers = map_of [(''X-PM-Protocol'', ph_protocol demo_headers), (''X-PM-Device-ID'', ph_device_id demo_headers),
       (''X-PM-Timestamp'', ph_timestamp demo_headers), (''X-PM-Nonce'', ph_nonce demo_headers),
       (''X-PM-Content-SHA256'', ph_content_sha256 demo_headers), (''X-PM-Signature'', ph_signature demo_headers)],
     rq_body = []\<rparr>"

definition demo_auth :: "instant \<Rightarrow> backend \<Rightarrow> (authenticated_request \<times> backend) result" where
  "demo_auth = authenticate_device_request demo_crypto id ''m'' demo_request"

lemma demo_auth_run:
  obtains a t where "authenticate_device_request demo_crypto id ''m'' demo_request 0 demo_backend = Inr (a, t)"
    "dv_id (au_device a) = ''d1''" "length (bk_nonces t) = 1"
proof -
  have "map_sum id (\<lambda>(a, t). (dv_id (au_device a), length (bk_nonces t))) (demo_auth 0 demo_backend) = Inr (''d1'', 1)"
    by code_simp
  then show thesis using that by (auto simp: bindE_simps demo_auth_def)
qed


theorem signed_request_accepted_witness:
  "\<exists>d. authenticate_device_request demo_crypto id ''m'' demo_request 0 demo_backend
    = Inr (\<lparr>au_device = d, au_credential = demo_credential, au_secret = ''secret''\<rparr>,
        demo_backend \<lparr>bk_nonces := bk_nonces demo_backend @ [\<lparr>nc_device_id = ph_device_id demo_headers,
          nc_nonce_hash = cy_sha256 demo_crypto (ph_nonce demo_headers), nc_seen_at = 0\<rparr>]\<rparr>)"
proof -
  have 1: "headers_from_mapping (rq_headers demo_request) = Inr demo_headers"
    "validate_timestamp (ph_timestamp demo_headers) (0 div second_us) 300 = Inr 300"
    "cy_sha256 demo_crypto (rq_body demo_request) = ph_content_sha256 demo_headers"
    "is_ascii (ph_content_sha256 demo_headers)"
    "decrypt_secret demo_crypto ''m'' (cr_encrypted_secret demo_credential) (ph_device_id demo_headers) = Inr ''secret''"
    "derive_directional_key demo_crypto ''secret'' (ph_device_id demo_headers) ''device-to-server'' = Inr ''key''"
    "ph_signature demo_headers = sign_request demo_crypto ''key'' ''anything''"
    by code_simp+
  have 2: "usable_credentials demo_backend (ph_device_id demo_headers) 0 = [demo_credential]"
    by (simp add: usable_credentials_def demo_backend_def demo_credential_def demo_headers_def demo_store_def demo_device_def)
  obtain canonical where 3: "canonical_request id (rq_method demo_request) (rq_path demo_request) (rq_query demo_request)
      (ph_timestamp demo_headers) (ph_nonce demo_headers) (ph_content_sha256 demo_headers) = Inr canonical"
    by (simp add: canonical_request_def demo_headers_def str_lower_def char_lower_def)
  have "ph_signature demo_headers = sign_request demo_crypto ''key'' canonical"
    using 1(7) by (simp add: sign_request_def demo_crypto_def)
  moreover have "nonce_unique demo_backend n" for n by (simp add: nonce_unique_def demo_backend_def)
  ultimately show ?thesis
    using signed_request_accepted [OF 1(1,2,3,4) 2 3 1(5,6)] by blast
qed

theorem replayed_request_refused_witness:
  "\<exists>a t e. authenticate_device_request demo_crypto id ''m'' demo_request 0 demo_backend = Inr (a, t)
     \<and> authenticate_device_request demo_crypto id ''m'' demo_request 1000000
         (fold (auth_step demo_crypto id ''m'') [Cleanup 500000] t) = Inl e"
proof (rule demo_auth_run)
  fix a t assume run: "authenticate_device_request demo_crypto id ''m'' demo_request 0 demo_backend = Inr (a, t)"
  from replayed_request_refused [OF run, of "[Cleanup 500000]" 1000000] show ?thesis using run by auto
qed

text \<open>A replay in the last second passes: a request dated 300 seconds ahead is accepted again 600.7 seconds later, when
  the cleanup has dropped its nonce and the clock, cut to whole seconds, is still inside the window.\<close>
theorem replay_in_last_second_accepted:
  "map_sum id (\<lambda>(a, t). dv_id (au_device a))
     (bindE (demo_auth 0 demo_backend) (\<lambda>(a, t).
      demo_auth 600700000 (snd (cleanup_nonces 600500000 t)))) = Inr ''d1''"
  by code_simp

text \<open>A digest header with a byte beyond ASCII is answered with an unhandled exception.\<close>
theorem non_ascii_digest_raises:
  "map_sum id (\<lambda>(a, t). dv_id (au_device a))
     (authenticate_device_request demo_crypto id ''m'' (demo_request \<lparr>rq_headers :=
        (rq_headers demo_request)(''X-PM-Content-SHA256'' \<mapsto> [CHR 0xE9])\<rparr>) 0 demo_backend) = Inl TypeError"
  by code_simp

end
