(* ===== verification/Billing_Usage.thy ===== *)
theory Billing_Usage
  imports Telemetry_Store "HOL-Library.List_Lexorder" "HOL-Library.Char_ord"
begin

text \<open>
  \<open>backend/app/services/billing_usage.py\<close>: the energy of a billing cycle, from intervals, recovered
  gaps, a verified seed and bounded estimates of short gaps. Only reads. Sums that the database
  computes are exact; sums in Python are decimals with 28 digits. A duration in seconds is exact,
  as its printed form is for any span the program meets. The parsing of an ISO timestamp is a
  parameter; \<open>None\<close> stands for its \<open>ValueError\<close>.
\<close>

subsection \<open>Short gaps\<close>

datatype gap_outcome = UnknownGap int string | EstimatedGap int decimal decimal decimal

record gap_estimate =
  ge_estimated_mwh :: decimal
  ge_lower_mwh :: decimal
  ge_upper_mwh :: decimal
  ge_estimated_seconds :: int
  ge_unknown_seconds :: int
  ge_unknown_count :: int
  ge_methods :: "string list"
  ge_details :: "(energy_event \<times> gap_outcome) list"

record gap_policy =
  gp_cycle_start :: instant
  gp_scope_end :: instant
  gp_reading_coverage :: decimal
  gp_minimum_coverage :: decimal
  gp_maximum_gap_seconds :: int
  gp_unresolved_counter_resets :: int

definition whole_seconds :: "instant \<Rightarrow> instant \<Rightarrow> int" where
  "whole_seconds a b = max 0 ((b - a) div second_us)"

definition gap_duration :: "energy_event \<Rightarrow> int" where
  "gap_duration e =
     (case (ee_gap_start_utc e, ee_gap_end_utc e) of
        (Some a, Some b) \<Rightarrow> if a < b then whole_seconds a b else 0 | _ \<Rightarrow> 0)"

definition blocked_reason :: "gap_policy \<Rightarrow> energy_event \<Rightarrow> string option" where
  "blocked_reason p e =
     (case (ee_gap_start_utc e, ee_gap_end_utc e) of
        (Some gap_start, Some gap_end) \<Rightarrow>
          if gap_duration e \<le> 0 then Some ''gap_bounds_unavailable''
          else if gap_start < gp_cycle_start p \<or> gp_scope_end p < gap_end
             \<or> json_get ''crosses_billing_cycle'' (JObj (ee_evidence e)) = JBool True
          then Some ''gap_crosses_billing_cycle_boundary''
          else if gp_unresolved_counter_resets p \<noteq> 0 then Some ''unresolved_counter_reset''
          else if gp_reading_coverage p < gp_minimum_coverage p
          then Some ''reading_coverage_below_minimum_threshold''
          else if gp_maximum_gap_seconds p < gap_duration e
          then Some ''gap_exceeds_maximum_estimatable_duration''
          else None
      | _ \<Rightarrow> Some ''gap_bounds_unavailable'')"

definition usable_neighbor :: "energy_event \<Rightarrow> normalized_interval \<Rightarrow> bool" where
  "usable_neighbor e i \<longleftrightarrow>
     ni_device_id i = ee_device_id e \<and> ni_source_authenticated i \<and> ni_energy_mwh i \<noteq> None"

definition interval_before :: "store \<Rightarrow> energy_event \<Rightarrow> instant \<Rightarrow> int \<Rightarrow> normalized_interval option" where
  "interval_before s e gap_start maximum_gap_seconds =
     (case sort_key (\<lambda>i. - ni_end_utc i)
        (filter (\<lambda>i. usable_neighbor e i \<and> ni_end_utc i \<le> gap_start
           \<and> gap_start - maximum_gap_seconds * second_us \<le> ni_end_utc i) (st_intervals s)) of
        [] \<Rightarrow> None | i # _ \<Rightarrow> Some i)"

definition interval_after :: "store \<Rightarrow> energy_event \<Rightarrow> instant \<Rightarrow> int \<Rightarrow> normalized_interval option" where
  "interval_after s e gap_end maximum_gap_seconds =
     (case sort_key ni_start_utc
        (filter (\<lambda>i. usable_neighbor e i \<and> gap_end \<le> ni_start_utc i
           \<and> ni_start_utc i \<le> gap_end + maximum_gap_seconds * second_us) (st_intervals s)) of
        [] \<Rightarrow> None | i # _ \<Rightarrow> Some i)"

text \<open>\<open>Decimal(str(span.total_seconds()))\<close>.\<close>

definition decimal_seconds :: "instant \<Rightarrow> instant \<Rightarrow> decimal" where
  "decimal_seconds a b = of_int (b - a) / 1000000"

definition interval_rate :: "normalized_interval \<Rightarrow> decimal" where
  "interval_rate i =
     dec_div (of_int (case ni_energy_mwh i of None \<Rightarrow> 0 | Some n \<Rightarrow> n)) (decimal_seconds (ni_start_utc i) (ni_end_utc i))"

definition unknown_gap :: "energy_event \<Rightarrow> string \<Rightarrow> gap_estimate \<Rightarrow> gap_estimate" where
  "unknown_gap e reason acc = acc \<lparr>
     ge_unknown_count := ge_unknown_count acc + 1,
     ge_unknown_seconds := ge_unknown_seconds acc + gap_duration e,
     ge_details := ge_details acc @ [(e, UnknownGap (gap_duration e) reason)]\<rparr>"

definition interpolated_gap ::
  "energy_event \<Rightarrow> normalized_interval \<Rightarrow> normalized_interval \<Rightarrow> gap_estimate \<Rightarrow> gap_estimate result" where
  "interpolated_gap e before after acc =
     (let before_rate = interval_rate before; after_rate = interval_rate after;
          gap_seconds = of_int (gap_duration e)
      in bindE (dec_quantize 6 (dec_mul (dec_div (dec_add before_rate after_rate) 2) gap_seconds)) (\<lambda>estimate.
         bindE (dec_quantize 6 (dec_mul (min before_rate after_rate) gap_seconds)) (\<lambda>lower.
         bindE (dec_quantize 6 (dec_mul (max before_rate after_rate) gap_seconds)) (\<lambda>upper.
         Inr (acc \<lparr>ge_estimated_mwh := dec_add (ge_estimated_mwh acc) estimate,
                   ge_lower_mwh := dec_add (ge_lower_mwh acc) lower,
                   ge_upper_mwh := dec_add (ge_upper_mwh acc) upper,
                   ge_estimated_seconds := ge_estimated_seconds acc + gap_duration e,
                   ge_methods := [''short_gap_neighbor_interpolation''],
                   ge_details := ge_details acc @ [(e, EstimatedGap (gap_duration e)
                      (dec_div estimate 1000000) (dec_div lower 1000000) (dec_div upper 1000000))]\<rparr>)))))"

definition estimate_gap :: "store \<Rightarrow> gap_policy \<Rightarrow> energy_event \<Rightarrow> gap_estimate \<Rightarrow> gap_estimate result" where
  "estimate_gap s p e acc =
     (case blocked_reason p e of
        Some reason \<Rightarrow> Inr (unknown_gap e reason acc)
      | None \<Rightarrow>
          (case (Option.bind (ee_gap_start_utc e) (\<lambda>t. interval_before s e t (gp_maximum_gap_seconds p)),
                 Option.bind (ee_gap_end_utc e) (\<lambda>t. interval_after s e t (gp_maximum_gap_seconds p))) of
             (Some before, Some after) \<Rightarrow>
               if decimal_seconds (ni_start_utc before) (ni_end_utc before) \<le> 0
                  \<or> decimal_seconds (ni_start_utc after) (ni_end_utc after) \<le> 0
               then Inr (unknown_gap e ''neighboring_interval_duration_invalid'' acc)
               else interpolated_gap e before after acc
           | _ \<Rightarrow> Inr (unknown_gap e ''neighboring_intervals_unavailable'' acc)))"

definition no_gaps :: gap_estimate where
  "no_gaps = \<lparr>ge_estimated_mwh = 0, ge_lower_mwh = 0, ge_upper_mwh = 0, ge_estimated_seconds = 0,
     ge_unknown_seconds = 0, ge_unknown_count = 0, ge_methods = [], ge_details = []\<rparr>"

definition estimate_short_gap_energy :: "store \<Rightarrow> gap_policy \<Rightarrow> energy_event list \<Rightarrow> gap_estimate result" where
  "estimate_short_gap_energy s p events = foldE (estimate_gap s p) events no_gaps"

subsection \<open>Usage of a cycle\<close>

record cycle_usage =
  cu_member_ids :: "string list"
  cu_measured_kwh :: decimal
  cu_recovered_kwh :: decimal
  cu_adjustment_kwh :: decimal
  cu_estimated_kwh :: decimal
  cu_estimate_lower_kwh :: decimal
  cu_estimate_upper_kwh :: decimal
  cu_reading_coverage :: decimal
  cu_unknown_gap_count :: int
  cu_unresolved_counter_reset_count :: int
  cu_has_energy_evidence :: bool

definition current_kwh :: "cycle_usage \<Rightarrow> decimal" where
  "current_kwh u = dec_add (dec_add (dec_add (cu_measured_kwh u) (cu_recovered_kwh u)) (cu_adjustment_kwh u))
     (cu_estimated_kwh u)"

definition lower_kwh :: "cycle_usage \<Rightarrow> decimal" where
  "lower_kwh u = dec_add (dec_sub (current_kwh u) (cu_estimated_kwh u)) (cu_estimate_lower_kwh u)"

definition upper_kwh :: "cycle_usage \<Rightarrow> decimal" where
  "upper_kwh u = dec_add (dec_sub (current_kwh u) (cu_estimated_kwh u)) (cu_estimate_upper_kwh u)"

definition resolved :: "cycle_usage \<Rightarrow> bool" where
  "resolved u \<longleftrightarrow> cu_member_ids u \<noteq> [] \<and> \<not> (cu_unknown_gap_count u \<noteq> 0 \<or> cu_unresolved_counter_reset_count u \<noteq> 0)"

text \<open>The devices whose verified sum is the account's tariff basis.\<close>

definition is_member :: "store \<Rightarrow> utility_account \<Rightarrow> string \<Rightarrow> bool" where
  "is_member s account k \<longleftrightarrow>
     (case st_devices s k of None \<Rightarrow> False
      | Some d \<Rightarrow> dv_home_id d = ua_home_id account \<and> dv_include_in_aggregate d
          \<and> list_ex (\<lambda>c. dv_circuit_id d = Some (ci_id c) \<and> ci_home_id c = ua_home_id account
               \<and> ci_is_home_total c \<and> ci_is_billing_source c \<and> ci_aggregate_mode c = ''verified_sum''
               \<and> ci_non_overlapping_confirmed c) (st_circuits s))"

definition member_ids_of :: "store \<Rightarrow> utility_account \<Rightarrow> string list" where
  "member_ids_of s account = sort (filter (is_member s account) (st_device_ids s))"

definition replace_Z :: "string \<Rightarrow> string" where
  "replace_Z s = concat (map (\<lambda>c. if c = CHR ''Z'' then ''+00:00'' else [c]) s)"

text \<open>The verified seed of a cycle: from when readings count, and the energy before it.\<close>

definition seeded_start ::
  "(string \<Rightarrow> pydatetime option) \<Rightarrow> store \<Rightarrow> utility_account \<Rightarrow> instant \<Rightarrow> instant \<Rightarrow> (instant \<times> decimal) result" where
  "seeded_start fromisoformat s account cycle_start scope_end =
     (case find (\<lambda>a. ca_utility_account_id a = ua_id account \<and> ca_cycle_start_utc a = cycle_start
               \<and> ca_reason a = ''verified_cycle_to_date_seed'') (st_adjustments s) of
        None \<Rightarrow> Inr (cycle_start, 0)
      | Some a \<Rightarrow>
          (case json_get ''through_utc'' (JObj (ca_evidence a)) of
             JStr through \<Rightarrow>
               (case fromisoformat (replace_Z through) of
                  None \<Rightarrow> Inl (ValueError ''Invalid isoformat string'')
                | Some (Aware t) \<Rightarrow>
                    if cycle_start \<le> t \<and> t \<le> scope_end
                    then Inr (t, dec_div (of_int (ca_energy_mwh a)) 1000000) else Inr (cycle_start, 0)
                | Some (Naive _) \<Rightarrow> Inr (cycle_start, 0))
           | _ \<Rightarrow> Inr (cycle_start, 0)))"

text \<open>The intervals a cycle counts: those of its members that a data reset has not discarded.\<close>

definition counted_interval :: "store \<Rightarrow> string list \<Rightarrow> instant \<Rightarrow> instant \<Rightarrow> normalized_interval \<Rightarrow> bool" where
  "counted_interval s members automatic_start scope_end i \<longleftrightarrow>
     ni_device_id i \<in> set members
     \<and> (case st_devices s (ni_device_id i) of None \<Rightarrow> False
        | Some d \<Rightarrow> ni_source_kind i = ''stateless_v2''
            \<or> list_ex (\<lambda>r. ni_raw_reading_id i = Some (rr_id r)
                 \<and> dr_reset_generation (rr_record r) = dv_reset_generation d) (st_readings s))
     \<and> ni_source_authenticated i \<and> automatic_start \<le> ni_start_utc i \<and> ni_end_utc i \<le> scope_end"

definition sum_energy :: "normalized_interval list \<Rightarrow> int option" where
  "sum_energy is =
     (case List.map_filter ni_energy_mwh is of [] \<Rightarrow> None | es \<Rightarrow> Some (sum_list es))"

definition sum_reliable_seconds :: "normalized_interval list \<Rightarrow> decimal" where
  "sum_reliable_seconds is =
     sum_list (map (\<lambda>i. if ni_energy_mwh i \<noteq> None
       then decimal_seconds (ni_start_utc i) (ni_end_utc i) * ni_completeness i else 0) is)"

definition cycle_event :: "string list \<Rightarrow> instant \<Rightarrow> instant \<Rightarrow> energy_event \<Rightarrow> bool" where
  "cycle_event members automatic_start scope_end e \<longleftrightarrow>
     ee_device_id e \<in> set members \<and> ee_billing_status e \<in> {''included'', ''unresolved''}
     \<and> (case ee_gap_end_utc e of None \<Rightarrow> False | Some t \<Rightarrow> automatic_start < t)
     \<and> (case ee_gap_start_utc e of None \<Rightarrow> False | Some t \<Rightarrow> t < scope_end)"

definition recovered_event :: "instant \<Rightarrow> energy_event \<Rightarrow> bool" where
  "recovered_event scope_end e \<longleftrightarrow> ee_billing_status e = ''included''
     \<and> (case ee_gap_end_utc e of None \<Rightarrow> False | Some t \<Rightarrow> t \<le> scope_end)"

definition event_seconds :: "energy_event \<Rightarrow> int" where
  "event_seconds e =
     (case (ee_gap_start_utc e, ee_gap_end_utc e) of
        (Some a, Some b) \<Rightarrow> max 0 (dec_int (decimal_seconds a b)) | _ \<Rightarrow> 0)"

definition open_resets :: "store \<Rightarrow> string list \<Rightarrow> instant \<Rightarrow> instant \<Rightarrow> int" where
  "open_resets s members automatic_start scope_end =
     int (length (filter (\<lambda>a. al_device_id a \<in> set members \<and> al_alert_type a = ''pzem_energy_counter_reset''
       \<and> al_state a = ''open'' \<and> automatic_start \<le> al_opened_at a \<and> al_opened_at a < scope_end) (st_alerts s)))"

definition account_cycle_usage ::
  "(string \<Rightarrow> pydatetime option) \<Rightarrow> store \<Rightarrow> utility_account \<Rightarrow> instant \<Rightarrow> instant \<Rightarrow> cycle_usage result" where
  "account_cycle_usage fromisoformat s account cycle_start scope_end =
     bindE (seeded_start fromisoformat s account cycle_start scope_end) (\<lambda>(automatic_start, adjustment_kwh).
     let members = member_ids_of s account;
         expected = dec_mul (decimal_seconds cycle_start scope_end) (of_nat (length members));
         seeded_seconds = dec_mul (decimal_seconds cycle_start automatic_start) (of_nat (length members));
         counted = filter (counted_interval s members automatic_start scope_end) (st_intervals s);
         energy_mwh = sum_energy counted;
         reliable = dec_add (sum_reliable_seconds counted) seeded_seconds;
         coverage = (if expected \<noteq> 0 then min 1 (dec_div reliable expected) else of_bool (members \<noteq> []));
         events = filter (cycle_event members automatic_start scope_end) (st_events s);
         recovered = filter (recovered_event scope_end) events;
         unresolved = filter (\<lambda>e. ee_billing_status e = ''unresolved'') events;
         recovered_seconds = sum_list (map event_seconds recovered);
         resets = open_resets s members automatic_start scope_end
     in bindE (estimate_short_gap_energy s \<lparr>gp_cycle_start = automatic_start, gp_scope_end = scope_end,
            gp_reading_coverage = coverage, gp_minimum_coverage = ua_estimate_min_coverage account,
            gp_maximum_gap_seconds = ua_max_estimatable_gap_seconds account,
            gp_unresolved_counter_resets = resets\<rparr> unresolved) (\<lambda>estimate.
        let missing_seconds = max 0 (dec_sub expected reliable);
            classified_seconds = recovered_seconds + ge_estimated_seconds estimate + ge_unknown_seconds estimate;
            unknown = ge_unknown_count estimate + py_bool_int (of_int classified_seconds < missing_seconds)
        in Inr \<lparr>cu_member_ids = members,
             cu_measured_kwh = dec_div (of_int (case energy_mwh of None \<Rightarrow> 0 | Some n \<Rightarrow> n)) 1000000,
             cu_recovered_kwh = dec_div (of_int (sum_list (map (\<lambda>e. case ee_recovered_energy_mwh e of
                None \<Rightarrow> 0 | Some n \<Rightarrow> n) recovered))) 1000000,
             cu_adjustment_kwh = adjustment_kwh,
             cu_estimated_kwh = dec_div (ge_estimated_mwh estimate) 1000000,
             cu_estimate_lower_kwh = dec_div (ge_lower_mwh estimate) 1000000,
             cu_estimate_upper_kwh = dec_div (ge_upper_mwh estimate) 1000000,
             cu_reading_coverage = coverage, cu_unknown_gap_count = unknown,
             cu_unresolved_counter_reset_count = resets,
             cu_has_energy_evidence = (members \<noteq> [] \<and> (energy_mwh \<noteq> None \<or> recovered \<noteq> []
                \<or> adjustment_kwh \<noteq> 0 \<or> cycle_start < automatic_start \<or> scope_end = cycle_start))\<rparr>))"

end
