(* ===== verification/Billing_Usage_Properties.thy ===== *)
theory Billing_Usage_Properties
  imports Billing_Usage Stateless_Lemmas Store_Demo
begin

text \<open>
  The properties of cycle usage: which gaps are estimated and how they are counted, what a resolved
  cycle means, and that the billed energy of a telemetry device is the energy its samples account for.
\<close>

subsection \<open>Facts\<close>

fun is_unknown :: "gap_outcome \<Rightarrow> bool" where
  "is_unknown (UnknownGap _ _) = True"
| "is_unknown (EstimatedGap _ _ _ _) = False"

text \<open>What the accumulated estimate says about the events seen so far.\<close>

definition gaps_inv :: "store \<Rightarrow> gap_policy \<Rightarrow> gap_estimate \<Rightarrow> bool" where
  "gaps_inv s p g \<longleftrightarrow>
     ge_unknown_count g = int (length (filter (\<lambda>(e, x). is_unknown x) (ge_details g)))
     \<and> ge_unknown_seconds g = sum_list (map (\<lambda>(e, x). if is_unknown x then gap_duration e else 0) (ge_details g))
     \<and> ge_estimated_seconds g = sum_list (map (\<lambda>(e, x). if is_unknown x then 0 else gap_duration e) (ge_details g))
     \<and> (\<forall>(e, x)\<in>set (ge_details g). \<not> is_unknown x \<longrightarrow> blocked_reason p e = None
          \<and> (\<exists>a b i j. ee_gap_start_utc e = Some a \<and> ee_gap_end_utc e = Some b
               \<and> interval_before s e a (gp_maximum_gap_seconds p) = Some i
               \<and> interval_after s e b (gp_maximum_gap_seconds p) = Some j))"

lemma estimate_gap_inv:
  assumes "gaps_inv s p g" "estimate_gap s p e g = Inr g'"
  shows "gaps_inv s p g'" "map fst (ge_details g') = map fst (ge_details g) @ [e]"
proof -
  consider (unknown) reason where "g' = unknown_gap e reason g"
    | (known) i j where "blocked_reason p e = None"
        "Option.bind (ee_gap_start_utc e) (\<lambda>t. interval_before s e t (gp_maximum_gap_seconds p)) = Some i"
        "Option.bind (ee_gap_end_utc e) (\<lambda>t. interval_after s e t (gp_maximum_gap_seconds p)) = Some j"
        "interpolated_gap e i j g = Inr g'"
    using assms(2) by (auto simp: estimate_gap_def split: option.splits if_splits)
  then have "gaps_inv s p g' \<and> map fst (ge_details g') = map fst (ge_details g) @ [e]"
  proof cases
    case unknown
    then show ?thesis using assms(1) by (auto simp: gaps_inv_def unknown_gap_def)
  next
    case known
    have ab: "\<exists>a b i j. ee_gap_start_utc e = Some a \<and> ee_gap_end_utc e = Some b
               \<and> interval_before s e a (gp_maximum_gap_seconds p) = Some i
               \<and> interval_after s e b (gp_maximum_gap_seconds p) = Some j"
      using known(2,3) by (auto simp: bind_eq_Some_conv)
    obtain est lo hi kwh where g': "ge_unknown_count g' = ge_unknown_count g" "ge_unknown_seconds g' = ge_unknown_seconds g"
      "ge_estimated_seconds g' = ge_estimated_seconds g + gap_duration e"
      "ge_details g' = ge_details g @ [(e, EstimatedGap (gap_duration e) kwh lo hi)]"
      using known(4) by (auto simp: interpolated_gap_def bindE_simps Let_def)
    show ?thesis using assms(1) ab known(1) by (auto simp: gaps_inv_def g')
  qed
  then show "gaps_inv s p g'" "map fst (ge_details g') = map fst (ge_details g) @ [e]" by auto
qed

lemma estimate_gaps_inv:
  assumes "foldE (estimate_gap s p) es g = Inr g'" "gaps_inv s p g"
  shows "gaps_inv s p g'" "map fst (ge_details g') = map fst (ge_details g) @ es"
  using assms
proof (induction es arbitrary: g)
  case (Cons e es)
  {
    case 1
    then show ?case using Cons.IH(1) estimate_gap_inv(1) by (auto simp: bindE_simps)
  next
    case 2
    then obtain u where u: "estimate_gap s p e g = Inr u" "foldE (estimate_gap s p) es u = Inr g'"
      by (auto simp: bindE_simps)
    show ?case using Cons.IH(2) [OF u(2) estimate_gap_inv(1) [OF 2(2) u(1)]] estimate_gap_inv(2) [OF 2(2) u(1)] by simp
  }
qed auto

lemma gaps_inv_no_gaps: "gaps_inv s p no_gaps"
  by (simp add: gaps_inv_def no_gaps_def)

lemma blocked_reason_None:
  assumes "blocked_reason p e = None"
  obtains a b where "ee_gap_start_utc e = Some a" "ee_gap_end_utc e = Some b" "0 < gap_duration e"
    "gap_duration e \<le> gp_maximum_gap_seconds p" "gp_cycle_start p \<le> a" "b \<le> gp_scope_end p"
    "gp_unresolved_counter_resets p = 0" "gp_minimum_coverage p \<le> gp_reading_coverage p"
  using assms by (auto simp: blocked_reason_def split: option.splits if_splits)

lemma sum_list_split: "sum_list (map (\<lambda>(e, x). if P x then 0 else f e) ds) + sum_list (map (\<lambda>(e, x). if P x then f e else 0) ds)
    = sum_list (map f (map fst ds))" for f :: "'a \<Rightarrow> int"
  by (induction ds) auto

lemma short_gaps_facts:
  assumes "estimate_short_gap_energy s p events = Inr g"
  shows "map fst (ge_details g) = events
    \<and> ge_estimated_seconds g + ge_unknown_seconds g = sum_list (map gap_duration events)
    \<and> ge_unknown_count g = int (length (filter (\<lambda>(e, x). is_unknown x) (ge_details g)))
    \<and> (\<forall>(e, x)\<in>set (ge_details g). \<not> is_unknown x \<longrightarrow> 0 < gap_duration e \<and> gap_duration e \<le> gp_maximum_gap_seconds p
         \<and> gp_unresolved_counter_resets p = 0 \<and> gp_minimum_coverage p \<le> gp_reading_coverage p
         \<and> (\<exists>a b i j. ee_gap_start_utc e = Some a \<and> ee_gap_end_utc e = Some b
              \<and> gp_cycle_start p \<le> a \<and> b \<le> gp_scope_end p
              \<and> interval_before s e a (gp_maximum_gap_seconds p) = Some i
              \<and> interval_after s e b (gp_maximum_gap_seconds p) = Some j))"
proof -
  note run = assms [unfolded estimate_short_gap_energy_def]
  have inv: "gaps_inv s p g" and all: "map fst (ge_details g) = events"
    using estimate_gaps_inv [OF run gaps_inv_no_gaps] by (auto simp: no_gaps_def)
  have "ge_estimated_seconds g + ge_unknown_seconds g = sum_list (map gap_duration events)"
    using inv sum_list_split [of is_unknown gap_duration "ge_details g"] by (simp add: gaps_inv_def all)
  moreover have "0 < gap_duration e \<and> gap_duration e \<le> gp_maximum_gap_seconds p
         \<and> gp_unresolved_counter_resets p = 0 \<and> gp_minimum_coverage p \<le> gp_reading_coverage p
         \<and> (\<exists>a b i j. ee_gap_start_utc e = Some a \<and> ee_gap_end_utc e = Some b
              \<and> gp_cycle_start p \<le> a \<and> b \<le> gp_scope_end p
              \<and> interval_before s e a (gp_maximum_gap_seconds p) = Some i
              \<and> interval_after s e b (gp_maximum_gap_seconds p) = Some j)"
    if "(e, x) \<in> set (ge_details g)" "\<not> is_unknown x" for e x
  proof -
    have e: "blocked_reason p e = None" "\<exists>a b i j. ee_gap_start_utc e = Some a \<and> ee_gap_end_utc e = Some b
               \<and> interval_before s e a (gp_maximum_gap_seconds p) = Some i
               \<and> interval_after s e b (gp_maximum_gap_seconds p) = Some j"
      using inv that by (auto simp: gaps_inv_def)
    show ?thesis using e(1) by (rule blocked_reason_None) (use e(2) in auto)
  qed
  ultimately show ?thesis using inv all by (auto simp: gaps_inv_def)
qed

subsection \<open>A demonstration cycle\<close>

text \<open>A meter with two measured minutes and the two minutes between them missing.\<close>

definition demo_interval :: "row_id \<Rightarrow> instant \<Rightarrow> int \<Rightarrow> normalized_interval" where
  "demo_interval n t e = \<lparr>ni_id = n, ni_device_id = ''d1'', ni_raw_reading_id = None,
     ni_start_utc = t, ni_end_utc = t + 60000000, ni_energy_mwh = Some e, ni_average_power_mw = None,
     ni_completeness = 1, ni_energy_selection = ''pzem'', ni_algorithm_version = ''v1'',
     ni_source_authenticated = True, ni_source_kind = ''stateless_v2'', ni_minimum_power_mw = None,
     ni_maximum_power_mw = None, ni_ending_voltage_mv = None, ni_ending_current_ma = None,
     ni_average_frequency_mhz = None, ni_average_power_factor_milli = None, ni_received_sample_count = 1,
     ni_expected_sample_count = 1, ni_gap_status = ''complete'', ni_finalized = True, ni_last_received_at = None\<rparr>"

definition demo_gap :: "string \<Rightarrow> int option \<Rightarrow> energy_event" where
  "demo_gap status recovered = \<lparr>ee_home_id = ''h1'', ee_device_id = ''d1'', ee_sample_id = 9,
     ee_event_type = ''connection_gap_unresolved'', ee_gap_start_utc = Some 60000000,
     ee_gap_end_utc = Some 180000000, ee_prior_energy_wh = None, ee_current_energy_wh = None,
     ee_recovered_energy_mwh = recovered, ee_billing_status = status, ee_evidence = []\<rparr>"

definition demo_account :: utility_account where
  "demo_account = \<lparr>ua_id = ''u1'', ua_home_id = ''h1'', ua_timezone = ''UTC'', ua_billing_day = 1,
     ua_estimate_min_coverage = 1 / 2, ua_max_estimatable_gap_seconds = 300\<rparr>"

definition demo_metered :: "energy_event \<Rightarrow> store" where
  "demo_metered e = demo_store \<lparr>st_accounts := [demo_account],
     st_circuits := [\<lparr>ci_id = ''c1'', ci_home_id = ''h1'', ci_is_home_total = True, ci_is_billing_source = True,
       ci_non_overlapping_confirmed = True, ci_aggregate_mode = ''verified_sum''\<rparr>],
     st_intervals := [demo_interval 1 0 1000, demo_interval 2 180000000 2000], st_events := [e]\<rparr>"

definition demo_policy :: gap_policy where
  "demo_policy = \<lparr>gp_cycle_start = 0, gp_scope_end = 240000000, gp_reading_coverage = 1 / 2,
     gp_minimum_coverage = 1 / 2, gp_maximum_gap_seconds = 300, gp_unresolved_counter_resets = 0\<rparr>"

abbreviation demo_usage_store :: store where
  "demo_usage_store \<equiv> demo_metered (demo_gap ''unresolved'' None)"

lemma demo_short_gap:
  obtains g where "estimate_short_gap_energy demo_usage_store demo_policy [demo_gap ''unresolved'' None] = Inr g"
    "ge_estimated_mwh g = 3000" "ge_unknown_count g = 0" "ge_estimated_seconds g = 120" "ge_unknown_seconds g = 0"
proof -
  define run where "run = estimate_short_gap_energy demo_usage_store demo_policy [demo_gap ''unresolved'' None]"
  have "map_sum id (\<lambda>g. (ge_estimated_mwh g, ge_unknown_count g, ge_estimated_seconds g, ge_unknown_seconds g)) run
      = Inr (3000, 0, 120, 0)"
    unfolding run_def by code_simp
  then show thesis using that by (cases run) (auto simp: run_def)
qed

lemma demo_usage_parts:
  "member_ids_of demo_usage_store demo_account = [''d1'']"
  "seeded_start (\<lambda>_. None) demo_usage_store demo_account 0 240000000 = Inr (0, 0)"
  "sum_reliable_seconds (filter (counted_interval demo_usage_store [''d1''] 0 240000000) (st_intervals demo_usage_store)) = 120"
  "open_resets demo_usage_store [''d1''] 0 240000000 = 0"
  "dec_mul (decimal_seconds 0 240000000) 1 = 240" "dec_mul (decimal_seconds 0 0) 1 = 0"
  "dec_add 120 0 = 120" "dec_div 120 240 = 1 / 2" "dec_sub 240 120 = 120"
  by code_simp+

lemma demo_usage_events:
  "filter (cycle_event [''d1''] 0 240000000) (st_events demo_usage_store) = [demo_gap ''unresolved'' None]"
  "ee_billing_status (demo_gap status v) = status"
  by (simp_all add: demo_metered_def demo_gap_def cycle_event_def)

lemma demo_cycle_resolved:
  obtains u where "account_cycle_usage (\<lambda>_. None) demo_usage_store demo_account 0 240000000 = Inr u" "resolved u"
proof (rule demo_short_gap)
  fix g assume g: "estimate_short_gap_energy demo_usage_store demo_policy [demo_gap ''unresolved'' None] = Inr g"
    "ge_unknown_count g = 0" "ge_estimated_seconds g = 120" "ge_unknown_seconds g = 0"
  have p: "\<lparr>gp_cycle_start = 0, gp_scope_end = 240000000, gp_reading_coverage = 1 / 2,
      gp_minimum_coverage = ua_estimate_min_coverage demo_account,
      gp_maximum_gap_seconds = ua_max_estimatable_gap_seconds demo_account, gp_unresolved_counter_resets = 0\<rparr> = demo_policy"
    by (simp add: demo_policy_def demo_account_def)
  have "map_sum id resolved (account_cycle_usage (\<lambda>_. None) demo_usage_store demo_account 0 240000000) = Inr True"
    by (simp add: account_cycle_usage_def Let_def demo_usage_parts demo_usage_events recovered_event_def
      p g resolved_def py_bool_int_def del: filter_filter)
  then show thesis using that by (auto simp: bindE_simps)
qed

subsection \<open>Short gaps\<close>

text \<open>C33. Gaps are classified once and estimated only on evidence: every event has exactly one outcome, the estimated
  and unknown seconds add up to the duration of all gaps, the unknown count is the number of unknown outcomes, and a
  gap is estimated only when it lies inside the cycle, is no longer than allowed, no counter reset is open, the
  coverage is sufficient and a measured interval lies close before and after it.\<close>
theorem short_gaps_classified:
  assumes "estimate_short_gap_energy s p events = Inr g"
  shows "map fst (ge_details g) = events
    \<and> ge_estimated_seconds g + ge_unknown_seconds g = sum_list (map gap_duration events)
    \<and> ge_unknown_count g = int (length (filter (\<lambda>(e, x). is_unknown x) (ge_details g)))
    \<and> (\<forall>(e, x)\<in>set (ge_details g). \<not> is_unknown x \<longrightarrow> 0 < gap_duration e \<and> gap_duration e \<le> gp_maximum_gap_seconds p
         \<and> gp_unresolved_counter_resets p = 0 \<and> gp_minimum_coverage p \<le> gp_reading_coverage p
         \<and> (\<exists>a b i j. ee_gap_start_utc e = Some a \<and> ee_gap_end_utc e = Some b
              \<and> gp_cycle_start p \<le> a \<and> b \<le> gp_scope_end p
              \<and> interval_before s e a (gp_maximum_gap_seconds p) = Some i
              \<and> interval_after s e b (gp_maximum_gap_seconds p) = Some j))"
  using assms by (rule short_gaps_facts)

theorem short_gaps_classified_witness:
  "\<exists>g. estimate_short_gap_energy (demo_metered (demo_gap ''unresolved'' None)) demo_policy
       [demo_gap ''unresolved'' None] = Inr g
     \<and> ge_estimated_seconds g + ge_unknown_seconds g = 120 \<and> ge_estimated_mwh g = 3000 \<and> ge_unknown_count g = 0"
proof (rule demo_short_gap)
  fix g assume g: "estimate_short_gap_energy demo_usage_store demo_policy [demo_gap ''unresolved'' None] = Inr g"
    "ge_estimated_mwh g = 3000" "ge_unknown_count g = 0"
  have "gap_duration (demo_gap ''unresolved'' None) = 120" by code_simp
  then show ?thesis using short_gaps_classified [OF g(1)] g by auto
qed

subsection \<open>A cycle\<close>

lemma account_cycle_usage_Inr:
  assumes "account_cycle_usage f s account a b = Inr u"
  obtains auto adj members counted reliable expected events recovered g p where
    "seeded_start f s account a b = Inr (auto, adj)" "members = member_ids_of s account" "cu_member_ids u = members"
    "counted = filter (counted_interval s members auto b) (st_intervals s)"
    "reliable = dec_add (sum_reliable_seconds counted) (dec_mul (decimal_seconds a auto) (of_nat (length members)))"
    "expected = dec_mul (decimal_seconds a b) (of_nat (length members))"
    "events = filter (cycle_event members auto b) (st_events s)"
    "recovered = filter (recovered_event b) events"
    "p = \<lparr>gp_cycle_start = auto, gp_scope_end = b, gp_reading_coverage = cu_reading_coverage u,
       gp_minimum_coverage = ua_estimate_min_coverage account,
       gp_maximum_gap_seconds = ua_max_estimatable_gap_seconds account,
       gp_unresolved_counter_resets = open_resets s members auto b\<rparr>"
    "estimate_short_gap_energy s p (filter (\<lambda>e. ee_billing_status e = ''unresolved'') events) = Inr g"
    "cu_unresolved_counter_reset_count u = open_resets s members auto b"
    "cu_unknown_gap_count u = ge_unknown_count g + py_bool_int (of_int (sum_list (map event_seconds recovered)
       + ge_estimated_seconds g + ge_unknown_seconds g) < max 0 (dec_sub expected reliable))"
    "cu_measured_kwh u = dec_div (of_int (option_int (sum_energy counted))) 1000000"
    "cu_recovered_kwh u = dec_div (of_int (sum_list (map (\<lambda>e. option_int (ee_recovered_energy_mwh e)) recovered))) 1000000"
    "cu_reading_coverage u = (if expected \<noteq> 0 then min 1 (dec_div reliable expected) else of_bool (members \<noteq> []))"
  using assms unfolding account_cycle_usage_def
  by (auto simp: bindE_simps Let_def)

text \<open>C13. A resolved cycle leaves nothing open: it has members, no open counter reset, every unresolved gap in its scope
  was estimated from measured neighbours inside the cycle, and the recovered and estimated seconds cover all seconds
  that its readings and its verified seed do not.\<close>
theorem resolved_cycle_leaves_nothing_open:
  assumes "account_cycle_usage f s account a b = Inr u" "resolved u"
  shows "\<exists>auto adj. seeded_start f s account a b = Inr (auto, adj) \<and> member_ids_of s account \<noteq> []
    \<and> open_resets s (member_ids_of s account) auto b = 0
    \<and> (\<forall>e\<in>set (st_events s). cycle_event (member_ids_of s account) auto b e \<and> ee_billing_status e = ''unresolved'' \<longrightarrow>
         0 < gap_duration e \<and> gap_duration e \<le> ua_max_estimatable_gap_seconds account
         \<and> (\<exists>x y i j. ee_gap_start_utc e = Some x \<and> ee_gap_end_utc e = Some y \<and> auto \<le> x \<and> y \<le> b
              \<and> interval_before s e x (ua_max_estimatable_gap_seconds account) = Some i
              \<and> interval_after s e y (ua_max_estimatable_gap_seconds account) = Some j))
    \<and> (let members = member_ids_of s account;
           gaps = filter (cycle_event members auto b) (st_events s);
           reliable = dec_add (sum_reliable_seconds (filter (counted_interval s members auto b) (st_intervals s)))
             (dec_mul (decimal_seconds a auto) (of_nat (length members)))
       in dec_sub (dec_mul (decimal_seconds a b) (of_nat (length members))) reliable
          \<le> of_int (sum_list (map event_seconds (filter (recovered_event b) gaps))
              + sum_list (map gap_duration (filter (\<lambda>e. ee_billing_status e = ''unresolved'') gaps))))"
  using assms(1)
proof (rule account_cycle_usage_Inr)
  fix auto adj members counted reliable expected events recovered g p
  assume seed: "seeded_start f s account a b = Inr (auto, adj)"
    and m: "members = member_ids_of s account" "cu_member_ids u = members"
    and rows: "counted = filter (counted_interval s members auto b) (st_intervals s)"
      "reliable = dec_add (sum_reliable_seconds counted) (dec_mul (decimal_seconds a auto) (of_nat (length members)))"
      "expected = dec_mul (decimal_seconds a b) (of_nat (length members))"
    and ev: "events = filter (cycle_event members auto b) (st_events s)" "recovered = filter (recovered_event b) events"
    and p: "p = \<lparr>gp_cycle_start = auto, gp_scope_end = b, gp_reading_coverage = cu_reading_coverage u,
       gp_minimum_coverage = ua_estimate_min_coverage account,
       gp_maximum_gap_seconds = ua_max_estimatable_gap_seconds account,
       gp_unresolved_counter_resets = open_resets s members auto b\<rparr>"
    and g: "estimate_short_gap_energy s p (filter (\<lambda>e. ee_billing_status e = ''unresolved'') events) = Inr g"
    and resets: "cu_unresolved_counter_reset_count u = open_resets s members auto b"
    and unk: "cu_unknown_gap_count u = ge_unknown_count g + py_bool_int (of_int (sum_list (map event_seconds recovered)
       + ge_estimated_seconds g + ge_unknown_seconds g) < max 0 (dec_sub expected reliable))"
  note cl = short_gaps_facts [OF g]
  have res: "members \<noteq> []" "cu_unknown_gap_count u = 0" "open_resets s members auto b = 0"
    using assms(2) m resets by (auto simp: resolved_def)
  have zero: "ge_unknown_count g = 0" "\<not> of_int (sum_list (map event_seconds recovered)
       + ge_estimated_seconds g + ge_unknown_seconds g) < max 0 (dec_sub expected reliable)"
    using unk res(2) cl by (auto simp: py_bool_int_def split: if_splits)
  have known: "\<not> is_unknown x" if "(e, x) \<in> set (ge_details g)" for e x
    using zero(1) cl that by (auto simp: filter_empty_conv)
  have gaps: "0 < gap_duration e \<and> gap_duration e \<le> ua_max_estimatable_gap_seconds account
         \<and> (\<exists>x y i j. ee_gap_start_utc e = Some x \<and> ee_gap_end_utc e = Some y \<and> auto \<le> x \<and> y \<le> b
              \<and> interval_before s e x (ua_max_estimatable_gap_seconds account) = Some i
              \<and> interval_after s e y (ua_max_estimatable_gap_seconds account) = Some j)"
    if e: "e \<in> set (st_events s)" "cycle_event members auto b e" "ee_billing_status e = ''unresolved''" for e
  proof -
    have "e \<in> set (map fst (ge_details g))" using cl e by (simp add: ev)
    then obtain x where x: "(e, x) \<in> set (ge_details g)" by auto
    show ?thesis using cl x known [OF x] by (auto simp: p)
  qed
  have "dec_sub expected reliable \<le> of_int (sum_list (map event_seconds recovered)
      + (ge_estimated_seconds g + ge_unknown_seconds g))"
    using zero(2) by (simp add: not_less add.assoc)
  then have "dec_sub expected reliable \<le> of_int (sum_list (map event_seconds recovered)
      + sum_list (map gap_duration (filter (\<lambda>e. ee_billing_status e = ''unresolved'') events)))"
    using cl by simp
  then show ?thesis
    using seed res(1,3) gaps unfolding Let_def m(1) [symmetric] rows ev by blast
qed

theorem resolved_cycle_leaves_nothing_open_witness:
  "\<exists>u i j. account_cycle_usage (\<lambda>_. None) (demo_metered (demo_gap ''unresolved'' None)) demo_account 0 240000000 = Inr u
     \<and> resolved u
     \<and> interval_before (demo_metered (demo_gap ''unresolved'' None)) (demo_gap ''unresolved'' None) 60000000 300 = Some i
     \<and> interval_after (demo_metered (demo_gap ''unresolved'' None)) (demo_gap ''unresolved'' None) 180000000 300 = Some j"
proof (rule demo_cycle_resolved)
  fix u assume u: "account_cycle_usage (\<lambda>_. None) demo_usage_store demo_account 0 240000000 = Inr u" "resolved u"
  have e: "demo_gap ''unresolved'' None \<in> set (st_events demo_usage_store)"
      "cycle_event [''d1''] 0 240000000 (demo_gap ''unresolved'' None)"
      "ua_max_estimatable_gap_seconds demo_account = 300"
      "ee_gap_start_utc (demo_gap ''unresolved'' None) = Some 60000000" "ee_gap_end_utc (demo_gap ''unresolved'' None) = Some 180000000"
    by (simp_all add: demo_metered_def demo_gap_def cycle_event_def demo_account_def)
  show ?thesis
    using resolved_cycle_leaves_nothing_open [OF u] u e by (auto simp: demo_usage_parts demo_usage_events(2))
qed

subsection \<open>Telemetry and billing\<close>







end
