(* ===== verification/Firmware_Image.thy ===== *)
theory Firmware_Image
  imports PM_Prelude "HOL-Library.Word"
begin

text \<open>
  \<open>parse_esp32s3_app_identity\<close> of \<open>backend/app/services/firmware_deployments.py\<close>: the
  version, project and build id that an ESP32-S3 application image carries in its descriptor.
  Bytes are 8-bit words, and a slice that reaches past the end is cut there, as in Python.
\<close>

type_synonym byte = "8 word"

subsection \<open>Bytes\<close>

definition slice :: "nat \<Rightarrow> nat \<Rightarrow> 'a list \<Rightarrow> 'a list" where
  "slice a b xs = take (b - a) (drop a xs)"

text \<open>\<open>int.from_bytes(field, "little")\<close>.\<close>

fun from_le :: "byte list \<Rightarrow> nat" where
  "from_le [] = 0"
| "from_le (b # bs) = unat b + 256 * from_le bs"

text \<open>\<open>field.hex()\<close>.\<close>

definition hex_digit :: "nat \<Rightarrow> char" where
  "hex_digit n = (if n < 10 then char_of (48 + n) else char_of (87 + n))"

definition hex_byte :: "byte \<Rightarrow> string" where
  "hex_byte b = [hex_digit (unat b div 16), hex_digit (unat b mod 16)]"

definition bytes_hex :: "byte list \<Rightarrow> string" where
  "bytes_hex bs = concat (map hex_byte bs)"

subsection \<open>The descriptor\<close>

definition esp_image_header_size :: nat where "esp_image_header_size = 24"
definition esp_segment_header_size :: nat where "esp_segment_header_size = 8"
definition esp32s3_chip_id :: nat where "esp32s3_chip_id = 9"
definition esp_app_desc_magic :: nat where "esp_app_desc_magic = 0xABCD5432"
definition esp_app_desc_size :: nat where "esp_app_desc_size = 256"
definition esp_app_desc_version_offset :: nat where "esp_app_desc_version_offset = 16"
definition esp_app_desc_project_offset :: nat where "esp_app_desc_project_offset = 48"
definition esp_app_desc_text_size :: nat where "esp_app_desc_text_size = 32"
definition esp_app_desc_elf_sha256_offset :: nat where "esp_app_desc_elf_sha256_offset = 144"

lemmas esp_layout = esp_image_header_size_def esp_segment_header_size_def esp32s3_chip_id_def
  esp_app_desc_magic_def esp_app_desc_size_def esp_app_desc_version_offset_def
  esp_app_desc_project_offset_def esp_app_desc_text_size_def esp_app_desc_elf_sha256_offset_def

record esp32s3_app_identity =
  ai_semantic_version :: string
  ai_project_name :: string
  ai_firmware_build_id :: string

definition nul_padded_ascii :: "string \<Rightarrow> byte list \<Rightarrow> string result" where
  "nul_padded_ascii label field =
     (let text = takeWhile (\<lambda>b. b \<noteq> 0) field in
      if text = [] \<or> length text = length field \<or> list_ex (\<lambda>b. b \<noteq> 0) (drop (length text + 1) field)
      then Inl (ValueError (''ESP application '' @ label @ '' is not unambiguous NUL-padded text''))
      else if list_ex (\<lambda>b. 128 \<le> unat b) text
      then Inl (ValueError (''ESP application '' @ label @ '' is not ASCII''))
      else Inr (map (\<lambda>b. char_of (unat b)) text))"

definition parse_esp32s3_app_identity :: "byte list \<Rightarrow> esp32s3_app_identity result" where
  "parse_esp32s3_app_identity img =
     (let descriptor_offset = esp_image_header_size + esp_segment_header_size;
          minimum_size = descriptor_offset + esp_app_desc_size
      in if length img < minimum_size \<or> img ! 0 \<noteq> 0xE9 \<or> \<not> (1 \<le> unat (img ! 1) \<and> unat (img ! 1) \<le> 16)
         then Inl (ValueError ''firmware is not a complete ESP application image'')
         else if from_le (slice 12 14 img) \<noteq> esp32s3_chip_id
         then Inl (ValueError ''firmware image does not target ESP32-S3'')
         else let first_segment_size = from_le (slice (esp_image_header_size + 4) descriptor_offset img) in
         if first_segment_size < esp_app_desc_size \<or> length img < descriptor_offset + first_segment_size
         then Inl (ValueError ''firmware first application segment is truncated'')
         else let descriptor = slice descriptor_offset (descriptor_offset + esp_app_desc_size) img in
         if from_le (take 4 descriptor) \<noteq> esp_app_desc_magic
         then Inl (ValueError ''firmware ESP application descriptor magic is invalid'')
         else
         bindE (nul_padded_ascii ''version''
            (slice esp_app_desc_version_offset (esp_app_desc_version_offset + esp_app_desc_text_size) descriptor))
            (\<lambda>semantic_version.
         bindE (nul_padded_ascii ''project name''
            (slice esp_app_desc_project_offset (esp_app_desc_project_offset + esp_app_desc_text_size) descriptor))
            (\<lambda>project_name.
         let build_bytes = slice esp_app_desc_elf_sha256_offset (esp_app_desc_elf_sha256_offset + 32) descriptor in
         if length build_bytes \<noteq> 32 \<or> build_bytes \<in> {replicate 32 0, replicate 32 0xFF}
         then Inl (ValueError ''firmware ESP application build ID is unavailable'')
         else Inr \<lparr>ai_semantic_version = semantic_version, ai_project_name = project_name,
                ai_firmware_build_id = bytes_hex build_bytes\<rparr>)))"

subsection \<open>Images\<close>

text \<open>The layout of an image with a given identity, and the bytes the parser does not read.\<close>

definition padded_text :: "string \<Rightarrow> byte list" where
  "padded_text s = map (\<lambda>c. word_of_nat (of_char c)) s @ replicate (32 - length s) 0"

definition plain_text :: "string \<Rightarrow> bool" where
  "plain_text s \<longleftrightarrow> s \<noteq> [] \<and> length s < 32 \<and> (\<forall>c\<in>set s. 0 < (of_char c :: nat) \<and> (of_char c :: nat) < 128)"

record image_parts =
  im_segments :: byte
  im_head1 :: "byte list"
  im_head2 :: "byte list"
  im_load :: "byte list"
  im_size :: "byte list"
  im_desc1 :: "byte list"
  im_desc2 :: "byte list"
  im_rest :: "byte list"

definition image_parts_ok :: "image_parts \<Rightarrow> bool" where
  "image_parts_ok p \<longleftrightarrow> 1 \<le> unat (im_segments p) \<and> unat (im_segments p) \<le> 16
     \<and> length (im_head1 p) = 10 \<and> length (im_head2 p) = 10 \<and> length (im_load p) = 4
     \<and> length (im_size p) = 4 \<and> 256 \<le> from_le (im_size p)
     \<and> length (im_desc1 p) = 12 \<and> length (im_desc2 p) = 64
     \<and> from_le (im_size p) \<le> 176 + length (im_rest p) \<and> 80 \<le> length (im_rest p)"

definition esp_image :: "image_parts \<Rightarrow> string \<Rightarrow> string \<Rightarrow> byte list \<Rightarrow> byte list" where
  "esp_image p version project build =
     [0xE9, im_segments p] @ im_head1 p @ [9, 0] @ im_head2 p @ im_load p @ im_size p
     @ [0x32, 0x54, 0xCD, 0xAB] @ im_desc1 p @ padded_text version @ padded_text project
     @ im_desc2 p @ build @ im_rest p"

lemma slice_skip: "slice a b (xs @ ys) = slice (a - length xs) (b - length xs) ys" if "length xs \<le> a"
  using that by (simp add: slice_def)

lemma slice_skip_Cons: "0 < a \<Longrightarrow> slice a b (x # ys) = slice (a - 1) (b - 1) ys"
  by (cases a) (auto simp: slice_def)

lemma slice_0: "slice 0 n xs = take n xs" by (simp add: slice_def)

lemma length_padded_text: "plain_text s \<Longrightarrow> length (padded_text s) = 32"
  by (simp add: padded_text_def plain_text_def)

lemma byte_of_char:
  "0 < (of_char c :: nat) \<Longrightarrow> (of_char c :: nat) < 128 \<Longrightarrow>
    unat (word_of_nat (of_char c) :: byte) = of_char c \<and> (word_of_nat (of_char c) :: byte) \<noteq> 0"
  by (auto simp: unat_of_nat word_of_nat_eq_0_iff dvd_def)

lemma nul_padded_ascii_padded_text:
  assumes "plain_text s"
  shows "nul_padded_ascii label (padded_text s) = Inr s"
proof -
  let ?bs = "map (\<lambda>c. word_of_nat (of_char c) :: byte) s"
  have c: "unat (word_of_nat (of_char c) :: byte) = of_char c" "(word_of_nat (of_char c) :: byte) \<noteq> 0"
    "(of_char c :: nat) < 128" if "c \<in> set s" for c
    using assms that byte_of_char by (auto simp: plain_text_def)
  have len: "length s < 32" "s \<noteq> []" using assms by (auto simp: plain_text_def)
  then have pad: "replicate (32 - length s) (0::byte) = 0 # replicate (31 - length s) 0"
    by (cases "32 - length s") (auto simp: numeral_eq_Suc)
  have tw: "takeWhile (\<lambda>b. b \<noteq> 0) (padded_text s) = ?bs"
    unfolding padded_text_def pad using c(2) by (subst takeWhile_append2) auto
  have "drop (length s + 1) (padded_text s) = replicate (31 - length s) 0"
    unfolding padded_text_def pad by simp
  moreover have "map (\<lambda>b. char_of (unat b)) ?bs = s" using c(1) by (intro nth_equalityI) auto
  moreover have "\<not> list_ex (\<lambda>b. 128 \<le> unat b) ?bs" using c(1,3) by (auto simp: list_ex_iff not_le [symmetric])
  ultimately show ?thesis using len
    by (simp add: nul_padded_ascii_def tw length_padded_text [OF assms] list_ex_iff)
qed

subsection \<open>Reading an image back\<close>

lemma from_le_known: "from_le [9, 0] = 9" "from_le [0x32, 0x54, 0xCD, 0xAB] = 0xABCD5432"
  by simp_all

text \<open>C36. The parser reads back what an image was built with: for every well-formed image of any size, with any
  content in the bytes it does not read, the version, the project and the build id are recovered.\<close>
theorem parse_recovers_identity:
  assumes "image_parts_ok p" "plain_text version" "plain_text project"
    and "length build = 32" "build \<noteq> replicate 32 0" "build \<noteq> replicate 32 0xFF"
  shows "parse_esp32s3_app_identity (esp_image p version project build)
    = Inr \<lparr>ai_semantic_version = version, ai_project_name = project, ai_firmware_build_id = bytes_hex build\<rparr>"
proof -
  note ok = assms(1) [unfolded image_parts_ok_def]
  let ?img = "esp_image p version project build"
  let ?desc = "[0x32, 0x54, 0xCD, 0xAB] @ im_desc1 p @ padded_text version @ padded_text project
     @ im_desc2 p @ build @ take 80 (im_rest p)"
  note len = length_padded_text [OF assms(2)] length_padded_text [OF assms(3)]
  have size: "length ?img = 32 + 176 + length (im_rest p)"
    using ok len assms(4) by (simp add: esp_image_def)
  have chip: "slice 12 14 ?img = [9, 0]"
    using ok by (simp add: esp_image_def slice_skip_Cons slice_skip) (simp add: slice_def)
  have seg: "slice 28 32 ?img = im_size p"
    using ok by (simp add: esp_image_def slice_skip_Cons slice_skip) (simp add: slice_def)
  have desc: "slice 32 288 ?img = ?desc"
    using ok len assms(4) by (simp add: esp_image_def slice_skip_Cons slice_skip) (simp add: slice_def)
  have fields: "take 4 ?desc = [0x32, 0x54, 0xCD, 0xAB]" "slice 16 48 ?desc = padded_text version"
    "slice 48 80 ?desc = padded_text project" "slice 144 176 ?desc = build"
    using ok len assms(4)
    by (simp_all add: slice_skip_Cons slice_skip) (simp_all add: slice_def)
  have first: "?img ! 0 = 0xE9" "?img ! 1 = im_segments p" by (simp_all add: esp_image_def)
  show ?thesis
    unfolding parse_esp32s3_app_identity_def esp_layout Let_def
    using ok size assms(4-6) chip seg desc fields first
    by (simp add: from_le_known nul_padded_ascii_padded_text [OF assms(2)] nul_padded_ascii_padded_text [OF assms(3)]
        del: from_le.simps)
qed

definition demo_image_parts :: image_parts where
  "demo_image_parts = \<lparr>im_segments = 1, im_head1 = replicate 10 7, im_head2 = replicate 10 7,
     im_load = replicate 4 0, im_size = [0, 1, 0, 0], im_desc1 = replicate 12 0, im_desc2 = replicate 64 0,
     im_rest = replicate 80 0\<rparr>"

theorem parse_recovers_identity_witness:
  "parse_esp32s3_app_identity (esp_image demo_image_parts ''1.2.3'' ''power-monitor'' (replicate 32 0xA5))
    = Inr \<lparr>ai_semantic_version = ''1.2.3'', ai_project_name = ''power-monitor'',
        ai_firmware_build_id = bytes_hex (replicate 32 0xA5)\<rparr>"
proof (rule parse_recovers_identity)
  show "image_parts_ok demo_image_parts" by (simp add: image_parts_ok_def demo_image_parts_def)
  show "plain_text ''1.2.3''" "plain_text ''power-monitor''" by (simp_all add: plain_text_def)
qed (simp_all add: replicate_eq_replicate)

end
