(* ===== verification/Spec2Isabelle.thy ===== *)
theory Spec2Isabelle
  imports Cost_Properties Ingestion_Properties Stateless_Properties Device_Auth_Properties Billing_Usage_Properties Firmware_Image
begin

text \<open>
  PowerMeter V2, verified parts.
\<close>

end
